(* ===== verification/Prelude.thy ===== *)
theory Prelude
  imports
    Main
    "HOL-Library.Word"
    "HOL-Library.Sublist"
    "HOL-Library.Char_ord"
    "HOL-Library.List_Lexorder"
    "HOL-Library.Product_Lexorder"
begin

text \<open>
  What every component of the development shares: the model of the parts of Rust's
  standard library the source uses (\<open>BTreeMap\<close>, \<open>BTreeSet\<close>, \<open>str\<close>, \<open>Result\<close>, the
  integer types), and the generic lemmas about them.

  A Rust \<open>String\<close> is its UTF-8 bytes: a \<open>string\<close>, that is a \<open>char list\<close>, ordered
  lexicographically by byte value, which is how \<open>Ord\<close> compares \<open>str\<close>. A \<open>BTreeMap\<close> is an
  association list whose keys are strictly increasing, so that iterating over it is
  iterating over the list; a \<open>BTreeSet\<close> is a strictly increasing list. A \<open>Result\<close> is a sum
  with the error on the left.
\<close>

named_theorems btree_simps \<open>what each BTreeMap and BTreeSet operation does\<close>
named_theorems str_simps \<open>what each string operation does\<close>

type_synonym u8 = "8 word"
type_synonym u16 = "16 word"
type_synonym u32 = "32 word"
type_synonym u64 = "64 word"

type_synonym ('k, 'v) btree_map = "('k \<times> 'v) list"
type_synonym 'k btree_set = "'k list"

text \<open>What is left of an \<open>i64\<close> computation that leaves its range, in a release build.\<close>

definition wrap_i64 :: "int \<Rightarrow> int" where
  "wrap_i64 n = (n + 2 ^ 63) mod 2 ^ 64 - 2 ^ 63"

lemma wrap_i64_id: "- (2 ^ 63) \<le> n \<Longrightarrow> n < 2 ^ 63 \<Longrightarrow> wrap_i64 n = n"
  by (simp add: wrap_i64_def)


section \<open>Results\<close>

text \<open>The \<open>?\<close> operator: an error is returned at once.\<close>

definition and_then :: "'e + 'a \<Rightarrow> ('a \<Rightarrow> 'e + 'b) \<Rightarrow> 'e + 'b" where
  "and_then r f = (case r of Inl e \<Rightarrow> Inl e | Inr a \<Rightarrow> f a)"

lemma and_then_simps [simp]:
  "and_then (Inl e) f = Inl e"
  "and_then (Inr a) f = f a"
  by (simp_all add: and_then_def)

lemma and_then_Inr_conv: "and_then r f = Inr b \<longleftrightarrow> (\<exists>a. r = Inr a \<and> f a = Inr b)"
  by (cases r) auto

lemma and_then_Inl_conv:
  "and_then r f = Inl e \<longleftrightarrow> r = Inl e \<or> (\<exists>a. r = Inr a \<and> f a = Inl e)"
  by (cases r) auto

text \<open>A \<open>for\<close> loop over a list whose body may return early with an error.\<close>

fun try_fold :: "('x \<Rightarrow> 's \<Rightarrow> 'e + 's) \<Rightarrow> 'x list \<Rightarrow> 's \<Rightarrow> 'e + 's" where
  "try_fold f [] s = Inr s"
| "try_fold f (x # xs) s = and_then (f x s) (try_fold f xs)"

lemma try_fold_append:
  "try_fold f (xs @ ys) s = and_then (try_fold f xs s) (try_fold f ys)"
  by (induction xs arbitrary: s) (auto simp: and_then_def split: sum.splits)

text \<open>What every iteration keeps, the whole loop keeps.\<close>

lemma try_fold_invariant:
  assumes "try_fold f xs s = Inr s'" and "I s"
    and "\<And>x s s'. x \<in> set xs \<Longrightarrow> I s \<Longrightarrow> f x s = Inr s' \<Longrightarrow> I s'"
  shows "I s'"
  using assms
proof (induction xs arbitrary: s)
  case (Cons x xs)
  from Cons.prems(1) obtain s1 where s1: "f x s = Inr s1" "try_fold f xs s1 = Inr s'"
    by (auto simp: and_then_Inr_conv)
  from s1(1) Cons.prems(2,3) have "I s1" by (meson list.set_intros(1))
  with s1(2) show ?case
    using Cons.IH Cons.prems(3) by (meson list.set_intros(2))
qed simp

text \<open>\<open>collect::<Result<Vec<_>>>\<close>: the first error, or every value in order.\<close>

fun collect_results :: "('x \<Rightarrow> 'e + 'a) \<Rightarrow> 'x list \<Rightarrow> 'e + 'a list" where
  "collect_results f [] = Inr []"
| "collect_results f (x # xs) =
     and_then (f x) (\<lambda>a. and_then (collect_results f xs) (\<lambda>as. Inr (a # as)))"

lemma collect_results_Inr_conv:
  "collect_results f xs = Inr ys \<longleftrightarrow> list_all2 (\<lambda>x y. f x = Inr y) xs ys"
  by (induction xs arbitrary: ys) (auto simp: and_then_Inr_conv list_all2_Cons1)

lemma collect_results_map_Inr:
  "(\<And>x. x \<in> set xs \<Longrightarrow> f x = Inr (g x)) \<Longrightarrow> collect_results f xs = Inr (map g xs)"
  by (induction xs) auto


section \<open>Positions in a list\<close>

lemma takeWhile_until: "y \<notin> set xs \<Longrightarrow> takeWhile (\<lambda>x. x \<noteq> y) (xs @ y # ys) = xs"
  by (induction xs) auto

lemma distinct_split_unique:
  "distinct (xs @ y # ys) \<Longrightarrow> xs @ y # ys = xs' @ y # ys' \<Longrightarrow> xs = xs'"
  by (metis distinct_append distinct.simps(2) disjoint_iff list.set_intros(1) takeWhile_until)

lemma set_map_filter: "set (List.map_filter f xs) = {y. \<exists>x \<in> set xs. f x = Some y}"
  by (auto simp: List.map_filter_def) force


section \<open>Ordered maps and sets\<close>

definition bt_get :: "('k, 'v) btree_map \<Rightarrow> 'k \<Rightarrow> 'v option" where
  "bt_get m k = map_of m k"

fun bt_insert :: "'k::linorder \<Rightarrow> 'v \<Rightarrow> ('k, 'v) btree_map \<Rightarrow> ('k, 'v) btree_map" where
  "bt_insert k v [] = [(k, v)]"
| "bt_insert k v ((k', v') # m) =
     (if k < k' then (k, v) # (k', v') # m
      else if k = k' then (k, v) # m
      else (k', v') # bt_insert k v m)"

definition bt_keys :: "('k, 'v) btree_map \<Rightarrow> 'k list" where
  "bt_keys m = map fst m"

definition bt_values :: "('k, 'v) btree_map \<Rightarrow> 'v list" where
  "bt_values m = map snd m"

text \<open>\<open>extend\<close> inserts the entries of the second map one after the other.\<close>

definition bt_extend ::
  "('k::linorder, 'v) btree_map \<Rightarrow> ('k \<times> 'v) list \<Rightarrow> ('k, 'v) btree_map" where
  "bt_extend m es = fold (\<lambda>(k, v). bt_insert k v) es m"

definition bt_wf :: "('k::linorder, 'v) btree_map \<Rightarrow> bool" where
  "bt_wf m \<longleftrightarrow> sorted_wrt (<) (map fst m)"

lemma set_keys_bt_insert: "fst ` set (bt_insert k v m) = insert k (fst ` set m)"
  by (induction k v m rule: bt_insert.induct) auto

lemma bt_wf_Nil [simp]: "bt_wf []"
  by (simp add: bt_wf_def)

lemma bt_wf_Cons: "bt_wf ((k, v) # m) \<longleftrightarrow> (\<forall>k' \<in> fst ` set m. k < k') \<and> bt_wf m"
  by (simp add: bt_wf_def)

lemma bt_wf_insert: "bt_wf m \<Longrightarrow> bt_wf (bt_insert k v m)"
  by (induction k v m rule: bt_insert.induct) (auto simp: bt_wf_Cons set_keys_bt_insert)

lemma bt_wf_distinct: "bt_wf m \<Longrightarrow> distinct (map fst m)"
  by (simp add: bt_wf_def strict_sorted_iff)

lemma bt_get_insert_fun: "bt_get (bt_insert k v m) = (bt_get m)(k \<mapsto> v)"
  by (induction k v m rule: bt_insert.induct) (auto simp: bt_get_def fun_eq_iff)

lemma bt_get_Some_set: "bt_wf m \<Longrightarrow> bt_get m k = Some v \<longleftrightarrow> (k, v) \<in> set m"
  by (simp add: bt_get_def bt_wf_distinct)

lemma bt_get_None_iff: "bt_get m k = None \<longleftrightarrow> k \<notin> set (bt_keys m)"
  by (simp add: bt_get_def bt_keys_def map_of_eq_None_iff)

text \<open>
  The interface a client of \<open>BTreeMap\<close> relies on: lookups after insertions, insertions
  one after the other, and the invariant. The clients' lemmas are proved once here.
\<close>

locale ordered_map =
  fixes empty :: 'm
    and insert_entry :: "'k::linorder \<Rightarrow> 'v \<Rightarrow> 'm \<Rightarrow> 'm"
    and get :: "'m \<Rightarrow> 'k \<Rightarrow> 'v option"
    and keys :: "'m \<Rightarrow> 'k list"
    and invar :: "'m \<Rightarrow> bool"
  assumes get_empty: "get empty = (\<lambda>_. None)"
    and invar_empty: "invar empty"
    and get_insert: "invar m \<Longrightarrow> get (insert_entry k v m) = (get m)(k \<mapsto> v)"
    and invar_insert: "invar m \<Longrightarrow> invar (insert_entry k v m)"
    and keys_dom: "invar m \<Longrightarrow> set (keys m) = dom (get m)"
    and keys_sorted: "invar m \<Longrightarrow> sorted_wrt (<) (keys m)"
begin

abbreviation insert_all :: "('k \<times> 'v) list \<Rightarrow> 'm \<Rightarrow> 'm" where
  "insert_all es m \<equiv> fold (\<lambda>(k, v). insert_entry k v) es m"

lemma invar_insert_all: "invar m \<Longrightarrow> invar (insert_all es m)"
  by (induction es arbitrary: m) (auto intro: invar_insert)

text \<open>The last entry inserted under a key is the one read back.\<close>

lemma get_insert_all: "invar m \<Longrightarrow> get (insert_all es m) = get m ++ map_of (rev es)"
proof (induction es arbitrary: m)
  case (Cons e es)
  show ?case
    using Cons.IH [OF invar_insert [OF Cons.prems, of "fst e" "snd e"]] Cons.prems
    by (cases e) (simp add: get_insert map_add_def fun_eq_iff split: option.splits)
qed simp

lemma keys_insert: "invar m \<Longrightarrow> set (keys (insert_entry k v m)) = insert k (set (keys m))"
  by (simp add: keys_dom invar_insert get_insert)

lemma keys_insert_all:
  "invar m \<Longrightarrow> set (keys (insert_all es m)) = set (keys m) \<union> fst ` set es"
proof (induction es arbitrary: m)
  case (Cons e es)
  show ?case
    using Cons.IH [OF invar_insert [OF Cons.prems, of "fst e" "snd e"]]
      keys_insert [OF Cons.prems, of "fst e" "snd e"]
    by (cases e) simp
qed simp

lemma keys_distinct: "invar m \<Longrightarrow> distinct (keys m)"
  using keys_sorted by (simp add: strict_sorted_iff)

text \<open>Two maps with the same contents list the same keys in the same order.\<close>

lemma keys_unique: "invar m \<Longrightarrow> invar m' \<Longrightarrow> get m = get m' \<Longrightarrow> keys m = keys m'"
  by (metis keys_dom keys_sorted strict_sorted_equal)

end

interpretation bt: ordered_map "[]" bt_insert bt_get bt_keys bt_wf
proof
  show "bt_get [] = (\<lambda>_. None)" by (simp add: bt_get_def fun_eq_iff)
  show "bt_get (bt_insert k v m) = (bt_get m)(k \<mapsto> v)" for k v and m :: "('a \<times> 'b) list"
    by (rule bt_get_insert_fun)
  show "set (bt_keys m) = dom (bt_get m)" for m :: "('a \<times> 'b) list"
    by (auto simp: bt_keys_def bt_get_def [abs_def] dom_map_of_conv_image_fst)
  show "bt_wf m \<Longrightarrow> sorted_wrt (<) (bt_keys m)" for m :: "('a \<times> 'b) list"
    by (simp add: bt_keys_def bt_wf_def)
qed (auto simp: bt_wf_insert)

lemmas [btree_simps] = bt.get_insert bt.keys_insert bt_get_insert_fun

lemma bt_wf_extend: "bt_wf m \<Longrightarrow> bt_wf (bt_extend m es)"
  unfolding bt_extend_def by (rule bt.invar_insert_all)

lemma bt_get_extend: "bt_wf m \<Longrightarrow> bt_get (bt_extend m es) = bt_get m ++ map_of (rev es)"
  unfolding bt_extend_def by (rule bt.get_insert_all)

text \<open>A \<open>BTreeSet\<close> under insertion.\<close>

definition bs_insert :: "'k::linorder \<Rightarrow> 'k btree_set \<Rightarrow> 'k btree_set" where
  "bs_insert x s = insort_insert x s"

definition bs_wf :: "'k::linorder btree_set \<Rightarrow> bool" where
  "bs_wf s \<longleftrightarrow> sorted_wrt (<) s"

lemma set_bs_insert [simp]: "set (bs_insert x s) = insert x (set s)"
  by (simp add: bs_insert_def set_insort_insert)

lemma bs_wf_Nil [simp]: "bs_wf []"
  by (simp add: bs_wf_def)

lemma bs_wf_insert: "bs_wf s \<Longrightarrow> bs_wf (bs_insert x s)"
  by (simp add: bs_wf_def bs_insert_def strict_sorted_iff sorted_insort_insert
      distinct_insort_insert)

lemma bs_wf_distinct: "bs_wf s \<Longrightarrow> distinct s"
  by (simp add: bs_wf_def strict_sorted_iff)

lemma bs_wf_fold_insert: "bs_wf s \<Longrightarrow> bs_wf (fold bs_insert xs s)"
  by (induction xs arbitrary: s) (auto intro: bs_wf_insert)

lemma set_fold_bs_insert [simp]: "set (fold bs_insert xs s) = set xs \<union> set s"
  by (induction xs arbitrary: s) auto

end
