(* ===== verification/Rust_Str.thy ===== *)
theory Rust_Str
  imports Prelude
begin

text \<open>
  The operations of \<open>str\<close> and \<open>String\<close> the source uses, on bytes: search, replacement,
  splitting, trimming, ASCII case, decimal numbers. Every pattern the source searches for
  or replaces is a non-empty ASCII literal, so byte positions are character boundaries.
\<close>

unbundle bit_operations_syntax


section \<open>Search\<close>

text \<open>\<open>str::find\<close>: the byte position of the first occurrence.\<close>

fun find_sub :: "string \<Rightarrow> string \<Rightarrow> nat option" where
  "find_sub pat [] = (if pat = [] then Some 0 else None)"
| "find_sub pat (c # cs) =
     (if prefix pat (c # cs) then Some 0 else map_option Suc (find_sub pat cs))"

definition str_contains :: "string \<Rightarrow> string \<Rightarrow> bool" where
  "str_contains s pat \<longleftrightarrow> find_sub pat s \<noteq> None"

definition starts_with :: "string \<Rightarrow> string \<Rightarrow> bool" where
  "starts_with s pat \<longleftrightarrow> prefix pat s"

definition strip_prefix :: "string \<Rightarrow> string \<Rightarrow> string option" where
  "strip_prefix s pat = (if prefix pat s then Some (drop (length pat) s) else None)"

definition strip_suffix :: "string \<Rightarrow> string \<Rightarrow> string option" where
  "strip_suffix s pat =
     (if suffix pat s then Some (take (length s - length pat) s) else None)"

lemma find_sub_Some_split:
  "find_sub pat s = Some i \<Longrightarrow> i + length pat \<le> length s \<and> s = take i s @ pat @ drop (i + length pat) s"
proof (induction pat s arbitrary: i rule: find_sub.induct)
  case (2 pat c cs)
  show ?case
  proof (cases "prefix pat (c # cs)")
    case True
    with "2.prems" have i: "i = 0" by simp
    from True obtain r where r: "c # cs = pat @ r" by (auto simp: prefix_def)
    from i show ?thesis by (simp add: r del: append_take_drop_id)
  next
    case False
    with "2.prems" obtain j where j: "find_sub pat cs = Some j" "i = Suc j" by auto
    from "2.IH" [OF False j(1)] j(2) show ?thesis by simp
  qed
qed (auto split: if_splits)

lemma find_sub_first: "find_sub pat s = Some i \<Longrightarrow> j < i \<Longrightarrow> \<not> prefix pat (drop j s)"
proof (induction pat s arbitrary: i j rule: find_sub.induct)
  case (2 pat c cs)
  then show ?case by (cases j) (auto split: if_splits)
qed (auto split: if_splits)

lemma find_sub_None: "find_sub pat s = None \<longleftrightarrow> \<not> sublist pat s"
  by (induction pat s rule: find_sub.induct) (auto simp: sublist_Cons_right)

lemma str_contains_sublist [str_simps]: "str_contains s pat \<longleftrightarrow> sublist pat s"
  by (simp add: str_contains_def find_sub_None)

lemma str_contains_iff: "str_contains s pat \<longleftrightarrow> (\<exists>us vs. s = us @ pat @ vs)"
  by (simp add: str_contains_sublist sublist_def)

lemma strip_suffix_Some: "strip_suffix s pat = Some r \<longleftrightarrow> s = r @ pat"
  by (auto simp: strip_suffix_def suffix_def)

lemma strip_prefix_Some: "strip_prefix s pat = Some r \<longleftrightarrow> s = pat @ r"
  by (auto simp: strip_prefix_def prefix_def)


section \<open>Replacement\<close>

text \<open>
  \<open>str::replace\<close>: every occurrence, left to right, none overlapping the one before. The
  counter is how many bytes of the occurrence just replaced are still to be skipped.
\<close>

fun replace_from :: "string \<Rightarrow> string \<Rightarrow> nat \<Rightarrow> string \<Rightarrow> string" where
  "replace_from pat to k [] = []"
| "replace_from pat to (Suc k) (c # cs) = replace_from pat to k cs"
| "replace_from pat to 0 (c # cs) =
     (if prefix pat (c # cs) then to @ replace_from pat to (length pat - 1) cs
      else c # replace_from pat to 0 cs)"

definition str_replace :: "string \<Rightarrow> string \<Rightarrow> string \<Rightarrow> string" where
  "str_replace s pat to = replace_from pat to 0 s"

lemma replace_from_skip: "replace_from pat to k s = replace_from pat to 0 (drop k s)"
  by (induction pat to k s rule: replace_from.induct) auto

lemma str_replace_Nil [simp]: "str_replace [] pat to = []"
  by (simp add: str_replace_def)

lemma str_replace_absent: "\<not> str_contains s pat \<Longrightarrow> str_replace s pat to = s"
  unfolding str_replace_def str_contains_sublist
  by (induction s) (auto simp: sublist_Cons_right)

lemma str_replace_at:
  assumes "pat \<noteq> []"
  shows "str_replace (pat @ r) pat to = to @ str_replace r pat to"
proof -
  from assms obtain p ps where p: "pat = p # ps" by (cases pat) auto
  show ?thesis
    by (simp add: str_replace_def p replace_from_skip [of _ _ "length ps"])
qed

lemma str_replace_step:
  "\<not> prefix pat (c # cs) \<Longrightarrow> str_replace (c # cs) pat to = c # str_replace cs pat to"
  by (simp add: str_replace_def)


section \<open>Splitting, joining, trimming\<close>

fun split_once :: "char \<Rightarrow> string \<Rightarrow> (string \<times> string) option" where
  "split_once d [] = None"
| "split_once d (c # cs) =
     (if c = d then Some ([], cs)
      else map_option (\<lambda>(a, b). (c # a, b)) (split_once d cs))"

fun split_char :: "char \<Rightarrow> string \<Rightarrow> string list" where
  "split_char d [] = [[]]"
| "split_char d (c # cs) =
     (if c = d then [] # split_char d cs
      else case split_char d cs of [] \<Rightarrow> [[c]] | w # ws \<Rightarrow> (c # w) # ws)"

definition join_with :: "string \<Rightarrow> string list \<Rightarrow> string" where
  "join_with sep ws = concat (case ws of [] \<Rightarrow> [] | v # vs \<Rightarrow> v # map (\<lambda>x. sep @ x) vs)"

lemma split_once_Some: "split_once d s = Some (a, b) \<longleftrightarrow> s = a @ d # b \<and> d \<notin> set a"
proof (induction d s arbitrary: a b rule: split_once.induct)
  case (2 d c cs)
  then show ?case by (cases a) (auto split: if_splits)
qed simp

lemma split_once_None: "split_once d s = None \<longleftrightarrow> d \<notin> set s"
  by (induction d s rule: split_once.induct) auto

lemma split_char_not_Nil [simp]: "split_char d s \<noteq> []"
  by (induction d s rule: split_char.induct) (auto split: list.splits)

lemma join_with_simps [simp]:
  "join_with sep [] = []"
  "join_with sep [w] = w"
  "join_with sep (v # w # ws) = v @ sep @ join_with sep (w # ws)"
  by (simp_all add: join_with_def)

lemma join_split_char: "join_with [d] (split_char d s) = s"
proof (induction d s rule: split_char.induct)
  case (2 d c cs)
  obtain w ws where w: "split_char d cs = w # ws"
    by (metis split_char_not_Nil neq_Nil_conv)
  show ?case
    using 2 by (cases ws) (auto simp: w)
qed simp

lemma split_char_no_sep: "w \<in> set (split_char d s) \<Longrightarrow> d \<notin> set w"
proof (induction d s arbitrary: w rule: split_char.induct)
  case (2 d c cs)
  obtain v vs where "split_char d cs = v # vs"
    by (metis split_char_not_Nil neq_Nil_conv)
  with 2 show ?case by (auto split: if_splits)
qed simp

lemma split_char_join:
  "ws \<noteq> [] \<Longrightarrow> (\<And>w. w \<in> set ws \<Longrightarrow> d \<notin> set w) \<Longrightarrow> split_char d (join_with [d] ws) = ws"
proof (induction ws)
  case (Cons w ws)
  have app: "d \<notin> set u \<Longrightarrow> split_char d (u @ d # r) = u # split_char d r" for u r
    by (induction u) auto
  have one: "d \<notin> set u \<Longrightarrow> split_char d u = [u]" for u
    by (induction u) auto
  show ?case
    using Cons by (cases ws) (auto simp: app one)
qed simp

text \<open>\<open>char::is_ascii_whitespace\<close>: space, tab, line feed, form feed, carriage return.\<close>

definition is_ascii_whitespace :: "char \<Rightarrow> bool" where
  "is_ascii_whitespace c \<longleftrightarrow> c \<in> {CHR '' '', CHR 0x09, CHR 0x0A, CHR 0x0C, CHR 0x0D}"

definition is_ascii_digit :: "char \<Rightarrow> bool" where
  "is_ascii_digit c \<longleftrightarrow> 48 \<le> (of_char c :: nat) \<and> (of_char c :: nat) \<le> 57"

definition is_ascii_lowercase :: "char \<Rightarrow> bool" where
  "is_ascii_lowercase c \<longleftrightarrow> 97 \<le> (of_char c :: nat) \<and> (of_char c :: nat) \<le> 122"

definition is_ascii_uppercase :: "char \<Rightarrow> bool" where
  "is_ascii_uppercase c \<longleftrightarrow> 65 \<le> (of_char c :: nat) \<and> (of_char c :: nat) \<le> 90"

definition to_ascii_lowercase :: "char \<Rightarrow> char" where
  "to_ascii_lowercase c = (if is_ascii_uppercase c then char_of ((of_char c :: nat) + 32) else c)"

definition to_ascii_uppercase :: "char \<Rightarrow> char" where
  "to_ascii_uppercase c = (if is_ascii_lowercase c then char_of ((of_char c :: nat) - 32) else c)"


text \<open>
  \<open>str::trim\<close> drops the characters with the Unicode property \<open>White_Space\<close> at both ends.
  These are their UTF-8 encodings.
\<close>

definition white_space :: "string list" where
  "white_space =
     [[CHR 0x09], [CHR 0x0A], [CHR 0x0B], [CHR 0x0C], [CHR 0x0D], [CHR 0x20],
      [CHR 0xC2, CHR 0x85], [CHR 0xC2, CHR 0xA0], [CHR 0xE1, CHR 0x9A, CHR 0x80],
      [CHR 0xE2, CHR 0x80, CHR 0x80], [CHR 0xE2, CHR 0x80, CHR 0x81],
      [CHR 0xE2, CHR 0x80, CHR 0x82], [CHR 0xE2, CHR 0x80, CHR 0x83],
      [CHR 0xE2, CHR 0x80, CHR 0x84], [CHR 0xE2, CHR 0x80, CHR 0x85],
      [CHR 0xE2, CHR 0x80, CHR 0x86], [CHR 0xE2, CHR 0x80, CHR 0x87],
      [CHR 0xE2, CHR 0x80, CHR 0x88], [CHR 0xE2, CHR 0x80, CHR 0x89],
      [CHR 0xE2, CHR 0x80, CHR 0x8A], [CHR 0xE2, CHR 0x80, CHR 0xA8],
      [CHR 0xE2, CHR 0x80, CHR 0xA9], [CHR 0xE2, CHR 0x80, CHR 0xAF],
      [CHR 0xE2, CHR 0x81, CHR 0x9F], [CHR 0xE3, CHR 0x80, CHR 0x80]]"

lemma white_space_not_Nil: "w \<in> set white_space \<Longrightarrow> w \<noteq> []"
  by (auto simp: white_space_def)

function trim_start :: "string \<Rightarrow> string" where
  "trim_start s =
     (case find (\<lambda>w. prefix w s) white_space of
        None \<Rightarrow> s
      | Some w \<Rightarrow> trim_start (drop (length w) s))"
  by pat_completeness auto
termination
proof (relation "measure length")
  fix s w assume "find (\<lambda>w. prefix w s) white_space = Some w"
  then have "w \<in> set white_space" "prefix w s" by (auto simp: find_Some_iff)
  then have "w \<noteq> []" "length w \<le> length s"
    by (auto simp: white_space_not_Nil prefix_length_le)
  then show "(drop (length w) s, s) \<in> measure length" by (cases w) auto
qed simp

function trim_end :: "string \<Rightarrow> string" where
  "trim_end s =
     (case find (\<lambda>w. suffix w s) white_space of
        None \<Rightarrow> s
      | Some w \<Rightarrow> trim_end (take (length s - length w) s))"
  by pat_completeness auto
termination
proof (relation "measure length")
  fix s w assume "find (\<lambda>w. suffix w s) white_space = Some w"
  then have "w \<in> set white_space" "suffix w s" by (auto simp: find_Some_iff)
  then have "w \<noteq> []" "length w \<le> length s"
    by (auto simp: white_space_not_Nil suffix_length_le)
  then show "(take (length s - length w) s, s) \<in> measure length" by (cases w) auto
qed simp

declare trim_start.simps [simp del] trim_end.simps [simp del]

definition trim :: "string \<Rightarrow> string" where
  "trim s = trim_end (trim_start s)"

text \<open>A text that starts and ends with a visible ASCII character is not changed.\<close>

definition visible :: "char \<Rightarrow> bool" where
  "visible c \<longleftrightarrow> 32 < (of_char c :: nat) \<and> (of_char c :: nat) < 127"

lemma white_space_first: "w \<in> set white_space \<Longrightarrow> \<not> visible (hd w)"
  by (auto simp: white_space_def visible_def)

lemma white_space_last: "w \<in> set white_space \<Longrightarrow> \<not> visible (last w)"
  by (auto simp: white_space_def visible_def)

lemma trim_start_visible: "visible c \<Longrightarrow> trim_start (c # s) = c # s"
proof -
  assume c: "visible c"
  have "\<not> prefix w (c # s)" if "w \<in> set white_space" for w
    using white_space_first [OF that] white_space_not_Nil [OF that] c
    by (cases w) auto
  then have "find (\<lambda>w. prefix w (c # s)) white_space = None"
    by (simp add: find_None_iff)
  then show ?thesis by (subst trim_start.simps) simp
qed

lemma trim_end_visible: "visible c \<Longrightarrow> trim_end (s @ [c]) = s @ [c]"
proof -
  assume c: "visible c"
  have "\<not> suffix w (s @ [c])" if "w \<in> set white_space" for w
    using white_space_last [OF that] white_space_not_Nil [OF that] c
    by (cases w rule: rev_cases) auto
  then have "find (\<lambda>w. suffix w (s @ [c])) white_space = None"
    by (simp add: find_None_iff)
  then show ?thesis by (subst trim_end.simps) simp
qed

lemma trim_visible: "s \<noteq> [] \<Longrightarrow> visible (hd s) \<Longrightarrow> visible (last s) \<Longrightarrow> trim s = s"
proof -
  assume s: "s \<noteq> []" "visible (hd s)" "visible (last s)"
  from s(1,2) have "trim_start s = s" by (cases s) (auto simp: trim_start_visible)
  moreover from s(1,3) have "trim_end s = s"
    by (metis append_butlast_last_id trim_end_visible)
  ultimately show ?thesis by (simp add: trim_def)
qed


section \<open>Chunks\<close>

text \<open>\<open>slice::chunks\<close>: pieces of one length, the last one shorter.\<close>

function chunks :: "nat \<Rightarrow> 'a list \<Rightarrow> 'a list list" where
  "chunks n xs = (if n = 0 \<or> xs = [] then [] else take n xs # chunks n (drop n xs))"
  by pat_completeness auto
termination
  by (relation "measure (length \<circ> snd)") auto

declare chunks.simps [simp del]

lemma concat_chunks: "0 < n \<Longrightarrow> concat (chunks n xs) = xs"
proof (induction n xs rule: chunks.induct)
  case (1 n xs)
  then show ?case by (cases "xs = []") (simp_all add: chunks.simps [of n xs] chunks.simps [of n "[]"])
qed


section \<open>Decimal numbers\<close>

text \<open>\<open>to_string\<close> of an unsigned number.\<close>

definition digit_char :: "nat \<Rightarrow> char" where
  "digit_char d = char_of (48 + d)"

fun show_nat :: "nat \<Rightarrow> string" where
  "show_nat n = (if n < 10 then [digit_char n] else show_nat (n div 10) @ [digit_char (n mod 10)])"

declare show_nat.simps [simp del]

text \<open>
  \<open>parse\<close> of an unsigned number below the bound of its type: an optional \<open>+\<close>, then at
  least one digit, nothing else.
\<close>

definition digit_value :: "char \<Rightarrow> nat" where
  "digit_value c = (of_char c :: nat) - 48"

definition digits_value :: "string \<Rightarrow> nat" where
  "digits_value s = foldl (\<lambda>n c. 10 * n + digit_value c) 0 s"

definition parse_digits :: "string \<Rightarrow> nat option" where
  "parse_digits s = (if s \<noteq> [] \<and> list_all is_ascii_digit s then Some (digits_value s) else None)"

definition parse_below :: "nat \<Rightarrow> string \<Rightarrow> nat option" where
  "parse_below bound s =
     (case parse_digits (case s of c # cs \<Rightarrow> if c = CHR ''+'' then cs else s | [] \<Rightarrow> []) of
        None \<Rightarrow> None | Some n \<Rightarrow> if n < bound then Some n else None)"

lemma of_char_digit_char: "d < 10 \<Longrightarrow> (of_char (digit_char d) :: nat) = 48 + d"
  by (simp add: digit_char_def)

lemma digit_char_props:
  assumes "d < 10"
  shows "is_ascii_digit (digit_char d)" "digit_value (digit_char d) = d"
  using of_char_digit_char [OF assms] assms by (simp_all add: is_ascii_digit_def digit_value_def)

lemma show_nat_not_Nil [simp]: "show_nat n \<noteq> []"
  by (subst show_nat.simps) simp

lemma show_nat_digits: "list_all is_ascii_digit (show_nat n)"
proof (induction n rule: show_nat.induct)
  case (1 n)
  then show ?case by (subst show_nat.simps) (simp add: digit_char_props)
qed

lemma digits_value_snoc: "digits_value (s @ [c]) = 10 * digits_value s + digit_value c"
  by (simp add: digits_value_def)

lemma digits_value_show_nat: "digits_value (show_nat n) = n"
proof (induction n rule: show_nat.induct)
  case (1 n)
  show ?case
  proof (cases "n < 10")
    case True
    then show ?thesis
      by (subst show_nat.simps) (simp add: digits_value_def digit_char_props)
  next
    case False
    with 1 have "digits_value (show_nat (n div 10)) = n div 10" by simp
    with False show ?thesis
      by (subst show_nat.simps) (simp add: digits_value_snoc digit_char_props)
  qed
qed

lemma parse_digits_show_nat [simp]: "parse_digits (show_nat n) = Some n"
  by (simp add: parse_digits_def show_nat_digits digits_value_show_nat)

lemma parse_below_show_nat: "n < bound \<Longrightarrow> parse_below bound (show_nat n) = Some n"
proof -
  assume "n < bound"
  moreover obtain c cs where s: "show_nat n = c # cs"
    using show_nat_not_Nil by (metis neq_Nil_conv)
  moreover have "c \<noteq> CHR ''+''"
    using show_nat_digits [of n] by (auto simp: s is_ascii_digit_def)
  ultimately show ?thesis
    using parse_digits_show_nat [of n] by (simp add: parse_below_def)
qed

lemma show_nat_inject [simp]: "show_nat m = show_nat n \<longleftrightarrow> m = n"
  by (metis digits_value_show_nat)


section \<open>Characters of texts\<close>

definition quote_mark :: string where
  "quote_mark = [CHR 0x22]"

definition em_dash :: string where
  "em_dash = [CHR 0xE2, CHR 0x80, CHR 0x94]"

definition check_mark :: string where
  "check_mark = [CHR 0xE2, CHR 0x9C, CHR 0x93]"

definition warning_sign :: string where
  "warning_sign = [CHR 0xE2, CHR 0x9A, CHR 0xA0, CHR 0xEF, CHR 0xB8, CHR 0x8F]"

text \<open>\<open>trim_end_matches\<close> of one character, and \<open>split_once\<close> of a text.\<close>

definition trim_end_char :: "char \<Rightarrow> string \<Rightarrow> string" where
  "trim_end_char c s = rev (dropWhile (\<lambda>x. x = c) (rev s))"

definition split_once_str :: "string \<Rightarrow> string \<Rightarrow> (string \<times> string) option" where
  "split_once_str pat s = map_option (\<lambda>i. (take i s, drop (i + length pat) s)) (find_sub pat s)"

end
