(* ===== verification/Capability.thy ===== *)
theory Capability
  imports Rust_Str
begin

text \<open>
  The needs an app declares (\<open>crates/hlb-types/src/capability.rs\<close>): the capability type, the
  platform service that satisfies each capability, and the connection budget a database
  role is given.
\<close>

section \<open>Data\<close>

datatype db_engine = Postgres | Mariadb

datatype cache_engine = Valkey

datatype smtp_sender = SenderApp | SenderPerson

datatype sso_mode = SsoNative | SsoProxyHeader | SsoProxyOnly | SsoNone

datatype storage_tier = TierLocal | TierNfs

datatype volume_copy = CopyLive | CopyStopped | CopyPgBasebackup | CopyMariadbBackup

datatype (plugins only: code) capability =
    Database (db_engine_of: db_engine) (db_name: "string option")
      (db_extensions: "string list") (db_connections: "u32 option")
  | Cache (cache_engine_of: cache_engine) (cache_dedicated: bool)
  | Sso (sso_mode_of: sso_mode) (sso_redirect_paths: "string list")
  | ObjectStorage (os_bucket: "string option") (os_backup: bool) (os_expire: "u32 option")
  | Smtp (smtp_sender_of: smtp_sender)
  | MailAccount (mail_quota: "u64 option") (mail_aliases: bool)
  | Storage (st_name: string) (st_path: string) (st_tier: storage_tier) (st_backup: bool)
      (st_sqlite: bool) (st_copy: volume_copy) (st_owner: "string option")


section \<open>Operations\<close>

definition PORTAL_SERVICE :: string where
  "PORTAL_SERVICE = ''oauth2-proxy''"

definition s3_key_secrets :: "string \<Rightarrow> string \<times> string" where
  "s3_key_secrets app = (app @ ''-s3-key-id'', app @ ''-s3-secret'')"

definition bucket_name :: "string option \<Rightarrow> string \<Rightarrow> string" where
  "bucket_name bucket app = (case bucket of Some b \<Rightarrow> b | None \<Rightarrow> app)"

fun db_service_name :: "db_engine \<Rightarrow> string" where
  "db_service_name Postgres = ''postgres''"
| "db_service_name Mariadb = ''mariadb''"

fun limit_arg :: "db_engine \<Rightarrow> string" where
  "limit_arg Postgres = ''max_connections=''"
| "limit_arg Mariadb = ''--max-connections=''"

fun kept_for_the_administrator :: "db_engine \<Rightarrow> u32" where
  "kept_for_the_administrator Postgres = 3"
| "kept_for_the_administrator Mariadb = 0"

fun cache_service_name :: "cache_engine \<Rightarrow> string" where
  "cache_service_name Valkey = ''valkey''"

fun requires_network_isolation :: "sso_mode \<Rightarrow> bool" where
  "requires_network_isolation SsoProxyHeader = True"
| "requires_network_isolation _ = False"

definition copy_is_live :: "volume_copy \<Rightarrow> bool" where
  "copy_is_live c \<longleftrightarrow> c = CopyLive"

fun copy_engine :: "volume_copy \<Rightarrow> db_engine option" where
  "copy_engine CopyLive = None"
| "copy_engine CopyStopped = None"
| "copy_engine CopyPgBasebackup = Some Postgres"
| "copy_engine CopyMariadbBackup = Some Mariadb"

fun capability_id :: "capability \<Rightarrow> string" where
  "capability_id (Database _ _ _ _) = ''database''"
| "capability_id (Cache _ _) = ''cache''"
| "capability_id (Sso _ _) = ''sso''"
| "capability_id (Smtp _) = ''smtp''"
| "capability_id (MailAccount _ _) = ''mail-account''"
| "capability_id (Storage _ _ _ _ _ _ _) = ''storage''"
| "capability_id (ObjectStorage _ _ _) = ''object-storage''"

fun platform_service :: "capability \<Rightarrow> string option" where
  "platform_service (Database engine _ _ _) = Some (db_service_name engine)"
| "platform_service (Cache engine _) = Some (cache_service_name engine)"
| "platform_service (Sso mode _) =
     (case mode of
        SsoNative \<Rightarrow> Some ''pocket-id''
      | SsoProxyOnly \<Rightarrow> Some PORTAL_SERVICE
      | SsoProxyHeader \<Rightarrow> Some PORTAL_SERVICE
      | SsoNone \<Rightarrow> None)"
| "platform_service (Smtp _) = Some ''stalwart''"
| "platform_service (MailAccount _ _) = Some ''stalwart''"
| "platform_service (ObjectStorage _ _ _) = Some ''garage''"
| "platform_service (Storage _ _ _ _ _ _ _) = None"

text \<open>The app whose volume a \<open>Storage\<close> capability mounts, when it is another's.\<close>

fun storage_owner :: "capability \<Rightarrow> string option" where
  "storage_owner (Storage _ _ _ _ _ _ owner) = owner"
| "storage_owner _ = None"


section \<open>The connection budget\<close>

text \<open>\<open>u32::saturating_add\<close> and \<open>u32::saturating_mul\<close>.\<close>

definition sat_add :: "'a::len word \<Rightarrow> 'a word \<Rightarrow> 'a word" where
  "sat_add a b = (if unat a + unat b < 2 ^ LENGTH('a) then a + b else - 1)"

definition sat_mul :: "'a::len word \<Rightarrow> 'a word \<Rightarrow> 'a word" where
  "sat_mul a b = (if unat a * unat b < 2 ^ LENGTH('a) then a * b else - 1)"

lemma unat_max_word: "unat (- 1 :: 'a::len word) = 2 ^ LENGTH('a) - 1"
proof -
  have "uint (- 1 :: 'a word) = 2 ^ LENGTH('a) - 1"
    by (simp add: uint_word_ariths zmod_minus1)
  then show ?thesis
    by (simp add: unat_eq_nat_uint nat_diff_distrib nat_power_eq)
qed

lemma unat_sat_add:
  "unat (sat_add a (b :: 'a::len word)) = min (unat a + unat b) (2 ^ LENGTH('a) - 1)"
  by (auto simp: sat_add_def unat_word_ariths unat_max_word min_def)

lemma unat_sat_mul:
  "unat (sat_mul a (b :: 'a::len word)) = min (unat a * unat b) (2 ^ LENGTH('a) - 1)"
proof (cases "unat a * unat b < 2 ^ LENGTH('a)")
  case True
  then have "unat a * unat b \<le> 2 ^ LENGTH('a) - 1" by linarith
  with True show ?thesis by (simp add: sat_mul_def unat_word_ariths min_absorb1)
next
  case False
  then have "2 ^ LENGTH('a) - 1 < unat a * unat b"
    using zero_less_power [of "2::nat" "LENGTH('a)"] by linarith
  with False show ?thesis by (simp add: sat_mul_def unat_max_word min_def)
qed

text \<open>The loop of \<open>role_connection_limit\<close>, and its early return on a missing declaration.\<close>

fun limit_loop :: "db_engine \<Rightarrow> capability list \<Rightarrow> u32 \<Rightarrow> bool \<Rightarrow> (u32 \<times> bool) option" where
  "limit_loop on [] acc any = Some (acc, any)"
| "limit_loop on (Database engine n x connections # cs) acc any =
     (if engine = on
      then (case connections of
              None \<Rightarrow> None
            | Some k \<Rightarrow> limit_loop on cs (sat_add acc k) True)
      else limit_loop on cs acc any)"
| "limit_loop on (c # cs) acc any = limit_loop on cs acc any"

definition role_connection_limit :: "capability list \<Rightarrow> db_engine \<Rightarrow> u32 option" where
  "role_connection_limit requires on =
     (case limit_loop on requires 0 False of
        None \<Rightarrow> None
      | Some (acc, any) \<Rightarrow> if any then Some (sat_mul acc 2) else None)"

text \<open>The declarations that count: those of the app's databases on the engine.\<close>

fun declared_on :: "db_engine \<Rightarrow> capability list \<Rightarrow> u32 option list" where
  "declared_on on [] = []"
| "declared_on on (Database engine n x connections # cs) =
     (if engine = on then connections # declared_on on cs else declared_on on cs)"
| "declared_on on (c # cs) = declared_on on cs"

lemma declared_on_append: "declared_on on (xs @ ys) = declared_on on xs @ declared_on on ys"
  by (induction on xs rule: declared_on.induct) auto

lemma limit_loop_None:
  "limit_loop on cs acc any = None \<longleftrightarrow> None \<in> set (declared_on on cs)"
  by (induction on cs acc any rule: limit_loop.induct) (auto split: option.splits)

lemma limit_loop_Some:
  assumes "limit_loop on cs acc any = Some (s, a)"
  shows "unat s = min (unat acc + (\<Sum>k \<leftarrow> declared_on on cs. unat (the k))) (2 ^ 32 - 1)
    \<and> (a \<longleftrightarrow> any \<or> declared_on on cs \<noteq> [])"
  using assms
proof (induction on cs acc any rule: limit_loop.induct)
  case (1 on acc any)
  have "unat acc < 2 ^ 32" using unsigned_less [of acc] by simp
  with 1 show ?case by auto
next
  case (2 on engine n x connections cs acc any)
  show ?case
  proof (cases "engine = on")
    case True
    with "2.prems" obtain k where k: "connections = Some k" "limit_loop on cs (sat_add acc k) True = Some (s, a)"
      by (auto split: option.splits)
    from "2.IH"(1) [OF True k] show ?thesis
      by (auto simp: True k(1) unat_sat_add min_def)
  next
    case False
    with 2 show ?thesis by simp
  qed
qed auto

end
