(* ===== verification/Guide.thy ===== *)
theory Guide
  imports Rust_Str
begin

text \<open>
  The manual and automatable steps an app declares (\<open>crates/hlb-types/src/guide.rs\<close>): the
  step type and its automations, the phases, the re-check period and the template
  rendering. Serialisation attributes are not modelled.
\<close>

section \<open>Data\<close>

datatype phase =
  PreInstall | PostInstall | FirstLogin | Maintenance | PostUpgrade | PostRestore

datatype severity = Blocking | Required | Recommended | Tip

record api_call =
  call_verb :: string
  call_path :: string
  call_body :: "string option"
  call_merge :: bool

record api_probe =
  probe_path :: string
  probe_pointer :: string
  probe_equals :: string

record json_value =
  json_pointer :: string
  json_equals :: string

datatype automation =
    AutoEnv (auto_vars: "(string, string) btree_map")
  | AutoExec (auto_command: "string list") (auto_service: "string option")
      (auto_exec_probe: "string list option") (auto_probe_matches: "string option")
  | AutoApi (auto_port: "u16 option") (auto_sign_in: "string option")
      (auto_headers: "(string, string) btree_map") (auto_api_probe: "api_probe option")
      (auto_calls: "api_call list")
  | AutoSql (auto_statement: string) (auto_params: "string list") (auto_sql_probe: string)
      (auto_restart: bool)

datatype verify =
    Attest
  | VerifyDns string "string option"
  | VerifyHttp string "u16 list" "json_value option"
  | VerifyTcp string
  | VerifyExec "string list" "string option"

record guide_step =
  step_id :: string
  step_title :: string
  step_phase :: phase
  step_severity :: severity
  step_body :: string
  step_after :: "string list"
  step_automate :: "automation list"
  step_verify :: verify
  step_deeplink :: "string option"
  step_recheck :: "string option"

record guide =
  steps :: "guide_step list"


section \<open>Operations\<close>

fun at_install :: "phase \<Rightarrow> bool" where
  "at_install PostRestore = False"
| "at_install _ = True"

definition is_blocking :: "guide_step \<Rightarrow> bool" where
  "is_blocking s \<longleftrightarrow> step_severity s = Blocking"

definition is_automatable :: "guide_step \<Rightarrow> bool" where
  "is_automatable s \<longleftrightarrow> step_automate s \<noteq> []"

definition is_automatic :: "verify \<Rightarrow> bool" where
  "is_automatic v \<longleftrightarrow> v \<noteq> Attest"

fun verify_kind :: "verify \<Rightarrow> string" where
  "verify_kind Attest = ''attest''"
| "verify_kind (VerifyDns _ _) = ''dns''"
| "verify_kind (VerifyHttp _ _ _) = ''http''"
| "verify_kind (VerifyTcp _) = ''tcp''"
| "verify_kind (VerifyExec _ _) = ''exec''"

text \<open>
  \<open>recheck\<close> in seconds: \<open>parse::<i64>\<close> reads an optional sign and decimal digits. The
  refusal carries the text refused; its wording is not modelled.
\<close>

definition I64_MAX :: int where
  "I64_MAX = 2 ^ 63 - 1"

definition in_i64 :: "int \<Rightarrow> bool" where
  "in_i64 n \<longleftrightarrow> - (2 ^ 63) \<le> n \<and> n \<le> I64_MAX"

definition parse_i64 :: "string \<Rightarrow> int option" where
  "parse_i64 s =
     (let (negative, digits) =
        (case s of
           c # cs \<Rightarrow> if c = CHR ''-'' then (True, cs) else if c = CHR ''+'' then (False, cs) else (False, s)
         | [] \<Rightarrow> (False, []))
      in case parse_digits digits of
           None \<Rightarrow> None
         | Some n \<Rightarrow> let v = (if negative then - int n else int n) in
             if in_i64 v then Some v else None)"

definition MIN_RECHECK_S :: int where
  "MIN_RECHECK_S = 86400"

definition recheck_unit :: "string \<Rightarrow> int option" where
  "recheck_unit r =
     (if r = [] then None
      else if last r = CHR ''h'' then Some 3600
      else if last r = CHR ''d'' then Some 86400
      else None)"

definition recheck_secs :: "guide_step \<Rightarrow> string + int option" where
  "recheck_secs s =
     (case step_recheck s of
        None \<Rightarrow> Inr None
      | Some r0 \<Rightarrow>
          (let r = trim r0 in
           case recheck_unit r of
             None \<Rightarrow> Inl r
           | Some unit \<Rightarrow>
               (case parse_i64 (butlast r) of
                  None \<Rightarrow> Inl r
                | Some n \<Rightarrow>
                    if in_i64 (n * unit) \<and> 0 \<le> n * unit then Inr (Some (n * unit)) else Inl r)))"

text \<open>The templates of a guide text: each variable spaced, then not.\<close>

definition spaced :: "string \<Rightarrow> string" where
  "spaced k = ''{{ '' @ k @ '' }}''"

definition unspaced :: "string \<Rightarrow> string" where
  "unspaced k = ''{{'' @ k @ ''}}''"

definition render :: "string \<Rightarrow> (string \<times> string) list \<Rightarrow> string" where
  "render template vars =
     fold (\<lambda>(k, v) out. str_replace (str_replace out (spaced k) v) (unspaced k) v) vars template"

lemma at_install_iff: "at_install p \<longleftrightarrow> p \<noteq> PostRestore"
  by (cases p) auto

lemma render_Nil [simp]: "render t [] = t"
  by (simp add: render_def)

text \<open>A text with no opening braces is left as it is.\<close>

lemma render_no_braces: "\<not> str_contains t ''{{'' \<Longrightarrow> render t vars = t"
proof (induction vars)
  case (Cons kv vars)
  obtain k v where kv: "kv = (k, v)" by force
  have sub: "sublist ''{{'' (spaced k)" "sublist ''{{'' (unspaced k)"
    unfolding spaced_def unspaced_def
    by (rule prefix_imp_sublist, simp)+
  with Cons.prems have "\<not> str_contains t (spaced k)" "\<not> str_contains t (unspaced k)"
    by (meson str_contains_sublist sublist_order.order.trans)+
  then show ?case using Cons by (simp add: kv render_def str_replace_absent)
qed simp

text \<open>A period read from \<open>recheck\<close> is a whole number of hours, never negative.\<close>

lemma recheck_secs_sound:
  assumes "recheck_secs s = Inr (Some n)"
  shows "0 \<le> n" and "3600 dvd n" and "n \<le> I64_MAX"
  using assms
  by (auto simp: recheck_secs_def Let_def recheck_unit_def in_i64_def
      split: option.splits if_splits)

end
