(* ===== verification/Rbac.thy ===== *)
theory Rbac
  imports Rust_Str
begin

text \<open>
  The four permission levels and the action matrix (\<open>crates/hlb-types/src/rbac.rs\<close>). The
  derived order of the Rust enum is the \<open>linorder\<close> instance, so that comparisons and
  maxima are the library's.
\<close>

datatype role = User | Viewer | Operator | Admin

datatype rbac_action =
  ReadSelf | ActOnSelf | Read | Publish | Operate | ManageAccounts | Destroy

fun role_rank :: "role \<Rightarrow> nat" where
  "role_rank User = 0"
| "role_rank Viewer = 1"
| "role_rank Operator = 2"
| "role_rank Admin = 3"

lemma role_rank_inject [simp]: "role_rank a = role_rank b \<longleftrightarrow> a = b"
  by (cases a; cases b) simp_all

instantiation role :: linorder
begin

definition less_eq_role :: "role \<Rightarrow> role \<Rightarrow> bool" where
  "less_eq_role a b \<longleftrightarrow> role_rank a \<le> role_rank b"

definition less_role :: "role \<Rightarrow> role \<Rightarrow> bool" where
  "less_role a b \<longleftrightarrow> role_rank a < role_rank b"

instance
  by standard (auto simp: less_eq_role_def less_role_def)

end

lemma User_least [simp]: "User \<le> r"
  by (simp add: less_eq_role_def)

lemma Admin_greatest [simp]: "r \<le> Admin"
  by (cases r) (simp_all add: less_eq_role_def)

fun minimum_role :: "rbac_action \<Rightarrow> role" where
  "minimum_role ReadSelf = User"
| "minimum_role ActOnSelf = User"
| "minimum_role Read = Viewer"
| "minimum_role Operate = Operator"
| "minimum_role Publish = Operator"
| "minimum_role ManageAccounts = Admin"
| "minimum_role Destroy = Admin"

fun action_name :: "rbac_action \<Rightarrow> string" where
  "action_name ReadSelf = ''read-self''"
| "action_name ActOnSelf = ''act-on-self''"
| "action_name Read = ''read''"
| "action_name Publish = ''publish''"
| "action_name Operate = ''operate''"
| "action_name ManageAccounts = ''manage-accounts''"
| "action_name Destroy = ''destroy''"

fun action_describe :: "rbac_action \<Rightarrow> string" where
  "action_describe ReadSelf = ''view your own account''"
| "action_describe ActOnSelf = ''change your own account''"
| "action_describe Read = ''view the state of the system''"
| "action_describe Publish = ''publish an announcement''"
| "action_describe Operate = ''act on the system''"
| "action_describe ManageAccounts = ''manage accounts and rights''"
| "action_describe Destroy = ''destroy, or restore into production''"

text \<open>
  \<open>to_lowercase\<close> of the whole text maps Unicode letters too; none outside ASCII has a
  lower case spelled with the letters of a role's name, so lowering the ASCII ones decides
  every comparison the same way.
\<close>

definition role_parse :: "string \<Rightarrow> role option" where
  "role_parse s =
     (let t = map to_ascii_lowercase (trim s) in
      if t = ''user'' \<or> t = ''utilisateur'' then Some User
      else if t = ''viewer'' \<or> t = ''lecteur'' then Some Viewer
      else if t = ''operator'' \<or> t = ''operateur'' then Some Operator
      else if t = ''admin'' \<or> t = ''administrateur'' then Some Admin
      else None)"

fun role_as_str :: "role \<Rightarrow> string" where
  "role_as_str User = ''user''"
| "role_as_str Viewer = ''viewer''"
| "role_as_str Operator = ''operator''"
| "role_as_str Admin = ''admin''"

fun role_describe :: "role \<Rightarrow> string" where
  "role_describe User = ''their account, their mailbox, their aliases''"
| "role_describe Viewer = ''see everything, change nothing''"
| "role_describe Operator = ''install, update, back up, publish''"
| "role_describe Admin = ''everything, including destroying and granting rights''"

definition allows :: "role \<Rightarrow> rbac_action \<Rightarrow> bool" where
  "allows r a \<longleftrightarrow> minimum_role a \<le> r"

definition role_refusal :: "role \<Rightarrow> rbac_action \<Rightarrow> string option" where
  "role_refusal r a =
     (if allows r a then None
      else Some (action_describe a @ '' requires the \"'' @ role_as_str (minimum_role a) @
        ''\" role; yours is \"'' @ role_as_str r @
        ''\". An administrator can grant it to you.''))"

definition max_role :: "role list \<Rightarrow> role option" where
  "max_role rs = (if rs = [] then None else Some (Max (set rs)))"

definition from_groups :: "string list \<Rightarrow> (string \<times> role) list \<Rightarrow> role" where
  "from_groups groups mapping =
     (case max_role (List.map_filter
              (\<lambda>g. map_option snd (find (\<lambda>(name, _). name = g) mapping)) groups) of
        None \<Rightarrow> User | Some r \<Rightarrow> r)"

definition all_roles :: "role list" where
  "all_roles = [User, Viewer, Operator, Admin]"

definition needs_confirmation :: "string \<Rightarrow> bool" where
  "needs_confirmation a \<longleftrightarrow>
     a \<in> {''purge'', ''restore-production'', ''node-remove'', ''secrets-rekey'', ''cluster-destroy''}"

lemma allows_mono: "r \<le> r' \<Longrightarrow> allows r a \<Longrightarrow> allows r' a"
  by (simp add: allows_def)

lemma find_mapping:
  "map_option snd (find (\<lambda>(name, _). name = g) mapping) = map_of mapping g"
  by (induction mapping) auto

end
