(* ===== verification/Access.thy ===== *)
theory Access
  imports Rbac
begin

text \<open>
  Who may sign in to an app and what it is told of them, as a manifest declares it
  (\<open>crates/hlb-types/src/access.rs\<close>): the groups of the roles, the claims, the quotas, and
  the template filling shared by both.
\<close>

section \<open>Data\<close>

text \<open>
  A JSON value, with a number as the text it is written with and an object's members in
  key order.
\<close>

datatype json =
    JNull
  | JBool bool
  | JNumber string
  | JString string
  | JArray "json list"
  | JObject "(string \<times> json) list"

record admins_apply =
  adm_service :: "string option"
  adm_grant :: "string list"
  adm_revoke :: "string list"

record admins =
  adm_level :: role
  adm_means :: string
  adm_apply :: "admins_apply option"

record claim =
  claim_by_level :: "(role, string) btree_map option"
  claim_json :: "json option"

record role_view =
  rv_id :: string
  rv_name :: string
  rv_level :: role

datatype quota_unit = UnitBytes | UnitMiB | UnitGiB

record quota_claim =
  qc_name :: string
  qc_unit :: quota_unit

datatype quota_apply =
    ApplyExec "string list" quota_unit
  | ApplySql string "string option" quota_unit

record quota =
  quota_claim_of :: "quota_claim option"
  quota_apply_of :: "quota_apply option"

record json_at =
  at_path :: string
  at_pointer :: string

record account_write =
  write_verb :: string
  write_path :: string

datatype accounts_apply =
  AccountsHttp string "(string, string) btree_map" json_at json_at string account_write

record accounts =
  accounts_apply_of :: accounts_apply

datatype members = BitwardenDirectory

datatype nodes = Termix

datatype emergency_part = PartEmail | PartPassword | PartTotp | PartApiKey

record access =
  acc_floor :: role
  acc_admins :: "admins option"
  acc_claims :: "(string, claim) btree_map"
  acc_quota :: "quota option"
  acc_members :: "members option"
  acc_accounts :: "accounts option"
  acc_nodes :: "nodes option"

definition default_access :: access where
  "default_access =
     \<lparr>acc_floor = User, acc_admins = None, acc_claims = [], acc_quota = None,
      acc_members = None, acc_accounts = None, acc_nodes = None\<rparr>"


section \<open>Groups of roles\<close>

definition group_of :: "string \<Rightarrow> string" where
  "group_of role_id = ''hlb-'' @ role_id"

definition valid_role_id :: "string \<Rightarrow> bool" where
  "valid_role_id i \<longleftrightarrow>
     i \<noteq> [] \<and> length i \<le> 40 \<and> \<not> prefix ''-'' i \<and> \<not> suffix ''-'' i \<and>
     list_all (\<lambda>c. is_ascii_lowercase c \<or> is_ascii_digit c \<or> c = CHR ''-'') i"

definition role_of_group :: "string \<Rightarrow> string option" where
  "role_of_group g =
     (case strip_prefix g ''hlb-'' of
        Some i \<Rightarrow> if valid_role_id i then Some i else None
      | None \<Rightarrow> None)"

lemma group_of_inject [simp]: "group_of a = group_of b \<longleftrightarrow> a = b"
  by (simp add: group_of_def)


section \<open>Templates\<close>

text \<open>
  Both loops walk the text from one opening pair of braces to the next: the part before,
  the name between the braces, the rest. A pair left open ends the walk.
\<close>

definition next_placeholder :: "string \<Rightarrow> (string \<times> string \<times> string) option" where
  "next_placeholder rest =
     (case find_sub ''{{'' rest of
        None \<Rightarrow> None
      | Some at \<Rightarrow>
          (let after = drop (at + 2) rest in
           case find_sub ''}}'' after of
             None \<Rightarrow> None
           | Some e \<Rightarrow> Some (take at rest, take e after, drop (e + 2) after)))"

lemma next_placeholder_split:
  "next_placeholder rest = Some (before, inner, rest') \<Longrightarrow>
   rest = before @ ''{{'' @ inner @ ''}}'' @ rest'"
proof -
  assume "next_placeholder rest = Some (before, inner, rest')"
  then obtain at e where at: "find_sub ''{{'' rest = Some at"
    and e: "find_sub ''}}'' (drop (at + 2) rest) = Some e"
    and b: "before = take at rest" "inner = take e (drop (at + 2) rest)"
      "rest' = drop (e + 2) (drop (at + 2) rest)"
    by (auto simp: next_placeholder_def Let_def split: option.splits)
  from find_sub_Some_split [OF at] have 1: "rest = before @ ''{{'' @ drop (at + 2) rest"
    by (simp add: b)
  from find_sub_Some_split [OF e] have 2: "drop (at + 2) rest = inner @ ''}}'' @ rest'"
    by (simp add: b)
  show ?thesis by (metis 1 2)
qed

lemma next_placeholder_shorter:
  "next_placeholder rest = Some (before, inner, rest') \<Longrightarrow> length rest' < length rest"
  by (drule next_placeholder_split) simp

function placeholders :: "string \<Rightarrow> string list" where
  "placeholders rest =
     (case next_placeholder rest of
        None \<Rightarrow> []
      | Some (before, inner, rest') \<Rightarrow> trim inner # placeholders rest')"
  by pat_completeness auto
termination
  by (relation "measure length") (auto dest: next_placeholder_shorter [rotated] simp: next_placeholder_shorter)

function fill :: "string \<Rightarrow> (string \<Rightarrow> string option) \<Rightarrow> string" where
  "fill rest val =
     (case next_placeholder rest of
        None \<Rightarrow> rest
      | Some (before, inner, rest') \<Rightarrow>
          before @
          (case val (trim inner) of
             Some v \<Rightarrow> v
           | None \<Rightarrow> ''{{'' @ inner @ ''}}'') @ fill rest' val)"
  by pat_completeness auto
termination
  by (relation "measure (length \<circ> fst)") (auto simp: next_placeholder_shorter)

declare placeholders.simps [simp del] fill.simps [simp del]

fun fill_json :: "json \<Rightarrow> role_view \<Rightarrow> json" where
  "fill_json (JString s) r =
     JString (fill s (\<lambda>t.
       if t = ''role.id'' then Some (rv_id r)
       else if t = ''role.name'' then Some (rv_name r)
       else if t = ''role.group'' then Some (group_of (rv_id r))
       else None))"
| "fill_json (JArray a) r = JArray (map (\<lambda>x. fill_json x r) a)"
| "fill_json (JObject ob) r = JObject (map (\<lambda>(k, x). (k, fill_json x r)) ob)"
| "fill_json v r = v"

text \<open>
  \<open>levels.range(..=level).next_back()\<close>: the last entry at or below the role's level.
\<close>

definition last_at_or_below :: "(role, string) btree_map \<Rightarrow> role \<Rightarrow> string option" where
  "last_at_or_below levels l =
     (case filter (\<lambda>(k, _). k \<le> l) levels of
        [] \<Rightarrow> None | es \<Rightarrow> Some (snd (last es)))"

definition value_for :: "claim \<Rightarrow> role_view \<Rightarrow> json option" where
  "value_for c r =
     (case (claim_by_level c, claim_json c) of
        (Some levels, _) \<Rightarrow> map_option JString (last_at_or_below levels (rv_level r))
      | (None, Some v) \<Rightarrow> Some (fill_json v r)
      | (None, None) \<Rightarrow> None)"

text \<open>What is not between braces, and a name no value is given for, stays as written.\<close>

lemma fill_none: "(\<And>t. val t = None) \<Longrightarrow> fill s val = s"
proof (induction s val rule: fill.induct)
  case (1 rest val)
  show ?case
  proof (cases "next_placeholder rest")
    case None
    then show ?thesis by (subst fill.simps) simp
  next
    case (Some p)
    obtain b i r where p: "p = (b, i, r)" by (cases p)
    have "fill r val = r" by (rule "1.IH" [OF Some [unfolded p] refl refl "1.prems"])
    with next_placeholder_split [OF Some [unfolded p]] Some p "1.prems" show ?thesis
      by (subst fill.simps) simp
  qed
qed

lemma fill_depends_on_placeholders:
  "(\<And>t. t \<in> set (placeholders s) \<Longrightarrow> f t = g t) \<Longrightarrow> fill s f = fill s g"
proof (induction s f rule: fill.induct)
  case (1 rest val)
  show ?case
  proof (cases "next_placeholder rest")
    case None
    then show ?thesis by (simp add: fill.simps [of rest])
  next
    case (Some p)
    obtain b i r where p: "p = (b, i, r)" by (cases p)
    have ph: "placeholders rest = trim i # placeholders r"
      using Some p by (simp add: placeholders.simps [of rest])
    with "1.prems" have "val (trim i) = g (trim i)" and "\<And>t. t \<in> set (placeholders r) \<Longrightarrow> val t = g t"
      by auto
    with "1.IH" [OF Some [unfolded p] refl refl] Some p show ?thesis
      by (simp add: fill.simps [of rest])
  qed
qed


section \<open>Quotas\<close>

fun unit_size :: "quota_unit \<Rightarrow> nat" where
  "unit_size UnitBytes = 1"
| "unit_size UnitMiB = 2 ^ 20"
| "unit_size UnitGiB = 2 ^ 30"

text \<open>
  The \<open>f64\<close> path of \<open>amount\<close>. Converting a \<open>u64\<close> keeps 53 significant bits, ties to even;
  dividing by a power of two is exact; \<open>{:.6}\<close> rounds the exact value to six decimals, ties
  to even.
\<close>

definition round_div_even :: "nat \<Rightarrow> nat \<Rightarrow> nat" where
  "round_div_even n d =
     (let q = n div d; r = n mod d in
      if 2 * r < d then q else if d < 2 * r then q + 1 else if even q then q else q + 1)"

fun bits_above_53 :: "nat \<Rightarrow> nat \<Rightarrow> nat" where
  "bits_above_53 0 n = 0"
| "bits_above_53 (Suc k) n = (if n < 2 ^ 53 then 0 else Suc (bits_above_53 k (n div 2)))"

definition u64_as_f64 :: "nat \<Rightarrow> nat" where
  "u64_as_f64 n = (let e = bits_above_53 11 n in round_div_even n (2 ^ e) * 2 ^ e)"

definition fixed6 :: "nat \<Rightarrow> string" where
  "fixed6 micros =
     show_nat (micros div 10 ^ 6) @ ''.'' @
     (let d = show_nat (micros mod 10 ^ 6) in replicate (6 - length d) CHR ''0'' @ d)"

definition amount :: "quota_unit \<Rightarrow> u64 \<Rightarrow> string" where
  "amount u bytes =
     (let size = unit_size u in
      if unat bytes mod size = 0 then show_nat (unat bytes div size)
      else trim_end_char CHR ''.'' (trim_end_char CHR ''0''
             (fixed6 (round_div_even (u64_as_f64 (unat bytes) * 10 ^ 6) size))))"

text \<open>
  The text of an amount is a JSON number, so parsing it back never fails: the claim is
  that number.
\<close>

definition claim_value :: "quota_unit \<Rightarrow> u64 \<Rightarrow> json" where
  "claim_value u bytes = JNumber (amount u bytes)"


section \<open>Names of stored secrets\<close>

definition organization_id_secret :: "string \<Rightarrow> string" where
  "organization_id_secret app = app @ ''-organization-id''"

definition organization_key_secret :: "string \<Rightarrow> string" where
  "organization_key_secret app = app @ ''-organization-key''"

fun part_suffix :: "emergency_part \<Rightarrow> string" where
  "part_suffix PartEmail = ''email''"
| "part_suffix PartPassword = ''password''"
| "part_suffix PartTotp = ''totp''"
| "part_suffix PartApiKey = ''api-key''"

definition emergency_secret :: "string \<Rightarrow> emergency_part \<Rightarrow> string" where
  "emergency_secret app part = app @ ''-emergency-'' @ part_suffix part"

definition api_key_secret :: "string \<Rightarrow> string" where
  "api_key_secret app = app @ ''-api-key''"

definition node_key_secret :: "string \<Rightarrow> string" where
  "node_key_secret app = app @ ''-node-key''"

definition next_node_key_secret :: "string \<Rightarrow> string" where
  "next_node_key_secret app = app @ ''-node-key-next''"



section \<open>The tokens each text is filled with\<close>

definition RESERVED_CLAIMS :: "string list" where
  "RESERVED_CLAIMS =
     [''sub'', ''iss'', ''aud'', ''exp'', ''iat'', ''nonce'', ''email'', ''email_verified'', ''name'',
      ''given_name'', ''family_name'', ''display_name'', ''preferred_username'', ''picture'', ''groups'',
      ''auth_time'', ''acr'']"

definition ROLE_TOKENS :: "string list" where
  "ROLE_TOKENS = [''role.id'', ''role.name'', ''role.group'']"

definition QUOTA_TOKENS :: "string list" where
  "QUOTA_TOKENS = [''person.sub'', ''quota'']"

definition ADMIN_TOKENS :: "string list" where
  "ADMIN_TOKENS = [''person.sub'']"

definition ACCOUNT_TOKENS :: "string list" where
  "ACCOUNT_TOKENS = [''account'']"

end
