(* ===== verification/Manifest.thy ===== *)
theory Manifest
  imports Capability Guide Access
begin

text \<open>
  The application manifest (\<open>crates/hlb-types/src/manifest.rs\<close>, and the assertion type of
  \<open>crates/hlb-types/src/assertion.rs\<close>): every structure with its fields, sizes and published
  ports as they are written and read, placement constraints, the texts a deployment fills,
  and the volumes a backup stops a service for. Serialisation attributes are not modelled.
\<close>

section \<open>Sizes and ports\<close>

definition MIB :: nat where
  "MIB = 1024 * 1024"

datatype size_error = NotASize | NotANumber | SizeOfNothing | TooLarge

text \<open>A size in bytes, below \<open>2 ^ 64\<close>.\<close>

definition size_unit :: "string \<Rightarrow> nat option" where
  "size_unit s =
     (if s = [] then None
      else if last s = CHR ''M'' then Some MIB
      else if last s = CHR ''G'' then Some (1024 * MIB)
      else None)"

definition bytes_try_from :: "string \<Rightarrow> size_error + nat" where
  "bytes_try_from s =
     (case size_unit s of
        None \<Rightarrow> Inl NotASize
      | Some unit \<Rightarrow>
          (case parse_below (2 ^ 64) (butlast s) of
             None \<Rightarrow> Inl NotANumber
           | Some n \<Rightarrow>
               if n = 0 then Inl SizeOfNothing
               else if n * unit < 2 ^ 64 then Inr (n * unit) else Inl TooLarge))"

definition bytes_to_string :: "nat \<Rightarrow> string" where
  "bytes_to_string b =
     (if b mod (1024 * MIB) = 0 then show_nat (b div (1024 * MIB)) @ ''G''
      else show_nat (b div MIB) @ ''M'')"

definition bytes_mib :: "nat \<Rightarrow> nat" where
  "bytes_mib b = b div MIB"

datatype protocol = Tcp | Udp

record published_port =
  pp_port :: u16
  pp_protocol :: protocol

datatype port_written = PortNumber u16 | PortText string

datatype port_error = PortNotANumber string | PortProtocol string

definition port_to_string :: "published_port \<Rightarrow> string" where
  "port_to_string p =
     (case pp_protocol p of
        Tcp \<Rightarrow> show_nat (unat (pp_port p))
      | Udp \<Rightarrow> show_nat (unat (pp_port p)) @ ''/udp'')"

definition port_try_from :: "port_written \<Rightarrow> port_error + published_port" where
  "port_try_from w =
     (case w of
        PortNumber port \<Rightarrow> Inr \<lparr>pp_port = port, pp_protocol = Tcp\<rparr>
      | PortText text \<Rightarrow>
          (let (port, proto) = (case split_once CHR ''/'' text of
                                  Some pq \<Rightarrow> pq | None \<Rightarrow> (text, ''tcp'')) in
           case parse_below (2 ^ 16) port of
             None \<Rightarrow> Inl (PortNotANumber text)
           | Some n \<Rightarrow>
               if proto = ''tcp'' then Inr \<lparr>pp_port = of_nat n, pp_protocol = Tcp\<rparr>
               else if proto = ''udp'' then Inr \<lparr>pp_port = of_nat n, pp_protocol = Udp\<rparr>
               else Inl (PortProtocol proto)))"

definition port_written_of :: "published_port \<Rightarrow> port_written" where
  "port_written_of p =
     (case pp_protocol p of
        Tcp \<Rightarrow> PortNumber (pp_port p)
      | Udp \<Rightarrow> PortText (port_to_string p))"

record tmpfs =
  tm_path :: string
  tm_size :: "nat option"

datatype tmpfs_written = TmpfsPath string | TmpfsSized string string

definition tmpfs_try_from :: "tmpfs_written \<Rightarrow> size_error + tmpfs" where
  "tmpfs_try_from w =
     (case w of
        TmpfsPath path \<Rightarrow> Inr \<lparr>tm_path = path, tm_size = None\<rparr>
      | TmpfsSized path sz \<Rightarrow>
          and_then (bytes_try_from sz) (\<lambda>b. Inr \<lparr>tm_path = path, tm_size = Some b\<rparr>))"

definition tmpfs_written_of :: "tmpfs \<Rightarrow> tmpfs_written" where
  "tmpfs_written_of t =
     (case tm_size t of
        None \<Rightarrow> TmpfsPath (tm_path t)
      | Some sz \<Rightarrow> TmpfsSized (tm_path t) (bytes_to_string sz))"

definition tmpfs_to_string :: "tmpfs \<Rightarrow> string" where
  "tmpfs_to_string t =
     (case tm_size t of
        None \<Rightarrow> tm_path t
      | Some sz \<Rightarrow> tm_path t @ '' ('' @ bytes_to_string sz @ '')'')"


section \<open>The manifest\<close>

datatype api_version = V1

datatype manifest_kind = KindApp | KindPlatformService

datatype criticality = Vital | Important | Normal

record metadata =
  md_name :: string
  md_hlb :: "string option"
  md_criticality :: "criticality option"
  md_display_name :: "string option"
  md_category :: "string option"
  md_homepage :: "string option"

record image_signer =
  signer_github :: string
  signer_workflow :: string

record image =
  img_repo :: string
  img_tag :: string
  img_digest :: "string option"
  img_built_here :: bool
  img_signed_by :: "image_signer option"

datatype runtime = Swarm | Compose

datatype expose_policy = Private | AfterGuide | Public

record path_route =
  pr_prefix :: string
  pr_companion :: string
  pr_port :: u16
  pr_keep_prefix :: bool

record auth_route =
  ar_paths :: "string list"
  ar_fails_with :: "u16 option"

record ingress =
  ing_host :: string
  ing_port :: u16
  ing_chain :: "string list"
  ing_expose :: expose_policy
  ing_paths :: "path_route list"
  ing_auth_routes :: "auth_route list"
  ing_open_paths :: "string list"

record healthcheck =
  hc_test :: "string list"
  hc_interval_secs :: u64
  hc_timeout_secs :: u64
  hc_retries :: u64
  hc_start_period_secs :: u64

record memory =
  mem_reserve :: nat
  mem_limit :: nat

record swarm_spec =
  sw_replicas :: u64
  sw_healthcheck :: "healthcheck option"
  sw_tier :: "string option"
  sw_node_label :: "string option"
  sw_memory :: "memory option"

datatype update_channel = Pin | Patch | Minor | Latest

record update_policy =
  up_channel :: update_channel
  up_backup_before :: bool
  up_auto_rollback :: bool
  up_watch_upstream :: "string option"
  up_window :: "string option"
  up_maturation_days :: u32

record security_spec =
  sec_read_only_rootfs :: bool
  sec_no_new_privileges :: bool
  sec_cap_drop :: "string list"
  sec_cap_add :: "string list"
  sec_user :: "string option"
  sec_tmpfs :: "tmpfs list"
  sec_published_ports :: "published_port list"

record ulimit =
  ul_soft :: u64
  ul_hard :: u64

record process =
  proc_init :: bool
  proc_stop_grace_secs :: "u64 option"
  proc_stop_signal :: "string option"
  proc_working_dir :: "string option"
  proc_hostname :: "string option"
  proc_ulimits :: "(string, ulimit) btree_map"
  proc_sysctls :: "(string, string) btree_map"
  proc_groups :: "string list"

record config_file =
  cf_path :: string
  cf_content :: string

record companion_volume =
  cv_name :: string
  cv_path :: string
  cv_backup :: bool
  cv_copy :: volume_copy

record companion =
  co_name :: string
  co_image :: image
  co_storage :: "companion_volume list"
  co_env :: "(string, string) btree_map"
  co_shared_env :: bool
  co_files :: "config_file list"
  co_command :: "string list"
  co_args :: "string list"
  co_process :: process
  co_healthcheck :: "healthcheck option"
  co_tier :: "string option"
  co_node_label :: "string option"
  co_memory :: "memory option"
  co_security :: security_spec

record sign_in =
  si_path :: string
  si_body :: string
  si_basic :: bool
  si_form :: bool
  si_headers :: "(string, string) btree_map"
  si_pointer :: string

record recovery_login =
  rl_secret :: string
  rl_username :: "string option"
  rl_path :: "string option"
  rl_proof :: "sign_in option"

datatype period = Day | Week

record job =
  job_id :: string
  job_does :: string
  job_every :: period
  job_command :: "string list"

record download =
  dl_url :: string
  dl_sha256 :: string
  dl_storage :: string
  dl_into :: string
  dl_unzip :: bool

datatype check =
    CheckHttp string "u16 option" "u16 list" "string option" "json option" "string option"
      "string option"
  | CheckEnv string string
  | CheckSql string "string option" string

record assertion =
  as_id :: string
  as_holds :: string
  as_check :: check
  as_fix :: "string option"

record spec =
  sp_image :: image
  sp_runtime :: runtime
  sp_requires :: "capability list"
  sp_ingress :: "ingress list"
  sp_swarm :: swarm_spec
  sp_update :: update_policy
  sp_companions :: "companion list"
  sp_env :: "(string, string) btree_map"
  sp_shared_env :: "(string, string) btree_map"
  sp_security :: security_spec
  sp_files :: "config_file list"
  sp_command :: "string list"
  sp_args :: "string list"
  sp_process :: process
  sp_assertions :: "assertion list"
  sp_access :: "access option"
  sp_recovery :: "recovery_login list"
  sp_jobs :: "job list"
  sp_downloads :: "download list"

record manifest =
  mf_api_version :: api_version
  mf_kind :: manifest_kind
  mf_metadata :: metadata
  mf_spec :: spec

abbreviation app_name :: "manifest \<Rightarrow> string" where
  "app_name m \<equiv> md_name (mf_metadata m)"

abbreviation requires_of :: "manifest \<Rightarrow> capability list" where
  "requires_of m \<equiv> sp_requires (mf_spec m)"


section \<open>Defaults\<close>

definition default_security :: security_spec where
  "default_security =
     \<lparr>sec_read_only_rootfs = True, sec_no_new_privileges = True, sec_cap_drop = [''ALL''],
      sec_cap_add = [], sec_user = None, sec_tmpfs = [], sec_published_ports = []\<rparr>"

definition default_process :: process where
  "default_process =
     \<lparr>proc_init = False, proc_stop_grace_secs = None, proc_stop_signal = None,
      proc_working_dir = None, proc_hostname = None, proc_ulimits = [], proc_sysctls = [],
      proc_groups = []\<rparr>"

definition default_swarm :: swarm_spec where
  "default_swarm =
     \<lparr>sw_replicas = 1, sw_healthcheck = None, sw_tier = None, sw_node_label = None,
      sw_memory = None\<rparr>"

definition MIN_MATURATION_DAYS :: u32 where
  "MIN_MATURATION_DAYS = 7"

definition default_update :: update_policy where
  "default_update =
     \<lparr>up_channel = Patch, up_backup_before = True, up_auto_rollback = True,
      up_watch_upstream = None, up_window = None, up_maturation_days = MIN_MATURATION_DAYS\<rparr>"


section \<open>Operations\<close>

definition manifest_criticality :: "manifest \<Rightarrow> criticality" where
  "manifest_criticality m =
     (case md_criticality (mf_metadata m) of Some c \<Rightarrow> c | None \<Rightarrow> Normal)"

definition download_file_name :: "download \<Rightarrow> string" where
  "download_file_name d = last (split_char CHR ''/'' (dl_url d))"

fun period_seconds :: "period \<Rightarrow> int" where
  "period_seconds Day = 86400"
| "period_seconds Week = 7 * 86400"

definition escaped :: "string \<Rightarrow> string" where
  "escaped s =
     concat (map (\<lambda>c.
       if \<not> (is_ascii_digit c \<or> is_ascii_lowercase c \<or> is_ascii_uppercase c) \<and>
          c \<notin> {CHR ''/'', CHR ''-'', CHR ''_''}
       then [CHR 0x5C, c] else [c]) s)"

definition identity_regexp :: "image_signer \<Rightarrow> string" where
  "identity_regexp s =
     ''^https://github'' @ [CHR 0x5C] @ ''.com/'' @ escaped (signer_github s) @ ''/'' @
     [CHR 0x5C] @ ''.github/workflows/'' @ escaped (signer_workflow s) @
     ''@refs/tags/[^@]+$''"

definition image_reference :: "image \<Rightarrow> string" where
  "image_reference i =
     (case img_digest i of
        Some d \<Rightarrow> img_repo i @ '':'' @ img_tag i @ ''@'' @ d
      | None \<Rightarrow> img_repo i @ '':'' @ img_tag i)"

definition is_pinned :: "image \<Rightarrow> bool" where
  "is_pinned i \<longleftrightarrow> img_digest i \<noteq> None"

definition data_label :: "string \<Rightarrow> string" where
  "data_label service = ''hlb.data.'' @ service"

definition data_constraint :: "string \<Rightarrow> string" where
  "data_constraint service = ''node.labels.'' @ data_label service @ ''==true''"

definition tier_admits :: "string \<Rightarrow> string \<Rightarrow> bool" where
  "tier_admits node_tier wanted \<longleftrightarrow>
     node_tier = wanted \<or> (wanted = ''light'' \<and> node_tier = ''heavy'')"

definition tier_constraint :: "string \<Rightarrow> string option" where
  "tier_constraint wanted =
     (if wanted \<noteq> ''light'' then Some (''node.labels.tier=='' @ wanted) else None)"

definition companion_service :: "companion \<Rightarrow> string \<Rightarrow> string" where
  "companion_service c app = app @ ''-'' @ co_name c"

definition companion_environment :: "companion \<Rightarrow> spec \<Rightarrow> (string, string) btree_map" where
  "companion_environment c s =
     bt_extend (if co_shared_env c then sp_shared_env s else []) (co_env c)"

definition substituted :: "spec \<Rightarrow> string list" where
  "substituted s =
     bt_values (sp_env s) @ bt_values (sp_shared_env s) @ map cf_content (sp_files s) @
     concat (map (\<lambda>c. bt_values (co_env c) @ map cf_content (co_files c)) (sp_companions s))"

fun own_volume :: "string \<Rightarrow> capability \<Rightarrow> string option" where
  "own_volume app (Storage name _ _ _ _ _ None) = Some (app @ ''-'' @ name)"
| "own_volume app _ = None"

definition companion_volumes :: "string \<Rightarrow> companion \<Rightarrow> string list" where
  "companion_volumes app c =
     map (\<lambda>v. companion_service c app @ ''-'' @ cv_name v) (co_storage c)"

definition service_of_volume :: "spec \<Rightarrow> string \<Rightarrow> string \<Rightarrow> string option" where
  "service_of_volume s app volume =
     (if list_ex (\<lambda>c. own_volume app c = Some volume) (sp_requires s) then Some app
      else map_option (\<lambda>c. companion_service c app)
             (find (\<lambda>c. volume \<in> set (companion_volumes app c)) (sp_companions s)))"

fun copied_stopped :: "capability \<Rightarrow> bool" where
  "copied_stopped (Storage _ _ _ _ _ CopyStopped _) = True"
| "copied_stopped _ = False"

definition stopped_for_copy :: "spec \<Rightarrow> string \<Rightarrow> string list" where
  "stopped_for_copy s app =
     (if list_ex copied_stopped (sp_requires s) then [app] else []) @
     map (\<lambda>c. companion_service c app)
       (filter (\<lambda>c. list_ex (\<lambda>v. cv_copy v = CopyStopped) (co_storage c)) (sp_companions s))"


section \<open>Lemmas\<close>

lemma MIB_pos [simp]: "0 < MIB"
  by (simp add: MIB_def)

lemma bytes_try_from_Inr:
  assumes "bytes_try_from s = Inr b"
  shows "0 < b" and "b < 2 ^ 64" and "MIB dvd b"
  using assms
  by (auto simp: bytes_try_from_def size_unit_def split: option.splits if_splits)

lemma bytes_try_from_show:
  assumes "0 < n" and "n * unit < 2 ^ 64" and "0 < unit"
    and "size_unit (show_nat n @ [u]) = Some unit"
  shows "bytes_try_from (show_nat n @ [u]) = Inr (n * unit)"
proof -
  have "n \<le> n * unit" using assms(3) by simp
  with assms(2) have "n < 2 ^ 64" by linarith
  then have "parse_below (2 ^ 64) (show_nat n) = Some n" by (rule parse_below_show_nat)
  with assms show ?thesis by (simp add: bytes_try_from_def)
qed

text \<open>A size read is written as a text that reads as the same size.\<close>

lemma bytes_roundtrip:
  assumes "0 < b" and "b < 2 ^ 64" and "MIB dvd b"
  shows "bytes_try_from (bytes_to_string b) = Inr b"
proof (cases "b mod (1024 * MIB) = 0")
  case True
  then have d: "b div (1024 * MIB) * (1024 * MIB) = b" by (metis add.right_neutral div_mult_mod_eq)
  with assms(1) have pos: "0 < b div (1024 * MIB)" by (metis gr0I mult_is_0)
  have "bytes_try_from (show_nat (b div (1024 * MIB)) @ [CHR ''G'']) = Inr (b div (1024 * MIB) * (1024 * MIB))"
    by (rule bytes_try_from_show [OF pos]) (simp_all only: d assms, simp_all add: size_unit_def)
  with True show ?thesis by (simp add: bytes_to_string_def d)
next
  case False
  from assms(3) have d: "b div MIB * MIB = b" by simp
  with assms(1) have pos: "0 < b div MIB" by (metis gr0I mult_is_0)
  have "bytes_try_from (show_nat (b div MIB) @ [CHR ''M'']) = Inr (b div MIB * MIB)"
    by (rule bytes_try_from_show [OF pos]) (simp_all only: d assms, simp_all add: size_unit_def)
  with False show ?thesis by (simp add: bytes_to_string_def d)
qed

lemma split_once_show_nat: "split_once CHR ''/'' (show_nat n @ CHR ''/'' # r) = Some (show_nat n, r)"
proof -
  have "CHR ''/'' \<notin> set (show_nat n)"
    using show_nat_digits [of n] by (auto simp: list_all_iff is_ascii_digit_def)
  then show ?thesis by (simp add: split_once_Some)
qed

lemma port_roundtrip: "port_try_from (port_written_of p) = Inr p"
proof (cases "pp_protocol p")
  case Tcp
  then show ?thesis by (simp add: port_try_from_def port_written_of_def)
next
  case Udp
  have "unat (pp_port p) < 2 ^ 16" using unsigned_less [of "pp_port p"] by simp
  then have "parse_below (2 ^ 16) (show_nat (unat (pp_port p))) = Some (unat (pp_port p))"
    by (rule parse_below_show_nat)
  with Udp show ?thesis
    by (simp add: port_try_from_def port_written_of_def port_to_string_def split_once_show_nat)
qed

end
