(* ===== verification/Binding.thy ===== *)
theory Binding
  imports Manifest
begin

text \<open>
  Binding tokens (\<open>crates/hlb-types/src/binding.rs\<close>): the tokens a manifest's texts may
  carry, the secrets Homelabus generates, substitution at deploy time and redaction at
  display time. Deriving a secret's rendered forms (hashes, key pairs) is the work of
  cryptographic libraries and is not modelled.
\<close>

section \<open>Tokens\<close>

datatype (plugins only: code) token =
  DbHost | DbPort | DbName | DbUser | DbPassword | DbUrl | CacheHost | CachePort | CacheUrl
| OidcIssuer | OidcClientId | OidcClientSecret | SmtpHost | SmtpPort | SmtpUser | SmtpPassword | SmtpFrom
| Domain | Timezone | BrandLogo

fun placeholder :: "token \<Rightarrow> string" where
  "placeholder DbHost = ''{{ db.host }}''"
| "placeholder DbPort = ''{{ db.port }}''"
| "placeholder DbName = ''{{ db.name }}''"
| "placeholder DbUser = ''{{ db.user }}''"
| "placeholder DbPassword = ''{{ db.password }}''"
| "placeholder DbUrl = ''{{ db.url }}''"
| "placeholder CacheHost = ''{{ cache.host }}''"
| "placeholder CachePort = ''{{ cache.port }}''"
| "placeholder CacheUrl = ''{{ cache.url }}''"
| "placeholder OidcIssuer = ''{{ oidc.issuer }}''"
| "placeholder OidcClientId = ''{{ oidc.client_id }}''"
| "placeholder OidcClientSecret = ''{{ oidc.client_secret }}''"
| "placeholder SmtpHost = ''{{ smtp.host }}''"
| "placeholder SmtpPort = ''{{ smtp.port }}''"
| "placeholder SmtpUser = ''{{ smtp.user }}''"
| "placeholder SmtpPassword = ''{{ smtp.password }}''"
| "placeholder SmtpFrom = ''{{ smtp.from }}''"
| "placeholder Domain = ''{{ domain }}''"
| "placeholder Timezone = ''{{ timezone }}''"
| "placeholder BrandLogo = ''{{ brand.logo }}''"

definition all_tokens :: "token list" where
  "all_tokens =
     [DbHost, DbPort, DbName, DbUser, DbPassword, DbUrl, CacheHost, CachePort, CacheUrl,
      OidcIssuer, OidcClientId, OidcClientSecret, SmtpHost, SmtpPort, SmtpUser, SmtpPassword, SmtpFrom,
      Domain, Timezone, BrandLogo]"

fun is_secret :: "token \<Rightarrow> bool" where
  "is_secret DbPassword = True"
| "is_secret DbUrl = True"
| "is_secret OidcClientSecret = True"
| "is_secret SmtpPassword = True"
| "is_secret _ = False"

fun token_requires :: "token \<Rightarrow> string option" where
  "token_requires DbHost = Some ''database''"
| "token_requires DbPort = Some ''database''"
| "token_requires DbName = Some ''database''"
| "token_requires DbUser = Some ''database''"
| "token_requires DbPassword = Some ''database''"
| "token_requires DbUrl = Some ''database''"
| "token_requires CacheHost = Some ''cache''"
| "token_requires CachePort = Some ''cache''"
| "token_requires CacheUrl = Some ''cache''"
| "token_requires OidcIssuer = Some ''sso''"
| "token_requires OidcClientId = Some ''sso''"
| "token_requires OidcClientSecret = Some ''sso''"
| "token_requires SmtpHost = Some ''smtp''"
| "token_requires SmtpPort = Some ''smtp''"
| "token_requires SmtpUser = Some ''smtp''"
| "token_requires SmtpPassword = Some ''smtp''"
| "token_requires SmtpFrom = Some ''smtp''"
| "token_requires Domain = None"
| "token_requires Timezone = None"
| "token_requires BrandLogo = None"

text \<open>The derived order of the enum: the order of declaration.\<close>

fun token_rank :: "token \<Rightarrow> nat" where
  "token_rank DbHost = 0"
| "token_rank DbPort = 1"
| "token_rank DbName = 2"
| "token_rank DbUser = 3"
| "token_rank DbPassword = 4"
| "token_rank DbUrl = 5"
| "token_rank CacheHost = 6"
| "token_rank CachePort = 7"
| "token_rank CacheUrl = 8"
| "token_rank OidcIssuer = 9"
| "token_rank OidcClientId = 10"
| "token_rank OidcClientSecret = 11"
| "token_rank SmtpHost = 12"
| "token_rank SmtpPort = 13"
| "token_rank SmtpUser = 14"
| "token_rank SmtpPassword = 15"
| "token_rank SmtpFrom = 16"
| "token_rank Domain = 17"
| "token_rank Timezone = 18"
| "token_rank BrandLogo = 19"

lemma all_tokens_complete: "t \<in> set all_tokens"
  by (cases t) (simp_all add: all_tokens_def)

lemma token_rank_nth: "all_tokens ! token_rank t = t"
  by (cases t) (simp_all add: all_tokens_def)

lemma token_rank_inject [simp]: "token_rank a = token_rank b \<longleftrightarrow> a = b"
  by (metis token_rank_nth)

lemma placeholder_inject: "placeholder a = placeholder b \<Longrightarrow> a = b"
  by (cases a) (cases b; simp)+

instantiation token :: linorder
begin

definition less_eq_token :: "token \<Rightarrow> token \<Rightarrow> bool" where
  "less_eq_token a b \<longleftrightarrow> token_rank a \<le> token_rank b"

definition less_token :: "token \<Rightarrow> token \<Rightarrow> bool" where
  "less_token a b \<longleftrightarrow> token_rank a < token_rank b"

instance
  by standard (auto simp: less_eq_token_def less_token_def)

end

definition tokens_in :: "string \<Rightarrow> token list" where
  "tokens_in v = filter (\<lambda>t. str_contains v (placeholder t)) all_tokens"

text \<open>\<open>sort_unstable\<close> then \<open>dedup\<close>.\<close>

definition tokens_used :: "(string, string) btree_map \<Rightarrow> token list" where
  "tokens_used env = remdups_adj (sort (concat (map tokens_in (bt_values env))))"

definition substitute :: "string \<Rightarrow> (token, string) btree_map \<Rightarrow> string" where
  "substitute v vals = fold (\<lambda>(t, x) out. str_replace out (placeholder t) x) vals v"

lemma tokens_in_iff: "t \<in> set (tokens_in v) \<longleftrightarrow> str_contains v (placeholder t)"
  by (simp add: tokens_in_def all_tokens_complete)

lemma set_tokens_used: "set (tokens_used env) = (\<Union>v \<in> set (bt_values env). set (tokens_in v))"
  by (simp add: tokens_used_def)

lemma sorted_remdups_adj_strict:
  "sorted xs \<Longrightarrow> sorted_wrt (<) (remdups_adj (xs :: 'a::linorder list))"
  by (induction xs rule: remdups_adj.induct) (auto simp: order.strict_iff_order)

lemma strict_sorted_tokens_used: "sorted_wrt (<) (tokens_used env)"
  by (simp add: tokens_used_def sorted_remdups_adj_strict)

lemma substitute_absent:
  "(\<And>t. t \<in> fst ` set vals \<Longrightarrow> t \<notin> set (tokens_in v)) \<Longrightarrow> substitute v vals = v"
proof (induction vals)
  case (Cons tx vals)
  then show ?case
    by (cases tx) (simp add: substitute_def str_replace_absent tokens_in_iff)
qed (simp add: substitute_def)


section \<open>Generated secrets\<close>

datatype secret_form =
  Plain | Hex | Bcrypt | Base64url | Base64 | VapidPrivate | VapidPublic | Rsa

fun form_suffix :: "secret_form \<Rightarrow> string" where
  "form_suffix Plain = []"
| "form_suffix Hex = '':hex''"
| "form_suffix Bcrypt = '':bcrypt''"
| "form_suffix Base64url = '':base64url''"
| "form_suffix Base64 = '':base64''"
| "form_suffix VapidPrivate = '':vapid-private''"
| "form_suffix VapidPublic = '':vapid-public''"
| "form_suffix Rsa = '':rsa''"

definition WRITTEN :: "secret_form list" where
  "WRITTEN = [Hex, Bcrypt, Base64url, Base64, VapidPrivate, VapidPublic, Rsa]"

fun form_is_public :: "secret_form \<Rightarrow> bool" where
  "form_is_public VapidPublic = True"
| "form_is_public _ = False"

record generated_secret =
  gs_name :: string
  gs_form :: secret_form

definition vault_name :: "generated_secret \<Rightarrow> string \<Rightarrow> string" where
  "vault_name g app = app @ ''-'' @ gs_name g"

definition secret_placeholder :: "generated_secret \<Rightarrow> string" where
  "secret_placeholder g = ''{{ secret.'' @ gs_name g @ form_suffix (gs_form g) @ '' }}''"

definition secret_name_char :: "char \<Rightarrow> bool" where
  "secret_name_char c \<longleftrightarrow> is_ascii_lowercase c \<or> is_ascii_digit c \<or> c = CHR ''-''"

definition split_form :: "string \<Rightarrow> string \<times> secret_form" where
  "split_form inner =
     (case List.map_filter
             (\<lambda>f. map_option (\<lambda>n. (n, f)) (strip_suffix inner (form_suffix f))) WRITTEN of
        [] \<Rightarrow> (inner, Plain)
      | nf # _ \<Rightarrow> nf)"

definition read_secret :: "string \<Rightarrow> string + generated_secret" where
  "read_secret inner =
     (let (name, form) = split_form inner in
      if name \<noteq> [] \<and> list_all secret_name_char name
      then Inr \<lparr>gs_name = name, gs_form = form\<rparr>
      else Inl (''{{ secret.'' @ inner @ '' }}''))"

function generated_secrets :: "string \<Rightarrow> (string + generated_secret) list" where
  "generated_secrets rest =
     (case find_sub ''{{ secret.'' rest of
        None \<Rightarrow> []
      | Some start \<Rightarrow>
          (let after = drop (start + 10) rest in
           case find_sub '' }}'' after of
             None \<Rightarrow> [Inl (drop start rest)]
           | Some e \<Rightarrow> read_secret (take e after) # generated_secrets (drop (e + 3) after)))"
  by pat_completeness auto
termination
proof (relation "measure length", goal_cases)
  case (2 rest start after e)
  from find_sub_Some_split [OF 2(1)] have "start + 10 \<le> length rest" by simp
  then show ?case using 2(2) by simp
qed simp

declare generated_secrets.simps [simp del]

definition S3_SECRET_KEY :: string where
  "S3_SECRET_KEY = ''{{ s3.secret_key }}''"

definition carries_secret :: "string \<Rightarrow> bool" where
  "carries_secret v \<longleftrightarrow>
     list_ex is_secret (tokens_in v) \<or> str_contains v S3_SECRET_KEY \<or>
     list_ex (\<lambda>r. case r of Inr g \<Rightarrow> \<not> form_is_public (gs_form g) | Inl _ \<Rightarrow> False)
       (generated_secrets v)"


section \<open>Redaction\<close>

definition redact_mask :: string where
  "redact_mask = concat (replicate 6 [CHR 0xE2, CHR 0x80, CHR 0xA2])"

definition sensitive_marks :: "string list" where
  "sensitive_marks =
     [''PASS'', ''SECRET'', ''TOKEN'', ''KEY'', ''CREDENTIAL'', ''PRIVATE'', ''_URL'', ''URI'', ''DSN'']"

definition sensitive_name :: "string \<Rightarrow> bool" where
  "sensitive_name name \<longleftrightarrow>
     (let n = map to_ascii_uppercase name in
      list_ex (\<lambda>m. str_contains n m) sensitive_marks \<or>
      (list_ex (\<lambda>seg. seg = ''PWD'') (split_char CHR ''_'' n) \<and> n \<noteq> ''PWD''))"

definition redact :: "string \<Rightarrow> string \<Rightarrow> string" where
  "redact name v = (if sensitive_name name \<and> v \<noteq> [] then redact_mask else v)"


section \<open>A placeholder reads back as the secret it was written for\<close>

definition valid_secret_name :: "string \<Rightarrow> bool" where
  "valid_secret_name n \<longleftrightarrow> n \<noteq> [] \<and> list_all secret_name_char n"

lemma secret_name_char_props:
  assumes "secret_name_char c"
  shows "c \<noteq> CHR '':''" and "c \<noteq> CHR '' ''"
  using assms by (auto simp: secret_name_char_def is_ascii_lowercase_def is_ascii_digit_def)

text \<open>A colon ends the name, so the suffix after it decides the form.\<close>

lemma colon_suffix_unique:
  assumes "n @ '':'' @ a = r @ '':'' @ b" and "CHR '':'' \<notin> set n" and "CHR '':'' \<notin> set a"
  shows "n = r \<and> a = b"
proof -
  from assms(1) consider us where "n = r @ us" "us @ '':'' @ a = '':'' @ b"
    | us where "r = n @ us" "'':'' @ a = us @ '':'' @ b"
    by (auto simp: append_eq_append_conv2)
  then show ?thesis
  proof cases
    case (1 us)
    with assms(2) show ?thesis by (cases us) auto
  next
    case (2 us)
    with assms(3) show ?thesis by (cases us) auto
  qed
qed

lemma form_suffix_colon:
  "f \<in> set WRITTEN \<Longrightarrow> \<exists>s. form_suffix f = '':'' @ s \<and> CHR '':'' \<notin> set s"
  by (auto simp: WRITTEN_def)

lemma form_suffix_inject: "form_suffix f = form_suffix g \<Longrightarrow> f = g"
  by (cases f; cases g) simp_all

lemma strip_form_suffix:
  assumes "CHR '':'' \<notin> set n" and "f \<in> set WRITTEN"
  shows "strip_suffix (n @ form_suffix g) (form_suffix f) = (if f = g then Some n else None)"
proof (cases "strip_suffix (n @ form_suffix g) (form_suffix f)")
  case None
  then show ?thesis using strip_suffix_Some [of "n @ form_suffix g" "form_suffix f" n] by auto
next
  case (Some r)
  then have eq: "n @ form_suffix g = r @ form_suffix f" by (simp add: strip_suffix_Some)
  obtain sf where sf: "form_suffix f = '':'' @ sf" "CHR '':'' \<notin> set sf"
    using form_suffix_colon [OF assms(2)] by blast
  show ?thesis
  proof (cases "g = Plain")
    case True
    with eq sf(1) have "CHR '':'' \<in> set n" by (metis append_Nil2 form_suffix.simps(1) append_Cons in_set_conv_decomp)
    with assms(1) show ?thesis by simp
  next
    case False
    then have "g \<in> set WRITTEN" by (cases g) (simp_all add: WRITTEN_def)
    then obtain sg where sg: "form_suffix g = '':'' @ sg" "CHR '':'' \<notin> set sg"
      using form_suffix_colon by blast
    from colon_suffix_unique [of n sg r sf] eq sf(1) sg assms(1) have "n = r" "sg = sf" by auto
    with Some sf sg form_suffix_inject [of f g] show ?thesis by simp
  qed
qed

lemma split_form_written:
  assumes "CHR '':'' \<notin> set n"
  shows "split_form (n @ form_suffix f) = (n, f)"
  by (cases f) (simp_all add: split_form_def WRITTEN_def List.map_filter_simps
      strip_form_suffix [OF assms, unfolded WRITTEN_def] del: form_suffix.simps, simp_all)

lemma read_secret_written:
  assumes "valid_secret_name (gs_name g)"
  shows "read_secret (gs_name g @ form_suffix (gs_form g)) = Inr g"
proof -
  have "CHR '':'' \<notin> set (gs_name g)"
    using assms secret_name_char_props(1) by (auto simp: valid_secret_name_def list_all_iff)
  with assms show ?thesis
    by (simp add: read_secret_def split_form_written valid_secret_name_def)
qed

end
