(* ===== verification/Checks.thy ===== *)
theory Checks
  imports Binding
begin

text \<open>
  What the validation of manifests and guides shares: checks run one after the other until
  one refuses, loops that look back at what they have seen, and the walk over the tokens of
  a text. A refusal names the rule and what it refuses; its wording is not modelled.
\<close>

section \<open>Checks in turn\<close>

definition require :: "bool \<Rightarrow> 'e \<Rightarrow> 'e + unit" where
  "require b e = (if b then Inr () else Inl e)"

text \<open>The first check that refuses, or none.\<close>

fun in_turn :: "('e + unit) list \<Rightarrow> 'e + unit" where
  "in_turn [] = Inr ()"
| "in_turn (c # cs) = and_then c (\<lambda>_. in_turn cs)"

definition each :: "('x \<Rightarrow> 'e + unit) \<Rightarrow> 'x list \<Rightarrow> 'e + unit" where
  "each f xs = in_turn (map f xs)"

text \<open>A loop whose body also reads the elements before the one at hand.\<close>

fun each_after :: "('x list \<Rightarrow> 'x \<Rightarrow> 'e + unit) \<Rightarrow> 'x list \<Rightarrow> 'x list \<Rightarrow> 'e + unit" where
  "each_after f seen [] = Inr ()"
| "each_after f seen (x # xs) = and_then (f seen x) (\<lambda>_. each_after f (seen @ [x]) xs)"

definition under :: "('d \<Rightarrow> 'e) \<Rightarrow> 'd + unit \<Rightarrow> 'e + unit" where
  "under h r = (case r of Inl d \<Rightarrow> Inl (h d) | Inr u \<Rightarrow> Inr u)"

lemma require_Inr [simp]: "require b e = Inr () \<longleftrightarrow> b"
  by (simp add: require_def)

lemma under_Inr [simp]: "under h r = Inr () \<longleftrightarrow> r = Inr ()"
  by (simp add: under_def split: sum.splits)

lemma in_turn_Inr [simp]: "in_turn cs = Inr () \<longleftrightarrow> (\<forall>c \<in> set cs. c = Inr ())"
  by (induction cs) (auto simp: and_then_Inr_conv)

declare in_turn.simps [simp del]

lemma each_Inr [simp]: "each f xs = Inr () \<longleftrightarrow> (\<forall>x \<in> set xs. f x = Inr ())"
  by (simp add: each_def)

lemma each_after_Inr:
  "each_after f seen xs = Inr () \<longleftrightarrow>
   (\<forall>ys x zs. xs = ys @ x # zs \<longrightarrow> f (seen @ ys) x = Inr ())"
proof (induction f seen xs rule: each_after.induct)
  case (2 f seen x xs)
  have "each_after f seen (x # xs) = Inr () \<longleftrightarrow>
      f seen x = Inr () \<and> (\<forall>ys y zs. xs = ys @ y # zs \<longrightarrow> f (seen @ [x] @ ys) y = Inr ())"
    using 2 by (cases "f seen x") auto
  then show ?case by (auto simp: Cons_eq_append_conv)
qed simp

text \<open>A loop that refuses what it has seen leaves no element twice.\<close>

lemma each_after_distinct:
  assumes "each_after f seen xs = Inr ()"
    and "\<And>ys x. f ys x = Inr () \<Longrightarrow> k x \<notin> k ` set ys" and "distinct (map k seen)"
  shows "distinct (map k (seen @ xs))"
  using assms
proof (induction f seen xs rule: each_after.induct)
  case (2 f seen x xs)
  then have "f seen x = Inr ()" "each_after f (seen @ [x]) xs = Inr ()"
    by (auto simp: and_then_Inr_conv)
  with 2 show ?case by simp
qed simp

lemma each_after_all:
  assumes "each_after f seen xs = Inr ()" and "x \<in> set xs"
  obtains ys where "f ys x = Inr ()"
  using assms by (auto simp: each_after_Inr in_set_conv_decomp)


section \<open>Characters and segments\<close>

definition is_ascii_alphanumeric :: "char \<Rightarrow> bool" where
  "is_ascii_alphanumeric c \<longleftrightarrow> is_ascii_lowercase c \<or> is_ascii_uppercase c \<or> is_ascii_digit c"

definition is_ascii_control :: "char \<Rightarrow> bool" where
  "is_ascii_control c \<longleftrightarrow> (of_char c :: nat) < 32 \<or> (of_char c :: nat) = 127"

definition is_ascii_hexdigit :: "char \<Rightarrow> bool" where
  "is_ascii_hexdigit c \<longleftrightarrow> is_ascii_digit c \<or>
     (97 \<le> (of_char c :: nat) \<and> (of_char c :: nat) \<le> 102) \<or>
     (65 \<le> (of_char c :: nat) \<and> (of_char c :: nat) \<le> 70)"

definition ident_char :: "char \<Rightarrow> bool" where
  "ident_char c \<longleftrightarrow> is_ascii_lowercase c \<or> is_ascii_digit c \<or> c = CHR ''-''"

definition ident :: "string \<Rightarrow> bool" where
  "ident s \<longleftrightarrow> s \<noteq> [] \<and> list_all ident_char s"

definition dot_segment :: "string \<Rightarrow> bool" where
  "dot_segment seg \<longleftrightarrow> seg = ''.'' \<or> seg = ''..''"

text \<open>\<open>contains(char::is_whitespace)\<close>.\<close>

definition has_whitespace :: "string \<Rightarrow> bool" where
  "has_whitespace s \<longleftrightarrow> list_ex (\<lambda>w. str_contains s w) white_space"

definition is_absolute :: "string \<Rightarrow> bool" where
  "is_absolute p \<longleftrightarrow> starts_with p ''/''"


section \<open>The tokens of a text\<close>

text \<open>
  \<open>while let Some(at) = rest.find("{{")\<close>: what follows each opening pair of braces, the
  search going on from there; and the text up to the closing pair.
\<close>

function after_braces :: "string \<Rightarrow> string list" where
  "after_braces rest =
     (case find_sub ''{{'' rest of
        None \<Rightarrow> []
      | Some at \<Rightarrow> drop (at + 2) rest # after_braces (drop (at + 2) rest))"
  by pat_completeness auto
termination
proof (relation "measure length")
  fix rest at assume "find_sub ''{{'' rest = Some at"
  from find_sub_Some_split [OF this] have "at + 2 \<le> length rest" by simp
  then show "(drop (at + 2) rest, rest) \<in> measure length" by simp
qed simp

declare after_braces.simps [simp del]

definition until_close :: "string \<Rightarrow> string" where
  "until_close s = (case find_sub ''}}'' s of None \<Rightarrow> s | Some e \<Rightarrow> take e s)"

lemma after_braces_none: "\<not> str_contains s ''{{'' \<Longrightarrow> after_braces s = []"
  by (subst after_braces.simps) (simp add: str_contains_def)

text \<open>One statement: a first word, and no semicolon but at the end.\<close>

definition one_statement :: "string \<Rightarrow> string \<Rightarrow> bool" where
  "one_statement verb text \<longleftrightarrow>
     starts_with (map to_ascii_lowercase (trim_start text)) verb \<and>
     \<not> CHR '';'' \<in> set (trim_end_char CHR '';'' (trim_end text))"

end
