(* ===== verification/Validate_Access.thy ===== *)
theory Validate_Access
  imports Checks
begin

text \<open>
  The rules on what an app declares of its assertions and of its access
  (\<open>crates/hlb-types/src/lib.rs\<close>: \<open>validate_assertions\<close>, \<open>token_sign_in\<close>,
  \<open>token_headers\<close>, \<open>validate_accounts\<close>, \<open>validate_access\<close>). Printing a JSON value is
  \<open>serde_json\<close>'s, a parameter here.
\<close>

section \<open>Assertions\<close>

datatype (plugins only: code) assertion_rule =
    AssertionId | AssertionTwice | HoldsEmpty | HostShape | PathNotAbsolute | NoPort | NoStatus
  | PointerShape | PointerAlone | EnvAbsent | EnvDiffers | NoDatabase | WhichDatabase
  | UnknownDatabase | NotOneSelect

fun database_name :: "capability \<Rightarrow> string option option" where
  "database_name (Database _ name _ _) = Some name"
| "database_name _ = None"

definition declared_databases :: "manifest \<Rightarrow> string option list" where
  "declared_databases m = List.map_filter database_name (requires_of m)"

definition name_or :: "string \<Rightarrow> string option \<Rightarrow> string" where
  "name_or app n = (case n of Some d \<Rightarrow> d | None \<Rightarrow> app)"

fun validate_check :: "manifest \<Rightarrow> check \<Rightarrow> assertion_rule + unit" where
  "validate_check m (CheckHttp path port status pointer equals _ host) =
     in_turn
       [require (case host of None \<Rightarrow> True
                 | Some h \<Rightarrow> h \<noteq> [] \<and> list_all (\<lambda>c. is_ascii_alphanumeric c \<or> c = CHR ''.'' \<or> c = CHR ''-'') h)
          HostShape,
        require (is_absolute path) PathNotAbsolute,
        require (\<not> (port = None \<and> sp_ingress (mf_spec m) = [])) NoPort,
        require (status \<noteq> []) NoStatus,
        (case (pointer, equals) of
           (Some p, Some _) \<Rightarrow> require (is_absolute p) PointerShape
         | (Some _, None) \<Rightarrow> Inl PointerAlone
         | (None, Some _) \<Rightarrow> Inl PointerAlone
         | (None, None) \<Rightarrow> Inr ())]"
| "validate_check m (CheckEnv name equals) =
     (case bt_get (sp_env (mf_spec m)) name of
        None \<Rightarrow> Inl EnvAbsent
      | Some v \<Rightarrow> require (v = equals) EnvDiffers)"
| "validate_check m (CheckSql query database _) =
     (let databases = declared_databases m in
      in_turn
        [require (databases \<noteq> []) NoDatabase,
         (case database of
            None \<Rightarrow> require (\<not> 1 < length databases) WhichDatabase
          | Some d \<Rightarrow> require (list_ex (\<lambda>n. name_or (app_name m) n = d) databases) UnknownDatabase),
         require (one_statement ''select '' query) NotOneSelect])"

definition validate_assertions :: "manifest \<Rightarrow> (string \<times> assertion_rule) + unit" where
  "validate_assertions m =
     each_after (\<lambda>seen a. under (Pair (as_id a))
       (in_turn
         [require (ident (as_id a)) AssertionId,
          require (as_id a \<notin> as_id ` set seen) AssertionTwice,
          require (trim (as_holds a) \<noteq> []) HoldsEmpty,
          validate_check m (as_check a)]))
       [] (sp_assertions (mf_spec m))"


section \<open>Signing in with a token\<close>

datatype (plugins only: code) sign_in_rule =
    NoSuchRecovery | NoProof | ProofIsBasic | TokenInNoHeader | HeaderToken string
  | NoIngress | PointerOf string | DisabledEmpty | WriteVerb | LinksPath
  | AccountToken string string | NoAccount string | AccountPath string

definition token_sign_in ::
  "manifest \<Rightarrow> string \<Rightarrow> (string, string) btree_map \<Rightarrow> sign_in_rule + unit" where
  "token_sign_in m secret headers =
     (case find (\<lambda>r. rl_secret r = secret) (sp_recovery (mf_spec m)) of
        None \<Rightarrow> Inl NoSuchRecovery
      | Some r \<Rightarrow>
          (case rl_proof r of
             None \<Rightarrow> Inl NoProof
           | Some proof \<Rightarrow>
               in_turn
                 [require (\<not> si_basic proof) ProofIsBasic,
                  require (list_ex (\<lambda>v. str_contains v ''{{ token }}'') (bt_values headers)) TokenInNoHeader]))"

definition token_headers :: "(string, string) btree_map \<Rightarrow> bool \<Rightarrow> sign_in_rule + unit" where
  "token_headers headers signed_in =
     each (\<lambda>(name, val).
       each (\<lambda>t. require (until_close t = '' token '' \<and> signed_in) (HeaderToken name)) (after_braces val))
       headers"

fun validate_accounts :: "manifest \<Rightarrow> accounts_apply \<Rightarrow> sign_in_rule + unit" where
  "validate_accounts m (AccountsHttp sign_in headers links read disabled write) =
     in_turn
       [require (sp_ingress (mf_spec m) \<noteq> []) NoIngress,
        token_sign_in m sign_in headers,
        token_headers headers True,
        each (\<lambda>(what, pointer). require (pointer = [] \<or> is_absolute pointer) (PointerOf what))
          [(''links'', at_pointer links), (''read'', at_pointer read), (''disabled'', disabled)],
        require (disabled \<noteq> []) DisabledEmpty,
        require (write_verb write \<in> {''POST'', ''PUT'', ''PATCH''}) WriteVerb,
        require (placeholders (at_path links) = []) LinksPath,
        each (\<lambda>(what, path).
          in_turn
            [each (\<lambda>t. require (t \<in> set ACCOUNT_TOKENS) (AccountToken what t)) (placeholders path),
             require (''account'' \<in> set (placeholders path)) (NoAccount what)])
          [(''read'', at_path read), (''write'', write_path write)],
        each (\<lambda>path. require (is_absolute path) (AccountPath path))
          [at_path links, at_path read, write_path write]]"


section \<open>Access\<close>

datatype (plugins only: code) access_rule =
    SignsNobodyIn | BehindThePortal | AccountsRefused sign_in_rule | AdminsBelowFloor | AdminsMeans
  | AdminsCommands | AdminsService | AdminsToken string | ClaimName string | ClaimReserved string
  | QuotaClaimTwice | ClaimNoValueAtFloor string | ClaimEmptyValue string | ClaimToken string string
  | ClaimExactlyOne string | QuotaReachesNobody | QuotaNoCommand | QuotaNoDatabase
  | QuotaWhichDatabase | QuotaUnknownDatabase | QuotaNotOneUpdate | QuotaSubjectUnquoted
  | QuotaToken string | QuotaTokensMissing

fun sso_mode_in :: "capability \<Rightarrow> sso_mode option" where
  "sso_mode_in (Sso mode _) = Some mode"
| "sso_mode_in _ = None"

text \<open>\<open>find_map\<close>: the mode of the first such requirement.\<close>

definition sso_mode_of_app :: "manifest \<Rightarrow> sso_mode option" where
  "sso_mode_of_app m =
     (case List.map_filter sso_mode_in (requires_of m) of [] \<Rightarrow> None | mode # _ \<Rightarrow> Some mode)"

definition validate_admins :: "manifest \<Rightarrow> access \<Rightarrow> admins \<Rightarrow> access_rule + unit" where
  "validate_admins m a admins =
     in_turn
       [require (\<not> adm_level admins < acc_floor a) AdminsBelowFloor,
        require (trim (adm_means admins) \<noteq> []) AdminsMeans,
        (case adm_apply admins of
           None \<Rightarrow> Inr ()
         | Some how \<Rightarrow>
             in_turn
               [require (adm_grant how \<noteq> [] \<and> adm_revoke how \<noteq> []) AdminsCommands,
                (case adm_service how of
                   None \<Rightarrow> Inr ()
                 | Some s \<Rightarrow> require (list_ex (\<lambda>c. co_name c = s) (sp_companions (mf_spec m))) AdminsService),
                each (\<lambda>t. require (t \<in> set ADMIN_TOKENS) (AdminsToken t))
                  (placeholders (join_with '' '' (adm_grant how @ adm_revoke how)))])]"

definition validate_claim ::
  "(json \<Rightarrow> string) \<Rightarrow> access \<Rightarrow> string \<times> claim \<Rightarrow> access_rule + unit" where
  "validate_claim print_json a nc =
     (let (name, claim) = nc in
      case (claim_by_level claim, claim_json claim) of
        (Some levels, None) \<Rightarrow>
          in_turn
            [require (list_ex (\<lambda>(k, _). k \<le> acc_floor a) levels) (ClaimNoValueAtFloor name),
             require (\<not> list_ex (\<lambda>v. trim v = []) (bt_values levels)) (ClaimEmptyValue name)]
      | (None, Some v) \<Rightarrow>
          each (\<lambda>t. require (t \<in> set ROLE_TOKENS) (ClaimToken name t)) (placeholders (print_json v))
      | _ \<Rightarrow> Inl (ClaimExactlyOne name))"

definition quota_claim_name :: "access \<Rightarrow> string option" where
  "quota_claim_name a =
     (case acc_quota a of None \<Rightarrow> None | Some q \<Rightarrow> map_option qc_name (quota_claim_of q))"

fun quota_text :: "manifest \<Rightarrow> quota_apply option \<Rightarrow> access_rule + string" where
  "quota_text m None = Inr []"
| "quota_text m (Some (ApplyExec command _)) =
     (if command = [] then Inl QuotaNoCommand else Inr (join_with '' '' command))"
| "quota_text m (Some (ApplySql statement database _)) =
     (let databases = map (name_or (app_name m)) (declared_databases m) in
      and_then
        (in_turn
          [require (databases \<noteq> []) QuotaNoDatabase,
           (case database of
              None \<Rightarrow> require (\<not> 1 < length databases) QuotaWhichDatabase
            | Some d \<Rightarrow> require (d \<in> set databases) QuotaUnknownDatabase),
           require (one_statement ''update '' statement) QuotaNotOneUpdate,
           require (str_contains statement ([CHR 0x27] @ ''{{ person.sub }}'' @ [CHR 0x27]))
             QuotaSubjectUnquoted])
        (\<lambda>_. Inr statement))"

definition validate_quota :: "manifest \<Rightarrow> quota \<Rightarrow> access_rule + unit" where
  "validate_quota m q =
     and_then (require (\<not> (quota_claim_of q = None \<and> quota_apply_of q = None)) QuotaReachesNobody) (\<lambda>_.
     and_then (quota_text m (quota_apply_of q)) (\<lambda>text.
       in_turn
         [each (\<lambda>t. require (t \<in> set QUOTA_TOKENS) (QuotaToken t)) (placeholders text),
          require (\<not> (quota_apply_of q \<noteq> None \<and> list_ex (\<lambda>t. t \<notin> set (placeholders text)) QUOTA_TOKENS))
            QuotaTokensMissing]))"

definition claim_char :: "char \<Rightarrow> bool" where
  "claim_char c \<longleftrightarrow> is_ascii_lowercase c \<or> is_ascii_digit c \<or> c = CHR ''_''"

definition validate_access_of ::
  "(json \<Rightarrow> string) \<Rightarrow> manifest \<Rightarrow> access \<Rightarrow> access_rule + unit" where
  "validate_access_of print_json m a =
     (let mode = sso_mode_of_app m; native = (mode = Some SsoNative) in
      in_turn
        [require (mode \<in> {Some SsoNative, Some SsoProxyOnly, Some SsoProxyHeader}) SignsNobodyIn,
         require (\<not> (\<not> native \<and> (acc_claims a \<noteq> [] \<or> acc_quota a \<noteq> None \<or> acc_members a \<noteq> None \<or>
                                acc_accounts a \<noteq> None))) BehindThePortal,
         (case acc_accounts a of
            None \<Rightarrow> Inr ()
          | Some accounts \<Rightarrow> under AccountsRefused (validate_accounts m (accounts_apply_of accounts))),
         (case acc_admins a of None \<Rightarrow> Inr () | Some admins \<Rightarrow> validate_admins m a admins),
         each (\<lambda>name.
           in_turn
             [require (name \<noteq> [] \<and> list_all claim_char name) (ClaimName name),
              require (name \<notin> set RESERVED_CLAIMS) (ClaimReserved name)])
           (bt_keys (acc_claims a) @ (case quota_claim_name a of None \<Rightarrow> [] | Some q \<Rightarrow> [q])),
         require (\<not> (case quota_claim_name a of None \<Rightarrow> False | Some q \<Rightarrow> q \<in> set (bt_keys (acc_claims a))))
           QuotaClaimTwice,
         each (validate_claim print_json a) (acc_claims a),
         (case acc_quota a of None \<Rightarrow> Inr () | Some q \<Rightarrow> validate_quota m q)])"

definition validate_access :: "(json \<Rightarrow> string) \<Rightarrow> manifest \<Rightarrow> access_rule + unit" where
  "validate_access print_json m =
     (case sp_access (mf_spec m) of
        None \<Rightarrow> Inr ()
      | Some a \<Rightarrow> validate_access_of print_json m a)"

end
