(* ===== verification/Plan.thy ===== *)
theory Plan
  imports Binding
begin

text \<open>
  The execution plan (\<open>crates/hlb-resolver/src/plan.rs\<close>): the actions with their fields, the
  text each is described by, and what a plan says of itself. A structured variant with many
  fields is a constructor over a record of them. Texts are UTF-8 bytes, so the few symbols
  outside ASCII are written as their encodings.
\<close>

section \<open>Actions\<close>

record service_deployment =
  ds_name :: string
  ds_image :: string
  ds_replicas :: u64
  ds_constraints :: "string list"
  ds_env :: "(string \<times> string) list"
  ds_mounts :: "(string \<times> string) list"
  ds_hardening :: security_spec
  ds_healthcheck :: "healthcheck option"
  ds_files :: "(string \<times> string) list"
  ds_command :: "string list"
  ds_args :: "string list"
  ds_process :: process
  ds_memory :: "memory option"

record fetch =
  fd_app :: string
  fd_volume :: string
  fd_url :: string
  fd_sha256 :: string
  fd_into :: string
  fd_unzip :: bool
  fd_constraints :: "string list"
  fd_mounts :: "(string \<times> string) list"

datatype (plugins only: code) action =
    ProvisionDatabase (pd_engine: db_engine) (pd_database: string) (pd_role: string)
      (pd_password_secret: string) (pd_extensions: "string list")
      (pd_connection_limit: "u32 option")
  | ProvisionBucket (pb_bucket: string) (pb_key_name: string) (pb_secret_name: string)
      (pb_expire_after_days: "u32 option")
  | GenerateSecret (sec_name: string) (sec_purpose: string)
  | CreateOidcClient (oidc_app: string) (oidc_redirect_uris: "string list")
  | AddPortalCallback (portal_uri: string)
  | CreateVolume (vol_name: string) (vol_path: string) (vol_tier: storage_tier)
      (vol_backup: bool) (vol_sqlite: bool)
  | ProvisionSmtpAccount (smtp_address: string) (smtp_secret_name: string)
  | ProvisionMailAccount (mail_address: string) (mail_with_aliases: bool)
      (mail_quota_bytes: "u64 option")
  | DeployService (deployed: service_deployment)
  | FetchDownload (fetched: fetch)
  | ResolveDigest (dig_repo: string) (dig_tag: string)
  | WaitHealthy (wait_name: string) (wait_timeout_secs: u64)
  | ConfigureIngress (ci_host: string) (ci_service: string) (ci_port: u16) (ci_public: bool)
  | PendingGuideStep (pg_id: string) (pg_title: string) (pg_blocking: bool)
      (pg_service: string) (pg_step: guide_step)

fun is_mutating :: "action \<Rightarrow> bool" where
  "is_mutating (WaitHealthy _ _) = False"
| "is_mutating (PendingGuideStep _ _ _ _ _) = False"
| "is_mutating _ = True"


section \<open>What an action is described by\<close>

definition right_arrow :: string where
  "right_arrow = [CHR 0xE2, CHR 0x86, CHR 0x92]"

definition times_sign :: string where
  "times_sign = [CHR 0xC3, CHR 0x97]"

definition red_circle :: string where
  "red_circle = [CHR 0xF0, CHR 0x9F, CHR 0x94, CHR 0xB4]"

definition orange_circle :: string where
  "orange_circle = [CHR 0xF0, CHR 0x9F, CHR 0x9F, CHR 0xA0]"

definition show_word :: "'a::len word \<Rightarrow> string" where
  "show_word w = show_nat (unat w)"

fun show_tier :: "storage_tier \<Rightarrow> string" where
  "show_tier TierLocal = ''Local''"
| "show_tier TierNfs = ''Nfs''"

text \<open>What a deployment says between brackets, in the order it says it.\<close>

definition deployment_notes :: "service_deployment \<Rightarrow> string list" where
  "deployment_notes d =
     (let h = ds_hardening d in
      (if sec_read_only_rootfs h then [''rootfs ro''] else []) @
      (if sec_tmpfs h \<noteq> [] then [''tmpfs '' @ join_with '', '' (map tmpfs_to_string (sec_tmpfs h))] else []) @
      (if proc_sysctls (ds_process d) \<noteq> []
       then [''sysctl '' @ join_with '', '' (map (\<lambda>(k, v). k @ ''='' @ v) (proc_sysctls (ds_process d)))] else []) @
      (if sec_no_new_privileges h then [''no-new-privileges''] else []) @
      (if sec_cap_drop h \<noteq> [] then [''cap_drop '' @ join_with ''+'' (sec_cap_drop h)] else []) @
      (if sec_cap_add h \<noteq> [] then [''cap_add '' @ join_with ''+'' (sec_cap_add h)] else []) @
      (if sec_published_ports h \<noteq> []
       then [''ports '' @ join_with '', '' (map port_to_string (sec_published_ports h)) @ '' on the node''] else []) @
      (if ds_healthcheck d \<noteq> None then [''probe''] else []) @
      (case ds_memory d of
         Some m \<Rightarrow> [''memory '' @ bytes_to_string (mem_reserve m) @ '' reserved, '' @ bytes_to_string (mem_limit m) @ '' at most'']
       | None \<Rightarrow> []) @
      (if ds_files d \<noteq> [] then [''files '' @ join_with '', '' (map fst (ds_files d))] else []) @
      (if ds_command d \<noteq> [] then [''runs '' @ join_with '' '' (ds_command d)] else []) @
      (if ds_args d \<noteq> [] then [''arguments '' @ join_with '' '' (ds_args d)] else []) @
      (if ds_env d \<noteq> [] then [show_nat (length (ds_env d)) @ '' variables''] else []) @
      map (\<lambda>(vol, path). vol @ right_arrow @ path) (ds_mounts d))"

fun action_display :: "action \<Rightarrow> string" where
  "action_display (ProvisionDatabase engine database role password_secret extensions limit) =
     ''create database '' @ database @ '' on '' @ db_service_name engine @ '' with role '' @ role @
     '' (isolated, password '' @ password_secret @ '')'' @
     (if extensions \<noteq> [] then '' + extensions '' @ join_with '', '' extensions else []) @
     (case limit of Some n \<Rightarrow> '', at most '' @ show_word n @ '' connections'' | None \<Rightarrow> [])"
| "action_display (ProvisionBucket bucket key_name secret_name expire) =
     ''create bucket '' @ bucket @ '' with isolated key '' @ key_name @ '' (secret '' @ secret_name @
     '') '' @ em_dash @ '' Garage given its layout first if it has none'' @
     (case expire of Some d \<Rightarrow> '', its objects deleted after '' @ show_word d @ '' days'' | None \<Rightarrow> [])"
| "action_display (GenerateSecret name purpose) =
     ''generate secret '' @ name @ '' ('' @ purpose @ '')''"
| "action_display (CreateOidcClient app uris) =
     ''create OIDC client '' @ quote_mark @ app @ quote_mark @ '' in PocketID '' @ right_arrow @ '' '' @
     join_with '', '' uris"
| "action_display (AddPortalCallback uri) =
     ''allow '' @ uri @ '' on the portal'' @ [CHR 0x27] @ ''s OIDC client in PocketID''"
| "action_display (CreateVolume name path tier backup sqlite) =
     ''create volume '' @ name @ '' at '' @ path @ '' (tier '' @ show_tier tier @ '', backup '' @
     (if backup then ''on'' else ''off'') @ (if sqlite then '', SQLite snapshot'' else []) @ '')''"
| "action_display (ProvisionSmtpAccount address _) =
     ''create sending account '' @ address @ '', tried on port 587''"
| "action_display (ProvisionMailAccount address aliases quota) =
     ''create mailbox '' @ address @ (if aliases then '' with aliases'' else []) @
     (case quota of Some q \<Rightarrow> '' [quota '' @ show_word q @ '' B - NOT ENFORCED]'' | None \<Rightarrow> [])"
| "action_display (DeployService d) =
     ''deploy '' @ ds_name d @ '' '' @ times_sign @ show_word (ds_replicas d) @ '' from '' @ ds_image d @
     (if ds_constraints d \<noteq> [] then '' ['' @ join_with '', '' (ds_constraints d) @ '']'' else []) @
     (let notes = deployment_notes d in
      if notes \<noteq> [] then '' ('' @ join_with '', '' notes @ '')'' else [])"
| "action_display (FetchDownload f) =
     ''fetch '' @ fd_url f @ '' (sha256 '' @ fd_sha256 f @ '') '' @
     (if fd_unzip f then ''unzipped into'' else ''into'') @ '' '' @ fd_volume f @ ''/'' @ fd_into f @
     '', replacing it''"
| "action_display (ResolveDigest repo tag) =
     ''resolve the digest of '' @ repo @ '':'' @ tag @ '' against the registry''"
| "action_display (WaitHealthy name timeout) =
     ''wait for '' @ name @ '' to become healthy (max '' @ show_word timeout @ '' s)''"
| "action_display (ConfigureIngress host service port public) =
     ''route '' @ host @ '' '' @ right_arrow @ '' '' @ service @ '':'' @ show_word port @ '' ('' @
     (if public then ''public'' else ''VPN only'') @ '')''"
| "action_display (PendingGuideStep i title blocking _ step) =
     (if blocking then red_circle else orange_circle) @ '' '' @
     (if is_automatable step then ''action'' else ''manual action'') @ '' '' @
     quote_mark @ title @ quote_mark @ '' ['' @ i @ '']''"


section \<open>Plans\<close>

type_synonym plan = "action list"

fun is_blocking_step :: "action \<Rightarrow> bool" where
  "is_blocking_step (PendingGuideStep _ _ blocking _ _) = blocking"
| "is_blocking_step _ = False"

definition blocking_steps :: "plan \<Rightarrow> action list" where
  "blocking_steps p = filter is_blocking_step p"

fun is_pre_install_blocker :: "action \<Rightarrow> bool" where
  "is_pre_install_blocker (PendingGuideStep _ _ blocking _ step) \<longleftrightarrow>
     blocking \<and> step_phase step = PreInstall"
| "is_pre_install_blocker _ = False"

definition pre_install_blockers :: "plan \<Rightarrow> action list" where
  "pre_install_blockers p = filter is_pre_install_blocker p"

definition mutating_count :: "plan \<Rightarrow> nat" where
  "mutating_count p = length (filter is_mutating p)"

text \<open>
  The preview. \<open>{:>2}\<close> pads to two characters on the left; \<open>len() - before\<close> is a subtraction
  of \<open>usize\<close>, \<open>None\<close> here where it would underflow.
\<close>

definition pad2 :: "string \<Rightarrow> string" where
  "pad2 s = replicate (2 - length s) CHR '' '' @ s"

definition newline :: string where
  "newline = [CHR 0x0A]"

definition plural :: "nat \<Rightarrow> string" where
  "plural n = (if n = 1 then ''action'' else ''actions'')"

fun numbered :: "nat \<Rightarrow> plan \<Rightarrow> string" where
  "numbered i [] = []"
| "numbered i (a # p) =
     ''  '' @ pad2 (show_nat (i + 1)) @ ''. '' @ action_display a @ newline @ numbered (i + 1) p"

definition checked_sub :: "nat \<Rightarrow> nat \<Rightarrow> nat option" where
  "checked_sub a b = (if b \<le> a then Some (a - b) else None)"

definition plan_display :: "plan \<Rightarrow> string option" where
  "plan_display p =
     (if p = [] then Some (''No action: the desired state is already reached.'' @ newline)
      else
        (let before = length (pre_install_blockers p) in
         case checked_sub (length (blocking_steps p)) before of
           None \<Rightarrow> None
         | Some after \<Rightarrow>
             Some (show_nat (length p) @ '' '' @ plural (length p) @ '', '' @
               show_nat (mutating_count p) @ '' of them mutating:'' @ newline @ newline @
               numbered 0 p @
               (if before > 0
                then newline @ red_circle @ '' '' @ show_nat before @ '' prerequisite '' @ plural before @
                  '': the installation will not start first.'' @ newline
                else []) @
               (if after > 0
                then newline @ orange_circle @ '' '' @ show_nat after @ '' blocking manual '' @ plural after @
                  '' once it runs: until then, a route meant to open after them stays private.'' @ newline
                else []))))"

lemma pre_install_blocker_blocks: "is_pre_install_blocker a \<Longrightarrow> is_blocking_step a"
  by (cases a) auto

lemma length_filter_mono:
  "(\<And>x. P x \<Longrightarrow> Q x) \<Longrightarrow> length (filter P xs) \<le> length (filter Q xs)"
  by (induction xs) auto

text \<open>The preview of every plan is printed: the count of later steps never underflows.\<close>

lemma plan_display_total: "\<exists>t. plan_display p = Some t"
proof -
  have "length (pre_install_blockers p) \<le> length (blocking_steps p)"
    unfolding pre_install_blockers_def blocking_steps_def
    by (rule length_filter_mono) (rule pre_install_blocker_blocks)
  then show ?thesis by (simp add: plan_display_def checked_sub_def Let_def)
qed

text \<open>A step that only waits or only asks a person changes nothing: everything else is counted.\<close>

lemma mutating_count_split:
  "length p = mutating_count p + length (filter (\<lambda>a. \<not> is_mutating a) p)"
  by (simp add: mutating_count_def sum_length_filter_compl)

end
