(* ===== verification/Validate.thy ===== *)
theory Validate
  imports Validate_Access Plan
begin

text \<open>
  The rules a manifest is held to (\<open>crates/hlb-types/src/lib.rs\<close>: \<open>validate_with_guide\<close>,
  \<open>declared_and_read\<close>, \<open>validate_downloads\<close>, \<open>validate_process\<close>, \<open>validate_catalog_images\<close>,
  \<open>validate_catalog_memory\<close>, \<open>validate_pinned\<close>), in the order the code checks them.
\<close>

section \<open>Rules\<close>

datatype (plugins only: code) process_rule =
    GraceTooLong | SignalName | WorkingDir | Hostname | UlimitName string | UlimitSoft string
  | SysctlName string | SysctlValue string | ProcessGroup string

datatype (plugins only: code) download_rule =
  NotHttps | NotPlainUrl | NotSha256 | NotOwnVolume | NotRelative | NoFileName | Overlaps

datatype tmpfs_rule = NotAbsoluteDir | GivenTwice | HidesVolume | OverMemory

datatype signer_rule = NotOwnerRepository | NotWorkflowFile

datatype (plugins only: code) rule =
    HeaderAuthPublishes "published_port list"
  | PortTwiceOrZero published_port
  | TmpfsRefused string string tmpfs_rule
  | SignerRefused string signer_rule
  | DownloadRefused string download_rule
  | NativeNoRedirect
  | TokenUndeclared token string
  | SentAsPerson token
  | NothingReads string
  | RollbackOff
  | WatchesUpstream
  | TwoEngines
  | SeveralDatabases token
  | BucketTwice string
  | BucketExpiresAtOnce string
  | SeveralBuckets
  | MailAliases
  | RedirectUnread
  | ReservedName
  | MalformedSecret string
  | FileNotAbsolute string string
  | FileTwice string string
  | SharedEnvUntaken
  | CommandToken string
  | ProcessRefused string process_rule
  | CompanionName string
  | CompanionTwice string
  | ForeignVolume string string
  | EngineCopiesCompanion string string
  | CopyUnread string
  | SqliteOnNfs string
  | ReplicasOverLocal string
  | ChainLink string
  | PathShape string
  | PathCompanion string string
  | PathTwiceOrZero string
  | NodeLabel string
  | JobRefused string
  | AssertionRefused string assertion_rule
  | AccessRefused access_rule
  | LatestChannel
  | OpenPath string
  | RouteNoPath
  | RoutePath string
  | RouteCode u16
  | MemoryOver string
  | MaturationShort
  | ImageUnpinned string
  | MemoryUndeclared string
  | DigestUnresolved


section \<open>Declared and read\<close>

fun database_engine :: "capability \<Rightarrow> db_engine option" where
  "database_engine (Database engine _ _ _) = Some engine"
| "database_engine _ = None"

fun bucket_of :: "string \<Rightarrow> capability \<Rightarrow> (string \<times> u32 option) option" where
  "bucket_of app (ObjectStorage bucket _ expire) = Some (bucket_name bucket app, expire)"
| "bucket_of app _ = None"

definition texts_use :: "manifest \<Rightarrow> string \<Rightarrow> bool" where
  "texts_use m ph = list_ex (\<lambda>v. str_contains v ph) (substituted (mf_spec m))"

fun unread_field :: "capability \<Rightarrow> rule + unit" where
  "unread_field (MailAccount _ aliases) = require (\<not> aliases) MailAliases"
| "unread_field (Sso mode redirect_paths) =
     require (\<not> (mode \<noteq> SsoNative \<and> redirect_paths \<noteq> [])) RedirectUnread"
| "unread_field _ = Inr ()"

definition declared_and_read :: "manifest \<Rightarrow> token list \<Rightarrow> rule + unit" where
  "declared_and_read m used =
     (let databases = List.map_filter database_engine (requires_of m);
          buckets = List.map_filter (bucket_of (app_name m)) (requires_of m) in
      in_turn
        [require (up_auto_rollback (sp_update (mf_spec m))) RollbackOff,
         require (up_watch_upstream (sp_update (mf_spec m)) = None) WatchesUpstream,
         (if 1 < length databases
          then in_turn
            [require (\<not> (list_ex (\<lambda>e. e \<noteq> hd databases) databases \<and>
                        list_ex (\<lambda>t. token_requires t = Some ''database'') used)) TwoEngines,
             (case find (\<lambda>t. t = DbName \<or> t = DbUrl) used of
                None \<Rightarrow> Inr () | Some t \<Rightarrow> Inl (SeveralDatabases t))]
          else Inr ()),
         each_after (\<lambda>seen (name, expire).
           in_turn
             [require (name \<notin> fst ` set seen) (BucketTwice name),
              require (expire \<noteq> Some 0) (BucketExpiresAtOnce name)]) [] buckets,
         require (\<not> (1 < length buckets \<and> texts_use m ''{{ s3.bucket }}'')) SeveralBuckets,
         each unread_field (requires_of m)])"


section \<open>Downloads\<close>

definition segment_char :: "char \<Rightarrow> bool" where
  "segment_char c \<longleftrightarrow> is_ascii_alphanumeric c \<or> c \<in> {CHR ''-'', CHR ''_'', CHR ''.''}"

definition segment_ok :: "string \<Rightarrow> bool" where
  "segment_ok s \<longleftrightarrow> s \<noteq> [] \<and> \<not> dot_segment s \<and> list_all segment_char s"

definition within :: "string \<Rightarrow> string \<Rightarrow> bool" where
  "within a b \<longleftrightarrow> a = b \<or> starts_with a (b @ ''/'')"

definition sha256_char :: "char \<Rightarrow> bool" where
  "sha256_char c \<longleftrightarrow> is_ascii_digit c \<or> (97 \<le> (of_char c :: nat) \<and> (of_char c :: nat) \<le> 102)"

definition plain_url :: "string \<Rightarrow> string \<Rightarrow> bool" where
  "plain_url url rest \<longleftrightarrow>
     \<not> (length (split_char CHR ''/'' rest) < 2 \<or> starts_with rest ''/'' \<or>
        list_ex (\<lambda>c. is_ascii_whitespace c \<or> is_ascii_control c) url \<or>
        CHR ''?'' \<in> set url \<or> CHR ''#'' \<in> set url)"

fun owns_storage :: "string \<Rightarrow> capability \<Rightarrow> bool" where
  "owns_storage s (Storage name _ _ _ _ _ None) \<longleftrightarrow> name = s"
| "owns_storage s _ \<longleftrightarrow> False"

definition validate_download :: "manifest \<Rightarrow> download list \<Rightarrow> download \<Rightarrow> download_rule + unit" where
  "validate_download m seen d =
     (case strip_prefix (dl_url d) ''https://'' of
        None \<Rightarrow> Inl NotHttps
      | Some rest \<Rightarrow>
          in_turn
            [require (plain_url (dl_url d) rest) NotPlainUrl,
             require (length (dl_sha256 d) = 64 \<and> list_all sha256_char (dl_sha256 d)) NotSha256,
             require (list_ex (owns_storage (dl_storage d)) (requires_of m)) NotOwnVolume,
             require (list_all segment_ok (split_char CHR ''/'' (dl_into d))) NotRelative,
             require (\<not> (\<not> dl_unzip d \<and> \<not> segment_ok (download_file_name d))) NoFileName,
             require (\<not> list_ex (\<lambda>e. dl_storage e = dl_storage d \<and>
                        (within (dl_into d) (dl_into e) \<or> within (dl_into e) (dl_into d))) seen) Overlaps])"

definition validate_downloads :: "manifest \<Rightarrow> rule + unit" where
  "validate_downloads m =
     each_after (\<lambda>seen d. under (DownloadRefused (dl_url d)) (validate_download m seen d)) []
       (sp_downloads (mf_spec m))"


section \<open>The process\<close>

definition ULIMITS :: "string list" where
  "ULIMITS =
     [''core'', ''cpu'', ''data'', ''fsize'', ''locks'', ''memlock'', ''msgqueue'', ''nice'', ''nofile'',
      ''nproc'', ''rss'', ''rtprio'', ''rttime'', ''sigpending'', ''stack'']"

definition signal_name :: "string \<Rightarrow> bool" where
  "signal_name sig \<longleftrightarrow>
     (let rest = (case strip_prefix sig ''SIG'' of Some r \<Rightarrow> r | None \<Rightarrow> []) in
      rest \<noteq> [] \<and> list_all (\<lambda>c. is_ascii_uppercase c \<or> is_ascii_digit c \<or> c = CHR ''+'') rest)"

definition host_label :: "string \<Rightarrow> bool" where
  "host_label h \<longleftrightarrow>
     h \<noteq> [] \<and> length h \<le> 63 \<and> \<not> starts_with h ''-'' \<and> \<not> suffix ''-'' h \<and> list_all ident_char h"

definition sysctl_name :: "string \<Rightarrow> bool" where
  "sysctl_name key \<longleftrightarrow>
     (case strip_prefix key ''net.'' of
        None \<Rightarrow> False
      | Some k \<Rightarrow> k \<noteq> [] \<and> list_all segment_char k)"

definition group_name :: "string \<Rightarrow> bool" where
  "group_name g \<longleftrightarrow>
     g \<noteq> [] \<and> list_all (\<lambda>c. is_ascii_lowercase c \<or> is_ascii_digit c \<or> c = CHR ''_'' \<or> c = CHR ''-'') g"

definition opt_check :: "('x \<Rightarrow> 'e + unit) \<Rightarrow> 'x option \<Rightarrow> 'e + unit" where
  "opt_check f v = (case v of None \<Rightarrow> Inr () | Some x \<Rightarrow> f x)"

lemma opt_check_Inr [simp]: "opt_check f v = Inr () \<longleftrightarrow> (\<forall>x. v = Some x \<longrightarrow> f x = Inr ())"
  by (cases v) (auto simp: opt_check_def)

definition validate_process :: "process \<Rightarrow> process_rule + unit" where
  "validate_process p =
     in_turn
       [opt_check (\<lambda>s. require (\<not> 3600 < s) GraceTooLong) (proc_stop_grace_secs p),
        opt_check (\<lambda>sig. require (signal_name sig) SignalName) (proc_stop_signal p),
        opt_check (\<lambda>dir. require (is_absolute dir \<and> \<not> list_ex dot_segment (split_char CHR ''/'' dir)) WorkingDir)
          (proc_working_dir p),
        opt_check (\<lambda>h. require (host_label h) Hostname) (proc_hostname p),
        each (\<lambda>(name, l).
          in_turn
            [require (name \<in> set ULIMITS) (UlimitName name),
             require (\<not> ul_hard l < ul_soft l) (UlimitSoft name)]) (proc_ulimits p),
        each (\<lambda>(key, val).
          in_turn
            [require (sysctl_name key) (SysctlName key),
             require (\<not> (val = [] \<or> CHR 0x0A \<in> set val \<or> CHR 0x0D \<in> set val)) (SysctlValue key)])
          (proc_sysctls p),
        each (\<lambda>g. require (group_name g) (ProcessGroup g)) (proc_groups p)]"


section \<open>The parts of the manifest rules\<close>

fun header_sso :: "capability \<Rightarrow> bool" where
  "header_sso (Sso mode _) = requires_network_isolation mode"
| "header_sso _ = False"

definition header_auth :: "manifest \<Rightarrow> bool" where
  "header_auth m = list_ex header_sso (requires_of m)"

definition securities :: "manifest \<Rightarrow> security_spec list" where
  "securities m = sp_security (mf_spec m) # map co_security (sp_companions (mf_spec m))"

definition published :: "manifest \<Rightarrow> published_port list" where
  "published m = concat (map sec_published_ports (securities m))"

definition check_ports :: "manifest \<Rightarrow> rule + unit" where
  "check_ports m =
     in_turn
       [require (\<not> (header_auth m \<and> published m \<noteq> [])) (HeaderAuthPublishes (published m)),
        each_after (\<lambda>seen p. require (\<not> (pp_port p = 0 \<or> p \<in> set seen)) (PortTwiceOrZero p)) []
          (published m)]"

fun storage_path :: "capability \<Rightarrow> string option" where
  "storage_path (Storage _ path _ _ _ _ _) = Some path"
| "storage_path _ = None"

text \<open>Each service of the app: its name, its security, its memory and its volumes' paths.\<close>

definition tmpfs_services ::
  "manifest \<Rightarrow> (string \<times> security_spec \<times> memory option \<times> string list) list" where
  "tmpfs_services m =
     (app_name m, sp_security (mf_spec m), sw_memory (sp_swarm (mf_spec m)),
      List.map_filter storage_path (requires_of m)) #
     map (\<lambda>c. (co_name c, co_security c, co_memory c, map cv_path (co_storage c)))
       (sp_companions (mf_spec m))"

definition clean_dir :: "string \<Rightarrow> bool" where
  "clean_dir dir \<longleftrightarrow>
     is_absolute dir \<and> dir \<noteq> ''/'' \<and> \<not> list_ex dot_segment (split_char CHR ''/'' dir)"

definition over_limit :: "nat option \<Rightarrow> memory option \<Rightarrow> bool" where
  "over_limit sz mem \<longleftrightarrow>
     (case (sz, mem) of (Some s, Some m) \<Rightarrow> mem_limit m < s | _ \<Rightarrow> False)"

definition check_tmpfs :: "manifest \<Rightarrow> rule + unit" where
  "check_tmpfs m =
     each (\<lambda>(service, security, mem, volumes).
       each_after (\<lambda>seen t.
         under (TmpfsRefused service (tm_path t))
           (in_turn
              [require (clean_dir (tm_path t)) NotAbsoluteDir,
               require (\<not> list_ex (\<lambda>e. tm_path e = tm_path t) seen) GivenTwice,
               require (tm_path t \<notin> set volumes) HidesVolume,
               require (\<not> over_limit (tm_size t) mem) OverMemory]))
         [] (sec_tmpfs security)) (tmpfs_services m)"

definition signer_name :: "string \<Rightarrow> bool" where
  "signer_name p \<longleftrightarrow> p \<noteq> [] \<and> \<not> starts_with p ''.'' \<and> list_all segment_char p"

definition all_images :: "manifest \<Rightarrow> image list" where
  "all_images m = sp_image (mf_spec m) # map co_image (sp_companions (mf_spec m))"

definition workflow_file :: "string \<Rightarrow> string option" where
  "workflow_file w =
     (case strip_suffix w ''.yml'' of Some f \<Rightarrow> Some f | None \<Rightarrow> strip_suffix w ''.yaml'')"

definition check_signer :: "image_signer \<Rightarrow> signer_rule + unit" where
  "check_signer s =
     in_turn
       [require (case split_once CHR ''/'' (signer_github s) of
                   Some (own, repo) \<Rightarrow> signer_name own \<and> signer_name repo
                 | None \<Rightarrow> False) NotOwnerRepository,
        require (case workflow_file (signer_workflow s) of Some f \<Rightarrow> signer_name f | None \<Rightarrow> False)
          NotWorkflowFile]"

definition check_signers :: "manifest \<Rightarrow> rule + unit" where
  "check_signers m =
     each (\<lambda>i. opt_check (\<lambda>s. under (SignerRefused (img_repo i)) (check_signer s)) (img_signed_by i))
       (all_images m)"

fun native_redirects :: "capability \<Rightarrow> rule + unit" where
  "native_redirects (Sso SsoNative redirect_paths) = require (redirect_paths \<noteq> []) NativeNoRedirect"
| "native_redirects _ = Inr ()"

text \<open>Every text that is filled: the deployment's, and what a guide's steps send.\<close>

definition guide_texts :: "guide \<Rightarrow> string list" where
  "guide_texts g =
     concat (map (\<lambda>s. concat (map (\<lambda>a. case a of
        AutoApi _ _ _ _ calls \<Rightarrow> List.map_filter call_body calls
      | AutoSql _ params _ _ \<Rightarrow> params
      | _ \<Rightarrow> []) (step_automate s))) (steps g))"

definition filled_texts :: "manifest \<Rightarrow> guide \<Rightarrow> string list" where
  "filled_texts m g = substituted (mf_spec m) @ guide_texts g"

definition used_tokens :: "manifest \<Rightarrow> guide \<Rightarrow> token list" where
  "used_tokens m g = remdups_adj (sort (concat (map tokens_in (filled_texts m g))))"

definition check_token :: "manifest \<Rightarrow> token \<Rightarrow> rule + unit" where
  "check_token m t =
     opt_check (\<lambda>needed. require (list_ex (\<lambda>c. capability_id c = needed) (requires_of m))
                          (TokenUndeclared t needed)) (token_requires t)"

definition sends_as_person :: "manifest \<Rightarrow> bool" where
  "sends_as_person m = list_ex (\<lambda>c. c = Smtp SenderPerson) (requires_of m)"

definition check_sender :: "manifest \<Rightarrow> token list \<Rightarrow> rule + unit" where
  "check_sender m used =
     (case find (\<lambda>t. sends_as_person m \<and> t \<in> {SmtpUser, SmtpPassword, SmtpFrom}) used of
        None \<Rightarrow> Inr () | Some t \<Rightarrow> Inl (SentAsPerson t))"

fun is_read :: "token list \<Rightarrow> string list \<Rightarrow> capability \<Rightarrow> bool" where
  "is_read used texts (Sso mode p) \<longleftrightarrow>
     mode = SsoNative \<longrightarrow> list_ex (\<lambda>t. token_requires t = Some ''sso'') used"
| "is_read used texts (ObjectStorage _ _ _) \<longleftrightarrow> list_ex (\<lambda>v. str_contains v ''{{ s3.'') texts"
| "is_read used texts (MailAccount _ _) \<longleftrightarrow> True"
| "is_read used texts (Storage _ _ _ _ _ _ _) \<longleftrightarrow> True"
| "is_read used texts c \<longleftrightarrow> list_ex (\<lambda>t. token_requires t = Some (capability_id c)) used"

definition check_read :: "manifest \<Rightarrow> guide \<Rightarrow> rule + unit" where
  "check_read m g =
     each (\<lambda>c. require (is_read (used_tokens m g) (filled_texts m g) c) (NothingReads (capability_id c)))
       (requires_of m)"

definition check_secrets :: "manifest \<Rightarrow> rule + unit" where
  "check_secrets m =
     each (\<lambda>v. each (\<lambda>found. case found of Inl bad \<Rightarrow> Inl (MalformedSecret bad) | Inr _ \<Rightarrow> Inr ())
                 (generated_secrets v)) (substituted (mf_spec m))"

definition check_files :: "manifest \<Rightarrow> rule + unit" where
  "check_files m =
     each (\<lambda>(service, files).
       each_after (\<lambda>seen f.
         in_turn
           [require (is_absolute (cf_path f)) (FileNotAbsolute service (cf_path f)),
            require (cf_path f \<notin> cf_path ` set seen) (FileTwice service (cf_path f))]) [] files)
       ((app_name m, sp_files (mf_spec m)) #
        map (\<lambda>c. (co_name c, co_files c)) (sp_companions (mf_spec m)))"

definition all_arguments :: "manifest \<Rightarrow> string list" where
  "all_arguments m =
     sp_command (mf_spec m) @ sp_args (mf_spec m) @
     concat (map (\<lambda>c. co_command c @ co_args c) (sp_companions (mf_spec m)))"

definition check_commands :: "manifest \<Rightarrow> rule + unit" where
  "check_commands m =
     each (\<lambda>arg. require (tokens_in arg = [] \<and> generated_secrets arg = []) (CommandToken arg))
       (all_arguments m)"

definition check_processes :: "manifest \<Rightarrow> rule + unit" where
  "check_processes m =
     each (\<lambda>(service, process). under (ProcessRefused service) (validate_process process))
       ((app_name m, sp_process (mf_spec m)) #
        map (\<lambda>c. (co_name c, co_process c)) (sp_companions (mf_spec m)))"

definition check_companions :: "manifest \<Rightarrow> rule + unit" where
  "check_companions m =
     each_after (\<lambda>seen c.
       in_turn
         [require (ident (co_name c)) (CompanionName (co_name c)),
          require (co_name c \<notin> co_name ` set seen) (CompanionTwice (co_name c))]) []
       (sp_companions (mf_spec m))"


text \<open>Volumes: another app's, how each is copied, and where.\<close>

fun check_foreign :: "manifest \<Rightarrow> capability \<Rightarrow> rule + unit" where
  "check_foreign m (Storage name path tier backup sqlite copy (Some owner)) =
     require (\<not> (owner = app_name m \<or> backup \<or> sqlite \<or> tier \<noteq> TierLocal \<or> \<not> copy_is_live copy))
       (ForeignVolume name owner)"
| "check_foreign m _ = Inr ()"

fun copied_volume :: "capability \<Rightarrow> (string \<times> bool \<times> volume_copy) option" where
  "copied_volume (Storage name _ _ backup _ copy _) = Some (name, backup, copy)"
| "copied_volume _ = None"

definition check_copies :: "manifest \<Rightarrow> rule + unit" where
  "check_copies m =
     in_turn
       [each (\<lambda>c. case find (\<lambda>v. copy_engine (cv_copy v) \<noteq> None) (co_storage c) of
               None \<Rightarrow> Inr () | Some v \<Rightarrow> Inl (EngineCopiesCompanion (cv_name v) (co_name c)))
          (sp_companions (mf_spec m)),
        each (\<lambda>(name, backup, copy). require (\<not> (\<not> backup \<and> \<not> copy_is_live copy)) (CopyUnread name))
          (List.map_filter copied_volume (requires_of m) @
           concat (map (\<lambda>c. map (\<lambda>v. (cv_name v, cv_backup v, cv_copy v)) (co_storage c))
             (sp_companions (mf_spec m))))]"

fun check_tier :: "manifest \<Rightarrow> capability \<Rightarrow> rule + unit" where
  "check_tier m (Storage name path tier backup sqlite copy owner) =
     in_turn
       [require (\<not> (sqlite \<and> tier = TierNfs)) (SqliteOnNfs name),
        require (\<not> (tier = TierLocal \<and> 1 < sw_replicas (sp_swarm (mf_spec m)))) (ReplicasOverLocal name)]"
| "check_tier m _ = Inr ()"

text \<open>Routes, labels, jobs.\<close>

definition CHAIN_LINKS :: "string list" where
  "CHAIN_LINKS = [''caddy-front'', ''caddy-back'']"

definition check_chain :: "ingress \<Rightarrow> rule + unit" where
  "check_chain ing =
     (case find (\<lambda>l. l \<notin> set CHAIN_LINKS) (ing_chain ing) of
        None \<Rightarrow> Inr () | Some bad \<Rightarrow> Inl (ChainLink bad))"

definition prefix_segment :: "string \<Rightarrow> bool" where
  "prefix_segment seg \<longleftrightarrow>
     seg \<noteq> [] \<and> \<not> dot_segment seg \<and>
     list_all (\<lambda>c. is_ascii_lowercase c \<or> is_ascii_digit c \<or> c \<in> {CHR ''-'', CHR ''_'', CHR ''.''}) seg"

definition prefix_shaped :: "string \<Rightarrow> bool" where
  "prefix_shaped p \<longleftrightarrow>
     1 < length p \<and> is_absolute p \<and> \<not> suffix ''/'' p \<and>
     list_all prefix_segment (split_char CHR ''/'' (tl p))"

definition check_paths :: "manifest \<Rightarrow> ingress \<Rightarrow> rule + unit" where
  "check_paths m ing =
     each_after (\<lambda>seen p.
       in_turn
         [require (prefix_shaped (pr_prefix p)) (PathShape (pr_prefix p)),
          require (list_ex (\<lambda>c. co_name c = pr_companion p) (sp_companions (mf_spec m)))
            (PathCompanion (pr_prefix p) (pr_companion p)),
          require (\<not> (pr_port p = 0 \<or> pr_prefix p \<in> pr_prefix ` set seen)) (PathTwiceOrZero (pr_prefix p))])
       [] (ing_paths ing)"

definition node_labels :: "manifest \<Rightarrow> string list" where
  "node_labels m =
     List.map_filter id (sw_node_label (sp_swarm (mf_spec m)) # map co_node_label (sp_companions (mf_spec m)))"

definition label_char :: "char \<Rightarrow> bool" where
  "label_char c \<longleftrightarrow> is_ascii_lowercase c \<or> is_ascii_digit c \<or> c = CHR ''.'' \<or> c = CHR ''-''"

definition check_labels :: "manifest \<Rightarrow> rule + unit" where
  "check_labels m = each (\<lambda>l. require (l \<noteq> [] \<and> list_all label_char l) (NodeLabel l)) (node_labels m)"

definition check_jobs :: "manifest \<Rightarrow> rule + unit" where
  "check_jobs m =
     each_after (\<lambda>seen j.
       require (\<not> (\<not> ident (job_id j) \<or> job_id j \<in> job_id ` set seen \<or> job_command j = [] \<or> job_does j = []))
         (JobRefused (job_id j))) [] (sp_jobs (mf_spec m))"

definition star_at_end :: "string \<Rightarrow> bool" where
  "star_at_end p \<longleftrightarrow>
     is_absolute p \<and> \<not> has_whitespace p \<and> CHR ''*'' \<notin> set (trim_end_char CHR ''*'' p)"

definition check_open_path :: "string \<Rightarrow> rule + unit" where
  "check_open_path p =
     require (star_at_end p \<and> trim_end_char CHR ''/'' (trim_end_char CHR ''*'' p) \<noteq> []) (OpenPath p)"

definition check_auth_route :: "auth_route \<Rightarrow> rule + unit" where
  "check_auth_route r =
     in_turn
       [require (ar_paths r \<noteq> []) RouteNoPath,
        each (\<lambda>p. require (star_at_end p) (RoutePath p)) (ar_paths r),
        opt_check (\<lambda>code. require (400 \<le> code \<and> code < 500) (RouteCode code)) (ar_fails_with r)]"

definition check_memory :: "manifest \<Rightarrow> rule + unit" where
  "check_memory m =
     each (\<lambda>(who, mem). opt_check (\<lambda>x. require (\<not> mem_limit x < mem_reserve x) (MemoryOver who)) mem)
       ((''the app'', sw_memory (sp_swarm (mf_spec m))) #
        map (\<lambda>c. (co_name c, co_memory c)) (sp_companions (mf_spec m)))"


section \<open>The manifest rules, in order\<close>

definition validate_with_guide :: "(json \<Rightarrow> string) \<Rightarrow> manifest \<Rightarrow> guide \<Rightarrow> rule + unit" where
  "validate_with_guide print_json m g =
     in_turn
       [check_ports m,
        check_tmpfs m,
        check_signers m,
        validate_downloads m,
        each native_redirects (requires_of m),
        each (check_token m) (used_tokens m g),
        check_sender m (used_tokens m g),
        check_read m g,
        declared_and_read m (used_tokens m g),
        require (\<not> starts_with (app_name m) ''hlb-'') ReservedName,
        check_secrets m,
        check_files m,
        require (\<not> (sp_shared_env (mf_spec m) \<noteq> [] \<and> \<not> list_ex co_shared_env (sp_companions (mf_spec m))))
          SharedEnvUntaken,
        check_commands m,
        check_processes m,
        check_companions m,
        each (check_foreign m) (requires_of m),
        check_copies m,
        each (check_tier m) (requires_of m),
        each check_chain (sp_ingress (mf_spec m)),
        each (check_paths m) (sp_ingress (mf_spec m)),
        check_labels m,
        check_jobs m,
        under (\<lambda>(i, r). AssertionRefused i r) (validate_assertions m),
        under AccessRefused (validate_access print_json m),
        require (up_channel (sp_update (mf_spec m)) \<noteq> Latest) LatestChannel,
        each check_open_path (concat (map ing_open_paths (sp_ingress (mf_spec m)))),
        each check_auth_route (concat (map ing_auth_routes (sp_ingress (mf_spec m)))),
        check_memory m,
        require (\<not> up_maturation_days (sp_update (mf_spec m)) < MIN_MATURATION_DAYS) MaturationShort]"

definition default_guide :: guide where
  "default_guide = \<lparr>steps = []\<rparr>"

definition validate :: "(json \<Rightarrow> string) \<Rightarrow> manifest \<Rightarrow> rule + unit" where
  "validate print_json m = validate_with_guide print_json m default_guide"


section \<open>What the catalog and a deployment hold to\<close>

definition sha256_digest :: "string \<Rightarrow> bool" where
  "sha256_digest d \<longleftrightarrow>
     (case strip_prefix d ''sha256:'' of
        None \<Rightarrow> False | Some h \<Rightarrow> length h = 64 \<and> list_all is_ascii_hexdigit h)"

definition validate_catalog_images :: "manifest \<Rightarrow> rule + unit" where
  "validate_catalog_images m =
     each (\<lambda>(who, i).
       require (case img_digest i of None \<Rightarrow> False | Some d \<Rightarrow> sha256_digest d) (ImageUnpinned who))
       (filter (\<lambda>(_, i). \<not> img_built_here i)
         ((''the app'', sp_image (mf_spec m)) # map (\<lambda>c. (co_name c, co_image c)) (sp_companions (mf_spec m))))"

definition validate_catalog_memory :: "manifest \<Rightarrow> rule + unit" where
  "validate_catalog_memory m =
     each (\<lambda>(who, mem). require (mem \<noteq> None) (MemoryUndeclared who))
       ((''the app'', sw_memory (sp_swarm (mf_spec m))) #
        map (\<lambda>c. (''companion '' @ co_name c, co_memory c)) (sp_companions (mf_spec m)))"

definition validate_pinned :: "manifest \<Rightarrow> rule + unit" where
  "validate_pinned m = require (is_pinned (sp_image (mf_spec m))) DigestUnresolved"

end
