(* ===== verification/Graph.thy ===== *)
theory Graph
  imports Manifest
begin

text \<open>
  The dependency graph and the deployment order (\<open>crates/hlb-resolver/src/graph.rs\<close>): the
  graph built from the manifests, the completeness check, Kahn's sort and its reverse.
  The loop is a \<open>partial_function\<close> whose value \<open>None\<close> stands for a panic on an underflowing
  counter or for a loop that never ends; it is proved never to be reached.
\<close>

section \<open>Model\<close>

type_synonym dep_graph = "(string, string btree_set) btree_map"

datatype graph_error =
    Cycle "string list"
  | MissingDependency string string

definition add_manifest :: "manifest \<Rightarrow> dep_graph \<Rightarrow> dep_graph" where
  "add_manifest m deps =
     (let name = app_name m;
          entry = (case bt_get deps name of Some e \<Rightarrow> e | None \<Rightarrow> []);
          owners = List.map_filter storage_owner (requires_of m);
          services = filter (\<lambda>svc. svc \<noteq> name) (List.map_filter platform_service (requires_of m))
      in bt_insert name (fold bs_insert services (fold bs_insert owners entry)) deps)"

definition from_manifests :: "manifest list \<Rightarrow> dep_graph" where
  "from_manifests ms = fold add_manifest ms []"

definition dependencies_of :: "dep_graph \<Rightarrow> string \<Rightarrow> string btree_set option" where
  "dependencies_of g name = bt_get g name"

text \<open>The first pair the two nested loops return on.\<close>

definition missing_pairs :: "dep_graph \<Rightarrow> (string \<times> string) list" where
  "missing_pairs g =
     concat (map (\<lambda>(name, ds). map (Pair name) (filter (\<lambda>d. bt_get g d = None) ds)) g)"

definition check_complete :: "dep_graph \<Rightarrow> graph_error + unit" where
  "check_complete g =
     (case missing_pairs g of
        [] \<Rightarrow> Inr ()
      | (dependent, missing) # _ \<Rightarrow> Inl (MissingDependency dependent missing))"

text \<open>
  The inner loop: every service that depended on the one just deployed has one dependency
  fewer, and is ready when that was its last. \<open>None\<close> is the underflow of \<open>*d -= 1\<close>.
\<close>

fun relax :: "string \<Rightarrow> dep_graph \<Rightarrow> (string, nat) btree_map \<Rightarrow> string list \<Rightarrow>
    ((string, nat) btree_map \<times> string list) option" where
  "relax n [] indegree newly = Some (indegree, newly)"
| "relax n ((name, ds) # es) indegree newly =
     (if n \<in> set ds
      then (case bt_get indegree name of
              None \<Rightarrow> relax n es indegree newly
            | Some d \<Rightarrow>
                if d = 0 then None
                else relax n es (bt_insert name (d - 1) indegree)
                       (if d - 1 = 0 then newly @ [name] else newly))
      else relax n es indegree newly)"

partial_function (option) kahn ::
  "dep_graph \<Rightarrow> (string, nat) btree_map \<Rightarrow> string list \<Rightarrow> string list \<Rightarrow> string list option" where
  "kahn g indegree ready order =
     (case ready of
        [] \<Rightarrow> Some order
      | n # ready' \<Rightarrow>
          Option.bind (relax n g indegree [])
            (\<lambda>p. kahn g (fst p) (ready' @ sort (snd p)) (order @ [n])))"

definition indegrees :: "dep_graph \<Rightarrow> (string, nat) btree_map" where
  "indegrees g = map (\<lambda>(name, ds). (name, length ds)) g"

definition initially_ready :: "dep_graph \<Rightarrow> string list" where
  "initially_ready g = map fst (filter (\<lambda>(_, d). d = 0) (indegrees g))"

definition deployment_order :: "dep_graph \<Rightarrow> (graph_error + string list) option" where
  "deployment_order g =
     (case check_complete g of
        Inl e \<Rightarrow> Some (Inl e)
      | Inr _ \<Rightarrow>
          Option.bind (kahn g (indegrees g) (initially_ready g) [])
            (\<lambda>order.
               if length order \<noteq> length g
               then Some (Inl (Cycle (filter (\<lambda>k. k \<notin> set order) (bt_keys g))))
               else Some (Inr order)))"

definition shutdown_order :: "dep_graph \<Rightarrow> (graph_error + string list) option" where
  "shutdown_order g =
     map_option (\<lambda>r. case r of Inl e \<Rightarrow> Inl e | Inr ns \<Rightarrow> Inr (rev ns)) (deployment_order g)"


section \<open>What an order promises\<close>

text \<open>
  A list of nodes is topological when everything a node depends on stands before it.
\<close>

definition topological :: "('n \<Rightarrow> 'n set) \<Rightarrow> 'n list \<Rightarrow> bool" where
  "topological dep ns \<longleftrightarrow> (\<forall>xs y ys. ns = xs @ y # ys \<longrightarrow> dep y \<subseteq> set xs)"

lemma topological_Nil [simp]: "topological dep []"
  by (simp add: topological_def)

lemma topological_snoc:
  "topological dep (ns @ [n]) \<longleftrightarrow> topological dep ns \<and> dep n \<subseteq> set ns"
proof
  assume t: "topological dep (ns @ [n])"
  have "dep y \<subseteq> set xs" if "ns = xs @ y # ys" for xs y ys
    using t that by (simp add: topological_def)
  with t show "topological dep ns \<and> dep n \<subseteq> set ns" by (simp add: topological_def)
next
  assume t: "topological dep ns \<and> dep n \<subseteq> set ns"
  have "dep y \<subseteq> set xs" if "ns @ [n] = xs @ y # ys" for xs y ys
    using that t by (cases ys rule: rev_cases) (auto simp: topological_def)
  then show "topological dep (ns @ [n])" by (simp add: topological_def)
qed

text \<open>
  The interface between the graph and whoever sorts it: finitely many nodes, and no
  dependency outside them. What a sort returns decides whether the graph has a cycle.
\<close>

locale dependency_graph =
  fixes nodes :: "'n set" and dep :: "'n \<Rightarrow> 'n set"
  assumes finite_nodes: "finite nodes"
    and dep_nodes: "n \<in> nodes \<Longrightarrow> dep n \<subseteq> nodes"
begin

abbreviation edges :: "('n \<times> 'n) set" where
  "edges \<equiv> {(d, n). n \<in> nodes \<and> d \<in> dep n}"

lemma finite_edges: "finite edges"
proof (rule finite_subset)
  show "edges \<subseteq> nodes \<times> nodes" using dep_nodes by auto
qed (simp add: finite_nodes)

lemma order_acyclic:
  assumes "topological dep ns" and "set ns = nodes" and "distinct ns"
  shows "acyclic edges"
proof -
  have "edges \<subseteq> inv_image less_than (\<lambda>x. LEAST i. i < length ns \<and> ns ! i = x)"
  proof (clarsimp simp: inv_image_def)
    fix d n assume n: "n \<in> nodes" and d: "d \<in> dep n"
    from n assms(2) obtain i where i: "i < length ns" "ns ! i = n" by (auto simp: in_set_conv_nth)
    have "ns = take i ns @ n # drop (Suc i) ns" using id_take_nth_drop [OF i(1)] i(2) by simp
    with assms(1) d have "d \<in> set (take i ns)" unfolding topological_def by blast
    then obtain j where j: "j < i" "ns ! j = d" by (auto simp: in_set_conv_nth)
    have L: "(LEAST k. k < length ns \<and> ns ! k = ns ! m) = m" if "m < length ns" for m
      using that assms(3) by (intro Least_equality) (auto simp: nth_eq_iff_index_eq)
    from L [of j] L [of i] i j
    show "(LEAST k. k < length ns \<and> ns ! k = d) < (LEAST k. k < length ns \<and> ns ! k = n)" by auto
  qed
  then have "wf edges" by (rule wf_subset [rotated]) simp
  then show ?thesis by (rule wf_acyclic)
qed

lemma stuck_cyclic:
  assumes "S \<subseteq> nodes" and "S \<noteq> {}" and "\<And>n. n \<in> S \<Longrightarrow> dep n \<inter> S \<noteq> {}"
  shows "\<not> acyclic edges"
proof
  assume "acyclic edges"
  with finite_edges have "wf edges" by (rule finite_acyclic_wf)
  moreover from assms(2) obtain x where "x \<in> S" by blast
  ultimately obtain z where z: "z \<in> S" "\<And>y. (y, z) \<in> edges \<Longrightarrow> y \<notin> S"
    by (rule wfE_min) auto
  with assms(1,3) show False by blast
qed

end

definition deps_within :: "dep_graph \<Rightarrow> string \<Rightarrow> string set" where
  "deps_within g n =
     (case bt_get g n of None \<Rightarrow> {} | Some ds \<Rightarrow> set ds \<inter> set (bt_keys g))"

interpretation dg: dependency_graph "set (bt_keys g)" "deps_within g" for g
  by unfold_locales (auto simp: deps_within_def split: option.splits)

definition graph_edges :: "dep_graph \<Rightarrow> (string \<times> string) set" where
  "graph_edges g = {(d, n). n \<in> set (bt_keys g) \<and> d \<in> deps_within g n}"

text \<open>What the two constructors of the type guarantee: ordered keys, ordered sets.\<close>

definition graph_wf :: "dep_graph \<Rightarrow> bool" where
  "graph_wf g \<longleftrightarrow> bt_wf g \<and> (\<forall>(_, ds) \<in> set g. bs_wf ds)"

definition graph_complete :: "dep_graph \<Rightarrow> bool" where
  "graph_complete g \<longleftrightarrow> (\<forall>(_, ds) \<in> set g. set ds \<subseteq> set (bt_keys g))"


section \<open>Building the graph\<close>

lemma graph_wf_bt: "graph_wf g \<Longrightarrow> bt_wf g"
  by (simp add: graph_wf_def)

lemma set_bt_insert_wf: "bt_wf g \<Longrightarrow> (k', v') \<in> set (bt_insert k v g) \<Longrightarrow>
    k' = k \<and> v' = v \<or> (k', v') \<in> set g"
  by (metis bt_get_Some_set bt_get_insert_fun bt_wf_insert fun_upd_apply option.inject)

lemma graph_wf_insert: "graph_wf g \<Longrightarrow> bs_wf ds \<Longrightarrow> graph_wf (bt_insert n ds g)"
  using set_bt_insert_wf by (fastforce simp: graph_wf_def intro: bt_wf_insert)

lemma graph_wf_get: "graph_wf g \<Longrightarrow> bt_get g n = Some ds \<Longrightarrow> bs_wf ds"
  by (auto simp: graph_wf_def bt_get_Some_set)

lemma add_manifest_wf: "graph_wf g \<Longrightarrow> graph_wf (add_manifest m g)"
  unfolding add_manifest_def Let_def
  by (intro graph_wf_insert bs_wf_fold_insert) (auto split: option.splits intro: graph_wf_get)

lemma fold_add_manifest_wf: "graph_wf g \<Longrightarrow> graph_wf (fold add_manifest ms g)"
  by (induction ms arbitrary: g) (auto intro: add_manifest_wf)

definition declared_deps :: "manifest \<Rightarrow> string set" where
  "declared_deps m =
     {d. \<exists>c \<in> set (requires_of m).
        storage_owner c = Some d \<or> (platform_service c = Some d \<and> d \<noteq> app_name m)}"

definition known_deps :: "dep_graph \<Rightarrow> string \<Rightarrow> string set" where
  "known_deps g n = (case bt_get g n of None \<Rightarrow> {} | Some ds \<Rightarrow> set ds)"

lemma known_deps_add:
  "known_deps (add_manifest m g) n =
     known_deps g n \<union> (if n = app_name m then declared_deps m else {})"
  by (auto simp: known_deps_def add_manifest_def Let_def bt_get_insert_fun set_map_filter
      declared_deps_def split: option.splits)

lemma keys_add: "graph_wf g \<Longrightarrow> set (bt_keys (add_manifest m g)) = insert (app_name m) (set (bt_keys g))"
  by (simp add: add_manifest_def Let_def bt.keys_insert graph_wf_bt)

lemma known_deps_fold:
  "known_deps (fold add_manifest ms g) n =
     known_deps g n \<union> (\<Union>m \<in> {m \<in> set ms. app_name m = n}. declared_deps m)"
  by (induction ms arbitrary: g) (auto simp: known_deps_add split: if_splits)

lemma keys_fold:
  "graph_wf g \<Longrightarrow> set (bt_keys (fold add_manifest ms g)) = set (bt_keys g) \<union> app_name ` set ms"
  by (induction ms arbitrary: g) (auto simp: keys_add add_manifest_wf)


section \<open>The inner loop\<close>

lemma relax_Some:
  assumes "distinct (map fst es)" and "bt_wf ind"
    and "\<And>k ds. (k, ds) \<in> set es \<Longrightarrow> n \<in> set ds \<Longrightarrow> \<exists>d > 0. bt_get ind k = Some d"
  shows "\<exists>ind'. relax n es ind newly =
      Some (ind', newly @ map fst (filter (\<lambda>(k, ds). n \<in> set ds \<and> bt_get ind k = Some 1) es))
    \<and> bt_wf ind'
    \<and> (\<forall>k. bt_get ind' k =
          (if \<exists>ds. (k, ds) \<in> set es \<and> n \<in> set ds
           then map_option (\<lambda>d. d - 1) (bt_get ind k) else bt_get ind k))"
  using assms
proof (induction es arbitrary: ind newly)
  case (Cons e es)
  obtain k ds where e: "e = (k, ds)" by (cases e)
  have fresh: "(k, ds') \<notin> set es" for ds'
    using Cons.prems(1) by (force simp: e)
  show ?case
  proof (cases "n \<in> set ds")
    case False
    then have ex: "(\<exists>ds'. (k', ds') \<in> set (e # es) \<and> n \<in> set ds') \<longleftrightarrow>
        (\<exists>ds'. (k', ds') \<in> set es \<and> n \<in> set ds')" for k'
      by (auto simp: e)
    have same: "relax n (e # es) ind newly = relax n es ind newly"
      "filter (\<lambda>(k, ds). n \<in> set ds \<and> bt_get ind k = Some 1) (e # es)
       = filter (\<lambda>(k, ds). n \<in> set ds \<and> bt_get ind k = Some 1) es"
      using False by (simp_all add: e)
    show ?thesis
      unfolding ex same
    proof (rule Cons.IH)
      show "distinct (map fst es)" using Cons.prems(1) by simp
      show "\<exists>d > 0. bt_get ind k = Some d" if "(k, ds) \<in> set es" "n \<in> set ds" for k ds
        using Cons.prems(3) [of k ds] that by simp
    qed (rule Cons.prems(2))
  next
    case True
    with Cons.prems(3) [of k ds] obtain d where d: "bt_get ind k = Some (Suc d)"
      by (auto simp: e gr0_conv_Suc)
    let ?ind = "bt_insert k d ind"
    let ?newly = "if d = 0 then newly @ [k] else newly"
    have get: "bt_get ?ind k' = (if k' = k then Some d else bt_get ind k')" for k'
      by (simp add: bt_get_insert_fun)
    have same: "bt_get ?ind k' = bt_get ind k'" if "(k', ds') \<in> set es" for k' ds'
      using that fresh get [of k'] by (cases "k' = k") auto
    have "\<exists>ind'. relax n es ?ind ?newly =
        Some (ind', ?newly @ map fst (filter (\<lambda>(k, ds). n \<in> set ds \<and> bt_get ?ind k = Some 1) es))
      \<and> bt_wf ind'
      \<and> (\<forall>k. bt_get ind' k =
          (if \<exists>ds. (k, ds) \<in> set es \<and> n \<in> set ds
           then map_option (\<lambda>d. d - 1) (bt_get ?ind k) else bt_get ?ind k))"
    proof (rule Cons.IH)
      show "distinct (map fst es)" using Cons.prems(1) by simp
      show "bt_wf ?ind" by (rule bt_wf_insert [OF Cons.prems(2)])
      show "\<exists>d > 0. bt_get ?ind k' = Some d" if "(k', ds') \<in> set es" "n \<in> set ds'" for k' ds'
        using Cons.prems(3) [of k' ds'] that same [OF that(1)] by simp
    qed
    then obtain ind' where ind': "relax n es ?ind ?newly =
        Some (ind', ?newly @ map fst (filter (\<lambda>(k, ds). n \<in> set ds \<and> bt_get ?ind k = Some 1) es))"
      "bt_wf ind'"
      "\<And>k. bt_get ind' k =
          (if \<exists>ds. (k, ds) \<in> set es \<and> n \<in> set ds
           then map_option (\<lambda>d. d - 1) (bt_get ?ind k) else bt_get ?ind k)"
      by blast
    have flt: "filter (\<lambda>(k, ds). n \<in> set ds \<and> bt_get ?ind k = Some 1) es
        = filter (\<lambda>(k, ds). n \<in> set ds \<and> bt_get ind k = Some 1) es"
      by (rule filter_cong) (auto simp: same)
    have "bt_get ind' k' = (if \<exists>ds'. (k', ds') \<in> set (e # es) \<and> n \<in> set ds'
        then map_option (\<lambda>d. d - 1) (bt_get ind k') else bt_get ind k')" for k'
      using fresh True d by (auto simp: ind'(3) get e)
    moreover have "relax n (e # es) ind newly = Some (ind',
        newly @ map fst (filter (\<lambda>(k, ds). n \<in> set ds \<and> bt_get ind k = Some 1) (e # es)))"
      using True d ind'(1) [unfolded flt] by (simp add: e)
    ultimately show ?thesis using ind'(2) by blast
  qed
qed auto


section \<open>The outer loop\<close>

definition kahn_inv ::
  "dep_graph \<Rightarrow> (string, nat) btree_map \<Rightarrow> string list \<Rightarrow> string list \<Rightarrow> bool" where
  "kahn_inv g ind ready order \<longleftrightarrow>
     bt_wf ind \<and> distinct (order @ ready) \<and> set (order @ ready) \<subseteq> set (bt_keys g) \<and>
     (\<forall>(k, ds) \<in> set g. bt_get ind k = Some (card (set ds - set order)) \<and>
        (k \<in> set (order @ ready) \<longleftrightarrow> set ds \<subseteq> set order)) \<and>
     topological (known_deps g) order"

lemma known_deps_wf: "graph_wf g \<Longrightarrow> (k, ds) \<in> set g \<Longrightarrow> known_deps g k = set ds"
  using bt_get_Some_set [of g k ds] by (simp add: known_deps_def graph_wf_bt)

lemma keys_pair: "k \<in> set (bt_keys g) \<Longrightarrow> \<exists>ds. (k, ds) \<in> set g"
  by (auto simp: bt_keys_def)

lemma kahn_inv_step:
  assumes wf: "graph_wf g" and inv: "kahn_inv g ind (n # ready) order"
  obtains ind' newly where "relax n g ind [] = Some (ind', newly)"
    and "kahn_inv g ind' (ready @ sort newly) (order @ [n])"
proof -
  have n: "n \<notin> set order" "n \<in> set (bt_keys g)" and bind: "bt_wf ind"
    and dist: "distinct (order @ n # ready)"
    and sub: "set (order @ n # ready) \<subseteq> set (bt_keys g)"
    and topo: "topological (known_deps g) order"
    using inv by (auto simp: kahn_inv_def)
  have deg: "bt_get ind k = Some (card (set ds - set order))"
    and rdy: "k \<in> set (order @ n # ready) \<longleftrightarrow> set ds \<subseteq> set order"
    if "(k, ds) \<in> set g" for k ds
    using inv that by (auto simp: kahn_inv_def)
  have pos: "0 < card (set ds - set order)" if "n \<in> set ds" for ds
    using that n(1) by (auto simp: card_gt_0_iff)
  have dg: "distinct (map fst g)" using wf by (simp add: graph_wf_bt bt_wf_distinct)
  obtain ind' where r: "relax n g ind [] = Some (ind',
        map fst (filter (\<lambda>(k, ds). n \<in> set ds \<and> bt_get ind k = Some 1) g))"
    and w: "bt_wf ind'"
    and get: "\<And>k. bt_get ind' k = (if \<exists>ds. (k, ds) \<in> set g \<and> n \<in> set ds
          then map_option (\<lambda>d. d - 1) (bt_get ind k) else bt_get ind k)"
    using relax_Some [OF dg bind, of n "[]"] deg pos by auto
  let ?newly = "map fst (filter (\<lambda>(k, ds). n \<in> set ds \<and> bt_get ind k = Some 1) g)"
  have uniq: "ds = ds'" if "(k, ds) \<in> set g" "(k, ds') \<in> set g" for k ds ds'
    using that wf by (metis bt_get_Some_set graph_wf_bt option.inject)
  have single: "card S = 1 \<longleftrightarrow> S = {n}" if "n \<in> S" for S :: "string set"
    using that by (metis card_1_singletonE is_singleton_altdef is_singletonI singletonD)
  have newly: "k \<in> set ?newly \<longleftrightarrow> n \<in> set ds \<and> set ds - set order = {n}" if "(k, ds) \<in> set g" for k ds
  proof -
    have "k \<in> set ?newly \<longleftrightarrow> (\<exists>ds'. (k, ds') \<in> set g \<and> n \<in> set ds' \<and> bt_get ind k = Some 1)"
      by (auto simp: image_iff)
    also have "\<dots> \<longleftrightarrow> n \<in> set ds \<and> bt_get ind k = Some 1"
      using that uniq by blast
    also have "\<dots> \<longleftrightarrow> n \<in> set ds \<and> card (set ds - set order) = 1"
      by (simp add: deg [OF that])
    also have "\<dots> \<longleftrightarrow> n \<in> set ds \<and> set ds - set order = {n}"
      using n(1) single [of "set ds - set order"] by blast
    finally show ?thesis .
  qed
  have degree: "bt_get ind' k = Some (card (set ds - set (order @ [n])))" if "(k, ds) \<in> set g" for k ds
  proof (cases "n \<in> set ds")
    case True
    have "card (set ds - set (order @ [n])) = card (set ds - set order - {n})"
      by (rule arg_cong [where f = card]) auto
    also have "\<dots> = card (set ds - set order) - 1"
      using True n(1) by simp
    finally show ?thesis using True that deg [OF that] by (auto simp: get)
  next
    case False
    then have "\<not> (\<exists>ds'. (k, ds') \<in> set g \<and> n \<in> set ds')" using uniq [OF that] by blast
    then have "bt_get ind' k = bt_get ind k" by (simp only: get if_False)
    moreover have "set ds - set (order @ [n]) = set ds - set order" using False by auto
    ultimately show ?thesis using deg [OF that] by simp
  qed
  have ready: "k \<in> set ((order @ [n]) @ ready @ sort ?newly) \<longleftrightarrow> set ds \<subseteq> set (order @ [n])"
    if "(k, ds) \<in> set g" for k ds
  proof -
    have "k \<in> set ((order @ [n]) @ ready @ sort ?newly) \<longleftrightarrow>
        k \<in> set (order @ n # ready) \<or> k \<in> set ?newly"
      by (auto simp del: set_map)
    also have "\<dots> \<longleftrightarrow> set ds \<subseteq> set order \<or> n \<in> set ds \<and> set ds - set order = {n}"
      by (simp only: rdy [OF that] newly [OF that])
    also have "\<dots> \<longleftrightarrow> set ds \<subseteq> set (order @ [n])" by auto
    finally show ?thesis .
  qed
  have "set ?newly \<inter> set (order @ n # ready) = {}"
  proof (rule Int_emptyI)
    fix k assume new: "k \<in> set ?newly" and old: "k \<in> set (order @ n # ready)"
    from subsetD [OF sub old] obtain ds where ds: "(k, ds) \<in> set g" by (auto dest: keys_pair)
    from iffD1 [OF newly [OF ds] new] have "n \<in> set ds" by (rule conjunct1)
    moreover from iffD1 [OF rdy [OF ds] old] have "set ds \<subseteq> set order" .
    ultimately show False using n(1) by blast
  qed
  moreover have "distinct ?newly"
    by (rule distinct_map_filter [OF dg])
  ultimately have "distinct ((order @ [n]) @ ready @ sort ?newly)"
    using dist by auto
  moreover have "set ((order @ [n]) @ ready @ sort ?newly) \<subseteq> set (bt_keys g)"
    using sub by (auto simp: bt_keys_def)
  moreover have "topological (known_deps g) (order @ [n])"
  proof -
    from keys_pair [OF n(2)] obtain ds where ds: "(n, ds) \<in> set g" by blast
    then have "set ds \<subseteq> set order" using rdy [OF ds] by simp
    with topo show ?thesis by (simp add: topological_snoc known_deps_wf [OF wf ds])
  qed
  ultimately have "kahn_inv g ind' (ready @ sort ?newly) (order @ [n])"
    using w degree ready unfolding kahn_inv_def by blast
  with r show ?thesis by (rule that)
qed

lemma kahn_returns:
  assumes wf: "graph_wf g" and inv: "kahn_inv g ind ready order"
  shows "\<exists>order' ind'. kahn g ind ready order = Some order' \<and> kahn_inv g ind' [] order'"
  using inv
proof (induction "length g - length order" arbitrary: ind ready order rule: less_induct)
  case less
  show ?case
  proof (cases ready)
    case Nil
    with less.prems show ?thesis by (subst kahn.simps) auto
  next
    case (Cons n ready')
    obtain ind' newly where r: "relax n g ind [] = Some (ind', newly)"
      and i: "kahn_inv g ind' (ready' @ sort newly) (order @ [n])"
      using kahn_inv_step [OF wf less.prems [unfolded Cons]] by blast
    from less.prems Cons have "distinct (order @ [n])" "set (order @ [n]) \<subseteq> set (bt_keys g)"
      by (auto simp: kahn_inv_def)
    then have "length (order @ [n]) \<le> length (bt_keys g)"
      by (metis card_mono distinct_card card_length le_trans List.finite_set)
    then have "length g - length (order @ [n]) < length g - length order"
      by (simp add: bt_keys_def)
    from less.hyps [OF this i] r Cons show ?thesis by (subst kahn.simps) simp
  qed
qed

lemma kahn_inv_init: "graph_wf g \<Longrightarrow> kahn_inv g (indegrees g) (initially_ready g) []"
proof -
  assume wf: "graph_wf g"
  have keys: "map fst (indegrees g) = map fst g" by (auto simp: indegrees_def)
  then have bw: "bt_wf (indegrees g)" using graph_wf_bt [OF wf] by (simp add: bt_wf_def)
  have get: "bt_get (indegrees g) k = Some (card (set ds))" if "(k, ds) \<in> set g" for k ds
  proof -
    have "bs_wf ds" using wf that by (auto simp: graph_wf_def)
    then have "length ds = card (set ds)" by (simp add: bs_wf_distinct distinct_card)
    then have "(k, card (set ds)) \<in> set (indegrees g)" using that by (force simp: indegrees_def)
    then show ?thesis using bw by (simp add: bt_get_Some_set)
  qed
  have rdy: "k \<in> set (initially_ready g) \<longleftrightarrow> ds = []" if "(k, ds) \<in> set g" for k ds
  proof -
    have "k \<in> set (initially_ready g) \<longleftrightarrow> (k, 0) \<in> set (indegrees g)"
      by (force simp: initially_ready_def)
    also have "\<dots> \<longleftrightarrow> bt_get (indegrees g) k = Some 0" using bw by (simp add: bt_get_Some_set)
    finally show ?thesis by (simp add: get [OF that])
  qed
  have "distinct (initially_ready g)"
    unfolding initially_ready_def by (rule distinct_map_filter [OF bt_wf_distinct [OF bw]])
  moreover have "set (initially_ready g) \<subseteq> set (bt_keys g)"
    by (force simp: initially_ready_def bt_keys_def indegrees_def)
  ultimately show ?thesis using bw get rdy by (auto simp: kahn_inv_def)
qed

text \<open>Everything the two loops establish, for a graph of ordered sets.\<close>

lemma kahn_result:
  assumes "graph_wf g"
  obtains order where "kahn g (indegrees g) (initially_ready g) [] = Some order"
    and "distinct order" and "set order \<subseteq> set (bt_keys g)"
    and "topological (known_deps g) order"
    and "\<And>k ds. (k, ds) \<in> set g \<Longrightarrow> k \<in> set order \<longleftrightarrow> set ds \<subseteq> set order"
proof -
  obtain order ind where "kahn g (indegrees g) (initially_ready g) [] = Some order"
    and "kahn_inv g ind [] order"
    using kahn_returns [OF assms kahn_inv_init [OF assms]] by blast
  then show ?thesis by (intro that) (auto simp: kahn_inv_def)
qed


section \<open>Properties\<close>

lemma graph_completeD: "graph_complete g \<Longrightarrow> (k, ds) \<in> set g \<Longrightarrow> set ds \<subseteq> set (bt_keys g)"
  by (auto simp: graph_complete_def)

lemma missing_pairs_Nil: "missing_pairs g = [] \<longleftrightarrow> graph_complete g"
proof
  assume "missing_pairs g = []"
  then show "graph_complete g"
    by (auto simp: missing_pairs_def graph_complete_def bt_get_None_iff filter_empty_conv)
next
  assume "graph_complete g"
  then show "missing_pairs g = []"
    by (auto simp: missing_pairs_def bt_get_None_iff filter_empty_conv dest: graph_completeD [THEN subsetD])
qed

lemma check_complete_cases:
  "check_complete g =
     (if graph_complete g then Inr ()
      else Inl (MissingDependency (fst (hd (missing_pairs g))) (snd (hd (missing_pairs g)))))"
  by (cases "missing_pairs g") (auto simp: check_complete_def missing_pairs_Nil [symmetric])

lemma deployment_order_Inr:
  "deployment_order g = Some (Inr order) \<longleftrightarrow>
     graph_complete g \<and> kahn g (indegrees g) (initially_ready g) [] = Some order \<and>
     length order = length g"
  by (cases "kahn g (indegrees g) (initially_ready g) []")
    (auto simp: deployment_order_def check_complete_cases)

lemma deployment_order_Cycle:
  "deployment_order g = Some (Inl (Cycle stuck)) \<longleftrightarrow>
     graph_complete g \<and> (\<exists>order. kahn g (indegrees g) (initially_ready g) [] = Some order \<and>
     length order \<noteq> length g \<and> stuck = filter (\<lambda>k. k \<notin> set order) (bt_keys g))"
  by (cases "kahn g (indegrees g) (initially_ready g) []")
    (auto simp: deployment_order_def check_complete_cases)

lemma complete_within:
  "graph_wf g \<Longrightarrow> graph_complete g \<Longrightarrow> n \<in> set (bt_keys g) \<Longrightarrow> deps_within g n = known_deps g n"
proof -
  assume wf: "graph_wf g" and full: "graph_complete g" and n: "n \<in> set (bt_keys g)"
  from keys_pair [OF n] obtain ds where ds: "(n, ds) \<in> set g" ..
  then have "bt_get g n = Some ds" using wf by (simp add: bt_get_Some_set graph_wf_bt)
  moreover from full ds have "set ds \<subseteq> set (bt_keys g)" by (auto simp: graph_complete_def)
  ultimately show ?thesis by (auto simp: deps_within_def known_deps_def)
qed

lemma kahn_unique:
  "graph_wf g \<Longrightarrow> kahn g (indegrees g) (initially_ready g) [] = Some order \<Longrightarrow>
   distinct order \<and> set order \<subseteq> set (bt_keys g) \<and> topological (known_deps g) order \<and>
   (\<forall>(k, ds) \<in> set g. k \<in> set order \<longleftrightarrow> set ds \<subseteq> set order)"
  by (rule kahn_result [of g]) auto

lemma order_full:
  assumes "graph_wf g" and "distinct order" and "set order \<subseteq> set (bt_keys g)"
  shows "length order = length g \<longleftrightarrow> set order = set (bt_keys g)"
proof -
  have "distinct (bt_keys g)" using assms(1) by (simp add: graph_wf_bt bt_wf_distinct bt_keys_def)
  then have "card (set (bt_keys g)) = length (bt_keys g)" by (rule distinct_card)
  also have "\<dots> = length g" by (simp add: bt_keys_def)
  finally have "card (set (bt_keys g)) = length g" .
  moreover have "card (set order) = length order" using assms(2) by (rule distinct_card)
  ultimately show ?thesis using assms(3) by (metis card_subset_eq List.finite_set)
qed

text \<open>C1: sorting a graph always ends with an order or an error, never with a counter
  driven below zero nor with a loop that does not stop.\<close>

theorem deployment_order_total:
  assumes "graph_wf g"
  shows "\<exists>r. deployment_order g = Some r"
proof -
  obtain order where "kahn g (indegrees g) (initially_ready g) [] = Some order"
    by (rule kahn_result [OF assms])
  then show ?thesis
    by (cases "check_complete g"; cases "length order = length g") (simp_all add: deployment_order_def)
qed

lemma deployment_order_promises:
  assumes "graph_wf g" and "deployment_order g = Some (Inr order)"
  shows "distinct order \<and> set order = set (bt_keys g) \<and> topological (known_deps g) order"
proof -
  from assms(2) have k: "kahn g (indegrees g) (initially_ready g) [] = Some order"
    and l: "length order = length g"
    by (simp_all add: deployment_order_Inr)
  from kahn_unique [OF assms(1) k] l order_full [OF assms(1)] show ?thesis by blast
qed

text \<open>C2: an order returned lists every service exactly once, each after everything it
  depends on.\<close>

theorem deployment_order_sound:
  assumes "graph_wf g" and "deployment_order g = Some (Inr order)"
  shows "distinct order \<and> set order = set (bt_keys g) \<and>
    (\<forall>xs y ys. order = xs @ y # ys \<longrightarrow> known_deps g y \<subseteq> set xs)"
  using deployment_order_promises [OF assms] by (simp add: topological_def)

text \<open>C3: a graph with no missing service has an order exactly when it has no cycle.\<close>

theorem deployment_order_iff_acyclic:
  assumes wf: "graph_wf g" and full: "graph_complete g"
  shows "(\<exists>order. deployment_order g = Some (Inr order)) \<longleftrightarrow> acyclic (graph_edges g)"
proof -
  obtain order where k: "kahn g (indegrees g) (initially_ready g) [] = Some order"
    and d: "distinct order" and sub: "set order \<subseteq> set (bt_keys g)"
    and t: "topological (known_deps g) order"
    and r: "\<And>k ds. (k, ds) \<in> set g \<Longrightarrow> k \<in> set order \<longleftrightarrow> set ds \<subseteq> set order"
    using kahn_result [OF wf] by blast
  have res: "deployment_order g =
      (if set order = set (bt_keys g) then Some (Inr order)
       else Some (Inl (Cycle (filter (\<lambda>k. k \<notin> set order) (bt_keys g)))))"
    using k order_full [OF wf d sub] full
    by (simp add: deployment_order_def check_complete_cases)
  show ?thesis
  proof (cases "set order = set (bt_keys g)")
    case True
    have "topological (deps_within g) order"
      unfolding topological_def
    proof (intro allI impI)
      fix xs y ys assume o: "order = xs @ y # ys"
      with True have "deps_within g y = known_deps g y"
        by (intro complete_within [OF wf full]) auto
      with t o show "deps_within g y \<subseteq> set xs" by (simp add: topological_def)
    qed
    then have "acyclic (graph_edges g)"
      unfolding graph_edges_def using dg.order_acyclic True d by blast
    with True res show ?thesis by simp
  next
    case False
    let ?S = "set (bt_keys g) - set order"
    have "deps_within g n \<inter> ?S \<noteq> {}" if "n \<in> ?S" for n
    proof -
      have "n \<in> set (bt_keys g)" using that by simp
      then obtain ds where ds: "(n, ds) \<in> set g" by (auto dest: keys_pair)
      with r [OF ds] that obtain x where "x \<in> set ds" "x \<notin> set order" by auto
      moreover have "deps_within g n = set ds"
        using that ds complete_within [OF wf full] known_deps_wf [OF wf ds] by auto
      moreover have "set ds \<subseteq> set (bt_keys g)" using full ds by (auto simp: graph_complete_def)
      ultimately show ?thesis by auto
    qed
    moreover have "?S \<noteq> {}" using False sub by blast
    ultimately have "\<not> acyclic (graph_edges g)"
      unfolding graph_edges_def using dg.stuck_cyclic [of ?S g] by blast
    with False res show ?thesis by simp
  qed
qed

text \<open>a reported cycle names the services that cannot start: at least one, and each of
  them waits for another of the list.\<close>

theorem deployment_order_cycle:
  assumes "graph_wf g" and "deployment_order g = Some (Inl (Cycle stuck))"
  shows "stuck \<noteq> [] \<and> (\<forall>n \<in> set stuck. known_deps g n \<inter> set stuck \<noteq> {})"
proof (intro conjI ballI)
  from assms(2) obtain order where k: "kahn g (indegrees g) (initially_ready g) [] = Some order"
    and l: "length order \<noteq> length g" and s: "stuck = filter (\<lambda>k. k \<notin> set order) (bt_keys g)"
    and full: "graph_complete g"
    by (auto simp: deployment_order_Cycle)
  note u = kahn_unique [OF assms(1) k]
  from u l order_full [OF assms(1)] have "set order \<subset> set (bt_keys g)" by blast
  then show "stuck \<noteq> []" by (auto simp: s filter_empty_conv)
  show "known_deps g n \<inter> set stuck \<noteq> {}" if n: "n \<in> set stuck" for n
  proof -
    from n have "n \<in> set (bt_keys g)" by (simp add: s)
    then obtain ds where ds: "(n, ds) \<in> set g" by (auto dest: keys_pair)
    with u n obtain x where "x \<in> set ds" "x \<notin> set order" by (fastforce simp: s)
    moreover have "set ds \<subseteq> set (bt_keys g)" using full ds by (auto simp: graph_complete_def)
    ultimately show ?thesis using known_deps_wf [OF assms(1) ds] by (auto simp: s)
  qed
qed

text \<open>the graph built from manifests has a node per app, whose dependencies are the
  platform services its capabilities need, itself apart, and the owners of the volumes it
  mounts.\<close>

theorem from_manifests_spec:
  "graph_wf (from_manifests ms) \<and>
   set (bt_keys (from_manifests ms)) = app_name ` set ms \<and>
   (\<forall>n. known_deps (from_manifests ms) n = \<Union> (declared_deps ` {m \<in> set ms. app_name m = n}))"
proof (intro conjI allI)
  have e: "graph_wf []" by (simp add: graph_wf_def)
  show "graph_wf (from_manifests ms)" unfolding from_manifests_def by (rule fold_add_manifest_wf [OF e])
  show "set (bt_keys (from_manifests ms)) = app_name ` set ms"
    unfolding from_manifests_def keys_fold [OF e] by (simp add: bt_keys_def)
  show "known_deps (from_manifests ms) n = \<Union> (declared_deps ` {m \<in> set ms. app_name m = n})" for n
    unfolding from_manifests_def known_deps_fold by (simp add: known_deps_def bt_get_def)
qed

text \<open>services are stopped in the reverse order, so none is stopped while one that
  depends on it still runs.\<close>

theorem shutdown_order_sound:
  assumes "graph_wf g" and "shutdown_order g = Some (Inr order)"
    and "order = xs @ y # ys" and "y \<in> known_deps g z" and "z \<in> set (bt_keys g)"
  shows "z \<in> set xs"
proof -
  from assms(2) obtain r where r: "deployment_order g = Some r"
    "(case r of Inl e \<Rightarrow> Inl e | Inr ns \<Rightarrow> Inr (rev ns)) = Inr order"
    by (auto simp: shutdown_order_def)
  then have d: "deployment_order g = Some (Inr (rev order))" by (cases r) auto
  note promises = deployment_order_promises [OF assms(1) d]
  from promises assms(5) have "z \<in> set order" by simp
  then obtain us vs where z: "order = us @ z # vs" by (meson in_set_conv_decomp)
  then have "rev order = rev vs @ z # rev us" by simp
  with promises assms(4) have "y \<in> set (rev vs)" unfolding topological_def by blast
  then have "y \<in> set vs" by simp
  then obtain p q where vs: "vs = p @ y # q" by (meson in_set_conv_decomp)
  have "distinct order" using promises by simp
  then have "distinct (xs @ y # ys)" unfolding assms(3) .
  then have "xs = us @ z # p"
    by (rule distinct_split_unique) (simp add: assms(3) [symmetric] z vs)
  then show ?thesis by simp
qed


section \<open>Witnesses\<close>

definition sample_graph :: dep_graph where
  "sample_graph =
     [(''gitea'', [''postgres'']), (''oauth2-proxy'', [''pocket-id'']), (''pocket-id'', []),
      (''postgres'', [])]"

definition cyclic_graph :: dep_graph where
  "cyclic_graph = [(''a'', [''b'']), (''b'', [''a'']), (''c'', [])]"

lemma sample_wf: "graph_wf sample_graph" "graph_wf cyclic_graph"
  by code_simp+

lemma sample_complete: "graph_complete sample_graph"
  by (simp add: graph_complete_def sample_graph_def bt_keys_def)

lemma sample_order:
  "deployment_order sample_graph =
     Some (Inr [''pocket-id'', ''postgres'', ''oauth2-proxy'', ''gitea''])"
  by (simp add: deployment_order_def check_complete_def missing_pairs_def kahn.simps sample_graph_def indegrees_def
      initially_ready_def bt_get_def less_char_def)

lemma cyclic_order: "deployment_order cyclic_graph = Some (Inl (Cycle [''a'', ''b'']))"
  by (simp add: deployment_order_def check_complete_def missing_pairs_def kahn.simps cyclic_graph_def indegrees_def
      initially_ready_def bt_get_def bt_keys_def less_char_def)


theorem deployment_order_total_witness: "\<exists>r. deployment_order sample_graph = Some r"
  by (rule deployment_order_total [OF sample_wf(1)])

theorem deployment_order_sound_witness:
  "known_deps sample_graph ''gitea'' \<subseteq> set [''pocket-id'', ''postgres'', ''oauth2-proxy'']"
  using deployment_order_sound [OF sample_wf(1) sample_order, THEN conjunct2, THEN conjunct2,
      rule_format, of "[''pocket-id'', ''postgres'', ''oauth2-proxy'']" "''gitea''" "[]"]
  by simp

theorem deployment_order_iff_acyclic_witness: "acyclic (graph_edges sample_graph)"
  using deployment_order_iff_acyclic [OF sample_wf(1) sample_complete] sample_order by blast

theorem deployment_order_cycle_witness: "known_deps cyclic_graph ''a'' \<inter> {''a'', ''b''} \<noteq> {}"
  using deployment_order_cycle [OF sample_wf(2) cyclic_order] by simp

theorem shutdown_order_sound_witness: "''gitea'' \<in> set [''gitea'', ''oauth2-proxy'']"
proof (rule shutdown_order_sound [OF sample_wf(1)])
  show "shutdown_order sample_graph =
      Some (Inr [''gitea'', ''oauth2-proxy'', ''postgres'', ''pocket-id''])"
    by (simp add: shutdown_order_def sample_order)
  show "[''gitea'', ''oauth2-proxy'', ''postgres'', ''pocket-id''] =
      [''gitea'', ''oauth2-proxy''] @ ''postgres'' # [''pocket-id'']" by simp
qed (simp_all add: sample_graph_def known_deps_def bt_get_def bt_keys_def)

end
