(* ===== verification/Resolver.thy ===== *)
theory Resolver
  imports Validate Graph
begin

text \<open>
  The resolver (\<open>crates/hlb-resolver/src/lib.rs\<close>): a manifest, its guide and the install
  parameters become the plan that is executed. The body of \<open>resolve_with_guide\<close> is followed
  part by part, each part the list of actions it pushes. Whether a time zone exists is asked
  of the \<open>chrono-tz\<close> database, a parameter here.
\<close>

section \<open>Parameters and errors\<close>

datatype resolve_error =
    ErrGraph graph_error
  | ErrManifest rule
  | MissingParam string
  | Unsupported string string
  | UnknownTimezone string

record install_params =
  ip_domain :: "string option"
  ip_mail_domain :: "string option"
  ip_timezone :: "string option"
  ip_health_timeout_secs :: u64

definition default_params :: install_params where
  "default_params =
     \<lparr>ip_domain = None, ip_mail_domain = None, ip_timezone = None, ip_health_timeout_secs = 120\<rparr>"

definition with_domain :: "string \<Rightarrow> install_params" where
  "with_domain d = default_params \<lparr>ip_domain := Some d\<rparr>"

definition hint :: "string \<Rightarrow> string" where
  "hint param =
     (if param = ''timezone'' then '': hlb config timezone Europe/Paris (your own zone)'' else [])"

definition PORTAL_CALLBACK :: string where
  "PORTAL_CALLBACK = ''/oauth2/callback''"

definition DOWNLOADS_ENV :: string where
  "DOWNLOADS_ENV = ''HLB_DOWNLOADS''"

definition required_param :: "string \<Rightarrow> 'a option \<Rightarrow> resolve_error + 'a" where
  "required_param p v = (case v of None \<Rightarrow> Inl (MissingParam p) | Some x \<Rightarrow> Inr x)"


section \<open>Capabilities\<close>

definition generates :: "plan \<Rightarrow> string \<Rightarrow> bool" where
  "generates plan s \<longleftrightarrow> list_ex (\<lambda>a. case a of GenerateSecret n _ \<Rightarrow> n = s | _ \<Rightarrow> False) plan"

text \<open>The secret, unless the plan generates it already, then the action that uses it.\<close>

definition push_secret_once :: "string \<Rightarrow> string \<Rightarrow> plan \<Rightarrow> plan" where
  "push_secret_once s purpose plan =
     (if generates plan s then plan else plan @ [GenerateSecret s purpose])"

definition dedicated_reason :: "cache_engine \<Rightarrow> string" where
  "dedicated_reason engine =
     ''a dedicated '' @ cache_service_name engine @ '' would run an image nothing pins '' @ em_dash @
     '' the shared one serves every app (`dedicated: false`)''"

fun resolve_capability ::
  "string \<Rightarrow> install_params \<Rightarrow> capability \<Rightarrow> plan \<Rightarrow> resolve_error + plan" where
  "resolve_capability app params (Database engine name extensions _) plan =
     (let db = (case name of Some n \<Rightarrow> n | None \<Rightarrow> app);
          secret = app @ ''-db-password'' in
      Inr (push_secret_once secret (''password for the '' @ app @ '' role'') plan @
           [ProvisionDatabase engine db app secret extensions None]))"
| "resolve_capability app params (Cache engine dedicated) plan =
     (if dedicated then Inl (Unsupported app (dedicated_reason engine)) else Inr plan)"
| "resolve_capability app params (Sso mode redirect_paths) plan =
     (case mode of
        SsoNone \<Rightarrow> Inr plan
      | SsoNative \<Rightarrow>
          and_then (required_param ''domain'' (ip_domain params)) (\<lambda>domain.
            Inr (plan @
              [CreateOidcClient app (map (\<lambda>p. ''https://'' @ domain @ p) redirect_paths),
               GenerateSecret (app @ ''-oidc-secret'') ''OIDC client secret'']))
      | _ \<Rightarrow>
          and_then (required_param ''domain'' (ip_domain params)) (\<lambda>domain.
            Inr (plan @ [AddPortalCallback (''https://'' @ domain @ PORTAL_CALLBACK)])))"
| "resolve_capability app params (ObjectStorage bucket _ expire_after_days) plan =
     (let secret = snd (s3_key_secrets app) in
      Inr (push_secret_once secret ''S3 secret key'' plan @
           [ProvisionBucket (bucket_name bucket app) app secret expire_after_days]))"
| "resolve_capability app params (Smtp sender) plan =
     (case sender of
        SenderApp \<Rightarrow>
          and_then (required_param ''mail_domain'' (ip_mail_domain params)) (\<lambda>domain.
            Inr (plan @
              [GenerateSecret (app @ ''-smtp-password'') ''SMTP submission'',
               ProvisionSmtpAccount (app @ ''@'' @ domain) (app @ ''-smtp-password'')]))
      | SenderPerson \<Rightarrow> Inr plan)"
| "resolve_capability app params (MailAccount quota_bytes aliases) plan =
     and_then (required_param ''mail_domain'' (ip_mail_domain params)) (\<lambda>domain.
       Inr (plan @ [ProvisionMailAccount (app @ ''@'' @ domain) aliases quota_bytes]))"
| "resolve_capability app params (Storage name path tier backup sqlite _ owner) plan =
     (case owner of
        Some _ \<Rightarrow> Inr plan
      | None \<Rightarrow> Inr (plan @ [CreateVolume (app @ ''-'' @ name) path tier backup sqlite]))"

text \<open>The role's limit is the app's, across its databases on the engine.\<close>

fun set_limit :: "capability list \<Rightarrow> action \<Rightarrow> action" where
  "set_limit requires (ProvisionDatabase engine db role secret ext _) =
     ProvisionDatabase engine db role secret ext (role_connection_limit requires engine)"
| "set_limit requires a = a"

definition provision_actions :: "manifest \<Rightarrow> install_params \<Rightarrow> resolve_error + plan" where
  "provision_actions m params =
     and_then (try_fold (resolve_capability (app_name m) params) (requires_of m) [])
       (\<lambda>plan. Inr (map (set_limit (requires_of m)) plan))"


section \<open>The service and its environment\<close>

definition wait_for :: "healthcheck option \<Rightarrow> install_params \<Rightarrow> u64" where
  "wait_for probe params =
     (case probe of
        None \<Rightarrow> ip_health_timeout_secs params
      | Some h \<Rightarrow> max (ip_health_timeout_secs params)
                     (hc_start_period_secs h + hc_interval_secs h * hc_retries h))"

definition domain_vars :: "install_params \<Rightarrow> (string \<times> string) list" where
  "domain_vars params =
     (case ip_domain params of
        None \<Rightarrow> []
      | Some d \<Rightarrow>
          (let base = (case split_once CHR ''.'' d of
                         Some (_, rest) \<Rightarrow> if CHR ''.'' \<in> set rest then rest else d
                       | None \<Rightarrow> d) in
           [(''domain'', d), (''base_domain'', base)]))"

definition guide_env :: "guide \<Rightarrow> install_params \<Rightarrow> (string \<times> string) list" where
  "guide_env g params =
     concat (map (\<lambda>s. concat (map (\<lambda>a. case a of
        AutoEnv vars \<Rightarrow> map (\<lambda>(k, v). (k, render v (domain_vars params))) vars
      | _ \<Rightarrow> []) (step_automate s))) (steps g))"

definition app_env :: "manifest \<Rightarrow> guide \<Rightarrow> install_params \<Rightarrow> (string, string) btree_map" where
  "app_env m g params =
     (let table = bt_extend (sp_env (mf_spec m)) (guide_env g params) in
      if sp_downloads (mf_spec m) \<noteq> []
      then bt_insert DOWNLOADS_ENV (join_with '','' (map dl_sha256 (sp_downloads (mf_spec m)))) table
      else table)"

fun mount_of :: "string \<Rightarrow> capability \<Rightarrow> (string \<times> string) option" where
  "mount_of app (Storage name path _ _ _ _ owner) =
     Some ((case owner of Some o' \<Rightarrow> o' | None \<Rightarrow> app) @ ''-'' @ name, path)"
| "mount_of app _ = None"

definition app_mounts :: "manifest \<Rightarrow> (string \<times> string) list" where
  "app_mounts m = List.map_filter (mount_of (app_name m)) (requires_of m)"

definition node_label_constraint :: "string \<Rightarrow> string" where
  "node_label_constraint label = ''node.labels.'' @ label @ ''==true''"

definition placement :: "string option \<Rightarrow> string option \<Rightarrow> string list" where
  "placement tier label =
     (case tier of None \<Rightarrow> [] | Some t \<Rightarrow> (case tier_constraint t of None \<Rightarrow> [] | Some c \<Rightarrow> [c])) @
     (case label of None \<Rightarrow> [] | Some l \<Rightarrow> [node_label_constraint l])"

definition app_constraints :: "manifest \<Rightarrow> string list" where
  "app_constraints m =
     placement (sw_tier (sp_swarm (mf_spec m))) (sw_node_label (sp_swarm (mf_spec m))) @
     map data_constraint (List.map_filter storage_owner (requires_of m))"


section \<open>Generated secrets\<close>

definition api_bodies :: "guide \<Rightarrow> string list" where
  "api_bodies g =
     concat (map (\<lambda>s. concat (map (\<lambda>a. case a of
        AutoApi _ _ _ _ calls \<Rightarrow> List.map_filter call_body calls
      | AutoSql _ params _ _ \<Rightarrow> params
      | _ \<Rightarrow> []) (step_automate s))) (steps g))"

fun ok_of :: "'e + 'a \<Rightarrow> 'a option" where
  "ok_of (Inr a) = Some a"
| "ok_of (Inl _) = None"

fun form_rank :: "secret_form \<Rightarrow> nat" where
  "form_rank Plain = 0"
| "form_rank Hex = 1"
| "form_rank Bcrypt = 2"
| "form_rank Base64url = 3"
| "form_rank Base64 = 4"
| "form_rank VapidPrivate = 5"
| "form_rank VapidPublic = 6"
| "form_rank Rsa = 7"

text \<open>\<open>dedup_by\<close> on equal names: of consecutive secrets with one name, the first.\<close>

fun dedup_names :: "generated_secret list \<Rightarrow> generated_secret list" where
  "dedup_names (a # b # gs) =
     (if gs_name a = gs_name b then dedup_names (a # gs) else a # dedup_names (b # gs))"
| "dedup_names gs = gs"

definition generated_of :: "manifest \<Rightarrow> guide \<Rightarrow> generated_secret list" where
  "generated_of m g =
     dedup_names (sort_key (\<lambda>s. (gs_name s, form_rank (gs_form s)))
       (List.map_filter ok_of
          (concat (map generated_secrets (substituted (mf_spec m) @ api_bodies g)))))"

definition secret_actions :: "manifest \<Rightarrow> guide \<Rightarrow> plan" where
  "secret_actions m g =
     map (\<lambda>s. GenerateSecret (vault_name s (app_name m))
                (gs_name s @ '' of '' @ app_name m @ '', generated at install''))
       (generated_of m g)"


section \<open>Companions, the app, its guide and its routes\<close>

definition digest_actions :: "image \<Rightarrow> plan" where
  "digest_actions i = (if is_pinned i then [] else [ResolveDigest (img_repo i) (img_tag i)])"

definition file_pairs :: "config_file list \<Rightarrow> (string \<times> string) list" where
  "file_pairs fs = map (\<lambda>f. (cf_path f, cf_content f)) fs"

definition companion_deployment :: "manifest \<Rightarrow> companion \<Rightarrow> service_deployment" where
  "companion_deployment m c =
     (let service = app_name m @ ''-'' @ co_name c in
      \<lparr>ds_name = service, ds_image = image_reference (co_image c), ds_replicas = 1,
       ds_constraints =
         placement (case co_tier c of Some t \<Rightarrow> Some t | None \<Rightarrow> sw_tier (sp_swarm (mf_spec m)))
           (co_node_label c),
       ds_env = companion_environment c (mf_spec m),
       ds_mounts = map (\<lambda>v. (service @ ''-'' @ cv_name v, cv_path v)) (co_storage c),
       ds_hardening = co_security c, ds_healthcheck = co_healthcheck c,
       ds_files = file_pairs (co_files c), ds_command = co_command c, ds_args = co_args c,
       ds_process = co_process c, ds_memory = co_memory c\<rparr>)"

definition companion_actions :: "manifest \<Rightarrow> install_params \<Rightarrow> companion \<Rightarrow> plan" where
  "companion_actions m params c =
     (let service = app_name m @ ''-'' @ co_name c in
      map (\<lambda>v. CreateVolume (service @ ''-'' @ cv_name v) (cv_path v) TierLocal (cv_backup v) False)
        (co_storage c) @
      digest_actions (co_image c) @
      [DeployService (companion_deployment m c),
       WaitHealthy service (wait_for (co_healthcheck c) params)])"

definition download_action :: "manifest \<Rightarrow> download \<Rightarrow> action" where
  "download_action m d =
     FetchDownload
       \<lparr>fd_app = app_name m, fd_volume = app_name m @ ''-'' @ dl_storage d, fd_url = dl_url d,
        fd_sha256 = dl_sha256 d, fd_into = dl_into d, fd_unzip = dl_unzip d,
        fd_constraints = app_constraints m, fd_mounts = app_mounts m\<rparr>"

definition app_deployment :: "manifest \<Rightarrow> guide \<Rightarrow> install_params \<Rightarrow> service_deployment" where
  "app_deployment m g params =
     (let s = mf_spec m in
      \<lparr>ds_name = app_name m, ds_image = image_reference (sp_image s),
       ds_replicas = sw_replicas (sp_swarm s), ds_constraints = app_constraints m,
       ds_env = app_env m g params, ds_mounts = app_mounts m, ds_hardening = sp_security s,
       ds_healthcheck = sw_healthcheck (sp_swarm s), ds_files = file_pairs (sp_files s),
       ds_command = sp_command s, ds_args = sp_args s, ds_process = sp_process s,
       ds_memory = sw_memory (sp_swarm s)\<rparr>)"

definition guide_actions :: "manifest \<Rightarrow> guide \<Rightarrow> install_params \<Rightarrow> plan" where
  "guide_actions m g params =
     map (\<lambda>s. PendingGuideStep (step_id s) (render (step_title s) (domain_vars params))
                (is_blocking s) (app_name m) s)
       (filter (\<lambda>s. at_install (step_phase s)) (steps g))"

definition first_admin_step :: "string \<Rightarrow> guide_step" where
  "first_admin_step app =
     \<lparr>step_id = app @ ''-first-admin'', step_title = ''Administrator account'',
      step_phase = PostInstall, step_severity = Blocking, step_body = [], step_after = [],
      step_automate = [], step_verify = Attest, step_deeplink = None, step_recheck = None\<rparr>"

definition default_guard :: "manifest \<Rightarrow> guide \<Rightarrow> plan" where
  "default_guard m g =
     (if list_ex (\<lambda>i. ing_expose i = AfterGuide) (sp_ingress (mf_spec m)) \<and>
         \<not> list_ex is_blocking (steps g)
      then [PendingGuideStep (app_name m @ ''-first-admin'')
              (''Check '' @ app_name m @ [CHR 0x27] @ ''s administrator account and close sign-ups'')
              True (app_name m) (first_admin_step (app_name m))]
      else [])"

definition render_host :: "string \<Rightarrow> install_params \<Rightarrow> resolve_error + string" where
  "render_host tpl params =
     (if \<not> str_contains tpl ''{{'' then Inr tpl
      else and_then (required_param ''domain'' (ip_domain params)) (\<lambda>domain.
        Inr (str_replace (str_replace tpl ''{{ domain }}'' domain) ''{{domain}}'' domain)))"

definition ingress_action :: "manifest \<Rightarrow> install_params \<Rightarrow> ingress \<Rightarrow> resolve_error + action" where
  "ingress_action m params ing =
     and_then (render_host (ing_host ing) params) (\<lambda>host.
       Inr (ConfigureIngress host (app_name m) (ing_port ing) (ing_expose ing = Public)))"


section \<open>The whole plan\<close>

definition compose_reason :: string where
  "compose_reason =
     ''runtime '' @ quote_mark @ ''compose'' @ quote_mark @
     '' is not implemented: install it by hand for now '' @ em_dash @ '' see the roadmap''"

definition check_runtime :: "manifest \<Rightarrow> resolve_error + unit" where
  "check_runtime m =
     (case sp_runtime (mf_spec m) of
        Swarm \<Rightarrow> Inr ()
      | Compose \<Rightarrow> Inl (Unsupported (app_name m) compose_reason))"

definition asks_timezone :: "manifest \<Rightarrow> bool" where
  "asks_timezone m \<longleftrightarrow>
     list_ex (\<lambda>t. t = Timezone) (concat (map tokens_in (substituted (mf_spec m))))"

definition check_timezone ::
  "(string \<Rightarrow> bool) \<Rightarrow> manifest \<Rightarrow> install_params \<Rightarrow> resolve_error + unit" where
  "check_timezone is_time_zone m params =
     (if asks_timezone m
      then (case ip_timezone params of
              None \<Rightarrow> Inl (MissingParam ''timezone'')
            | Some z \<Rightarrow> if \<not> is_time_zone z then Inl (UnknownTimezone z) else Inr ())
      else Inr ())"

text \<open>Everything between the prerequisites and the routes.\<close>

definition service_actions :: "manifest \<Rightarrow> guide \<Rightarrow> install_params \<Rightarrow> plan" where
  "service_actions m g params =
     digest_actions (sp_image (mf_spec m)) @
     secret_actions m g @
     concat (map (companion_actions m params) (sp_companions (mf_spec m))) @
     map (download_action m) (sp_downloads (mf_spec m)) @
     [DeployService (app_deployment m g params),
      WaitHealthy (app_name m) (wait_for (sw_healthcheck (sp_swarm (mf_spec m))) params)] @
     guide_actions m g params @
     default_guard m g"

text \<open>\<open>resolve_with_guide\<close> once the manifest is validated.\<close>

definition resolve_validated ::
  "(string \<Rightarrow> bool) \<Rightarrow> manifest \<Rightarrow> guide \<Rightarrow> install_params \<Rightarrow> resolve_error + plan" where
  "resolve_validated is_time_zone m g params =
     and_then (check_runtime m) (\<lambda>_.
     and_then (check_timezone is_time_zone m params) (\<lambda>_.
     and_then (provision_actions m params) (\<lambda>provisioned.
     and_then (collect_results (ingress_action m params) (sp_ingress (mf_spec m))) (\<lambda>routes.
       Inr (provisioned @ service_actions m g params @ routes)))))"

text \<open>The entry points: the manifest is validated first.\<close>

definition resolve_with_guide ::
  "(json \<Rightarrow> string) \<Rightarrow> (string \<Rightarrow> bool) \<Rightarrow> manifest \<Rightarrow> guide \<Rightarrow> install_params \<Rightarrow> resolve_error + plan"
where
  "resolve_with_guide print_json is_time_zone m g params =
     and_then (under ErrManifest (validate_with_guide print_json m g)) (\<lambda>_.
       resolve_validated is_time_zone m g params)"

definition resolve ::
  "(json \<Rightarrow> string) \<Rightarrow> (string \<Rightarrow> bool) \<Rightarrow> manifest \<Rightarrow> install_params \<Rightarrow> resolve_error + plan" where
  "resolve print_json is_time_zone m params =
     resolve_with_guide print_json is_time_zone m default_guide params"

lemma resolve_with_guide_Inr:
  "resolve_with_guide pj tz m g params = Inr plan \<longleftrightarrow>
   validate_with_guide pj m g = Inr () \<and> resolve_validated tz m g params = Inr plan"
  by (auto simp: resolve_with_guide_def and_then_Inr_conv)

end
