(* ===== verification/Resolver_Order.thy ===== *)
theory Resolver_Order
  imports Resolver
begin

text \<open>
  What the order of a plan guarantees: a secret exists before the action that uses it, a
  volume before the service that mounts it, a companion is healthy before its app starts,
  and routes are opened last.
\<close>

section \<open>The shape of a plan\<close>

lemma resolve_Inr_conv:
  "resolve_validated tz m g params = Inr plan \<longleftrightarrow>
   check_runtime m = Inr () \<and> check_timezone tz m params = Inr () \<and>
   (\<exists>provisioned routes.
      provision_actions m params = Inr provisioned \<and>
      collect_results (ingress_action m params) (sp_ingress (mf_spec m)) = Inr routes \<and>
      plan = provisioned @ service_actions m g params @ routes)"
  by (auto simp: resolve_validated_def and_then_Inr_conv)

lemma resolve_shape:
  assumes "resolve_validated tz m g params = Inr plan"
  obtains provisioned routes where
    "provision_actions m params = Inr provisioned"
    "collect_results (ingress_action m params) (sp_ingress (mf_spec m)) = Inr routes"
    "plan = provisioned @ service_actions m g params @ routes"
  using assms by (auto simp: resolve_Inr_conv)

lemma provision_Inr_conv:
  "provision_actions m params = Inr p \<longleftrightarrow>
   (\<exists>q. try_fold (resolve_capability (app_name m) params) (requires_of m) [] = Inr q \<and>
        p = map (set_limit (requires_of m)) q)"
  by (auto simp: provision_actions_def and_then_Inr_conv)

lemma required_param_Inr [simp]: "required_param p v = Inr x \<longleftrightarrow> v = Some x"
  by (cases v) (auto simp: required_param_def)

lemma required_param_Inl [simp]: "required_param p v = Inl e \<longleftrightarrow> v = None \<and> e = MissingParam p"
  by (cases v) (auto simp: required_param_def)

text \<open>Which kinds of action each part pushes.\<close>

fun is_deploy :: "action \<Rightarrow> bool" where
  "is_deploy (DeployService _) = True"
| "is_deploy _ = False"

fun is_ingress :: "action \<Rightarrow> bool" where
  "is_ingress (ConfigureIngress _ _ _ _) = True"
| "is_ingress _ = False"

fun uses_secret :: "action \<Rightarrow> string option" where
  "uses_secret (ProvisionDatabase _ _ _ s _ _) = Some s"
| "uses_secret (ProvisionBucket _ _ s _) = Some s"
| "uses_secret (ProvisionSmtpAccount _ s) = Some s"
| "uses_secret _ = None"

lemma resolve_capability_extends:
  assumes "resolve_capability app params c plan = Inr plan'"
  obtains new where "plan' = plan @ new"
    "\<And>a. a \<in> set new \<Longrightarrow> \<not> is_deploy a \<and> \<not> is_ingress a \<and> \<not> is_blocking_step a"
  using assms
  by (cases c) (fastforce simp: push_secret_once_def and_then_Inr_conv Let_def
      split: sso_mode.splits smtp_sender.splits option.splits if_splits)+

lemma provision_no_deploy:
  assumes "provision_actions m params = Inr p" and "a \<in> set p"
  shows "\<not> is_deploy a \<and> \<not> is_ingress a \<and> \<not> is_blocking_step a"
proof -
  have lim: "is_deploy (set_limit r b) = is_deploy b" "is_ingress (set_limit r b) = is_ingress b"
    "is_blocking_step (set_limit r b) = is_blocking_step b" for r b
    by (cases b; simp)+
  obtain q where q: "try_fold (resolve_capability (app_name m) params) (requires_of m) [] = Inr q"
    and p: "p = map (set_limit (requires_of m)) q"
    using assms(1) by (auto simp: provision_Inr_conv)
  have "\<forall>a \<in> set q. \<not> is_deploy a \<and> \<not> is_ingress a \<and> \<not> is_blocking_step a"
    by (rule try_fold_invariant [OF q]) (auto elim!: resolve_capability_extends)
  with assms(2) show ?thesis by (auto simp: p lim)
qed

lemma provision_no_fetch:
  assumes "provision_actions m params = Inr p"
  shows "FetchDownload f \<notin> set p"
proof -
  obtain q where q: "try_fold (resolve_capability (app_name m) params) (requires_of m) [] = Inr q"
    and p: "p = map (set_limit (requires_of m)) q"
    using assms by (auto simp: provision_Inr_conv)
  have "FetchDownload f \<notin> set plan'"
    if "FetchDownload f \<notin> set plan" "resolve_capability app params c plan = Inr plan'" for app c plan plan'
    using that by (cases c) (auto simp: push_secret_once_def and_then_Inr_conv Let_def
        split: sso_mode.splits smtp_sender.splits option.splits if_splits)
  then have "FetchDownload f \<notin> set q"
    by (rule try_fold_invariant [OF q, where I = "\<lambda>p. FetchDownload f \<notin> set p", simplified]) auto
  moreover have "set_limit r a = FetchDownload f \<Longrightarrow> a = FetchDownload f" for r a by (cases a) auto
  ultimately show ?thesis unfolding p by (metis imageE list.set_map)
qed

lemma service_no_ingress: "a \<in> set (service_actions m g params) \<Longrightarrow> \<not> is_ingress a"
  by (auto simp: service_actions_def secret_actions_def companion_actions_def digest_actions_def
      download_action_def guide_actions_def default_guard_def Let_def split: if_splits)

lemma routes_are_ingress:
  assumes "collect_results (ingress_action m params) is = Inr routes" and "a \<in> set routes"
  shows "is_ingress a" and "uses_secret a = None" and "\<not> is_deploy a"
proof -
  from assms obtain i where "ingress_action m params i = Inr a"
    by (auto simp: collect_results_Inr_conv list_all2_conv_all_nth in_set_conv_nth)
  then have "is_ingress a" by (auto simp: ingress_action_def and_then_Inr_conv)
  then show "is_ingress a" "uses_secret a = None" "\<not> is_deploy a" by (cases a; simp)+
qed


section \<open>Secrets exist before they are used\<close>

lemma generates_append [simp]: "generates (p @ q) s \<longleftrightarrow> generates p s \<or> generates q s"
  by (simp add: generates_def)

lemma generates_iff: "generates p s \<longleftrightarrow> (\<exists>purpose. GenerateSecret s purpose \<in> set p)"
proof (induction p)
  case (Cons a p)
  then show ?case by (cases a) (auto simp: generates_def)
qed (simp add: generates_def)

lemma generates_Nil [simp]: "\<not> generates [] s"
  by (simp add: generates_def)

fun secrets_ready :: "plan \<Rightarrow> plan \<Rightarrow> bool" where
  "secrets_ready before [] \<longleftrightarrow> True"
| "secrets_ready before (a # p) \<longleftrightarrow>
     (case uses_secret a of None \<Rightarrow> True | Some s \<Rightarrow> generates before s) \<and>
     secrets_ready (before @ [a]) p"

lemma secrets_ready_append [simp]:
  "secrets_ready b (p @ q) \<longleftrightarrow> secrets_ready b p \<and> secrets_ready (b @ p) q"
  by (induction b p rule: secrets_ready.induct) auto

lemma secrets_ready_split:
  "secrets_ready b (xs @ a # ys) \<Longrightarrow> uses_secret a = Some s \<Longrightarrow> generates (b @ xs) s"
  by simp

lemma secrets_ready_unused:
  "(\<And>a. a \<in> set p \<Longrightarrow> uses_secret a = None) \<Longrightarrow> secrets_ready b p"
  by (induction b p rule: secrets_ready.induct) auto

lemma generates_set_limit [simp]: "generates (map (set_limit r) p) s \<longleftrightarrow> generates p s"
proof -
  have "(case set_limit r a of GenerateSecret n _ \<Rightarrow> n = s | _ \<Rightarrow> False) \<longleftrightarrow>
        (case a of GenerateSecret n _ \<Rightarrow> n = s | _ \<Rightarrow> False)" for a
    by (cases a) simp_all
  then show ?thesis by (simp add: generates_def list_ex_iff)
qed

lemma uses_secret_set_limit [simp]: "uses_secret (set_limit r a) = uses_secret a"
  by (cases a) simp_all

lemma secrets_ready_set_limit [simp]:
  "secrets_ready (map (set_limit r) b) (map (set_limit r) p) \<longleftrightarrow> secrets_ready b p"
proof (induction p arbitrary: b)
  case (Cons a p)
  from Cons [of "b @ [a]"] show ?case by (simp split: option.splits)
qed simp

lemma secrets_ready_capability:
  assumes "secrets_ready [] plan" and "resolve_capability app params c plan = Inr plan'"
  shows "secrets_ready [] plan'"
  using assms
  by (cases c) (auto simp: push_secret_once_def and_then_Inr_conv Let_def generates_def
      split: sso_mode.splits smtp_sender.splits option.splits if_splits)

lemma secrets_ready_provision:
  assumes "provision_actions m params = Inr p"
  shows "secrets_ready [] p"
proof -
  obtain q where q: "try_fold (resolve_capability (app_name m) params) (requires_of m) [] = Inr q"
    and p: "p = map (set_limit (requires_of m)) q"
    using assms by (auto simp: provision_Inr_conv)
  have "secrets_ready [] q"
    by (rule try_fold_invariant [OF q]) (auto intro: secrets_ready_capability)
  then show ?thesis using secrets_ready_set_limit [of _ "[]" q] by (simp add: p)
qed

lemma service_uses_no_secret: "a \<in> set (service_actions m g params) \<Longrightarrow> uses_secret a = None"
  by (auto simp: service_actions_def secret_actions_def companion_actions_def digest_actions_def
      download_action_def guide_actions_def default_guard_def Let_def split: if_splits)

lemma plan_secrets_ready:
  assumes "resolve_validated tz m g params = Inr plan"
  shows "secrets_ready [] plan"
proof -
  obtain provisioned routes where
    p: "provision_actions m params = Inr provisioned"
    and r: "collect_results (ingress_action m params) (sp_ingress (mf_spec m)) = Inr routes"
    and plan: "plan = provisioned @ service_actions m g params @ routes"
    using assms by (rule resolve_shape)
  have "secrets_ready b (service_actions m g params)" for b
    by (rule secrets_ready_unused) (rule service_uses_no_secret)
  moreover have "secrets_ready b routes" for b
    by (rule secrets_ready_unused) (rule routes_are_ingress(2) [OF r])
  ultimately show ?thesis
    using secrets_ready_provision [OF p] by (simp add: plan)
qed


text \<open>Every secret a text of the manifest or a guide call names is generated.\<close>

lemma gs_names_dedup: "gs_name ` set (dedup_names gs) = gs_name ` set gs"
  by (induction gs rule: dedup_names.induct) auto

lemma set_generated_names:
  "gs_name ` set (generated_of m g) =
   {gs_name s |s v. v \<in> set (substituted (mf_spec m) @ api_bodies g) \<and> Inr s \<in> set (generated_secrets v)}"
proof -
  have ok: "ok_of r = Some s \<longleftrightarrow> r = Inr s" for r :: "string + generated_secret" and s
    by (cases r) auto
  show ?thesis
    by (auto simp: generated_of_def gs_names_dedup set_map_filter ok image_iff)
qed

lemma secret_actions_generate:
  assumes "v \<in> set (substituted (mf_spec m) @ api_bodies g)" and "Inr s \<in> set (generated_secrets v)"
  shows "generates (secret_actions m g) (vault_name s (app_name m))"
proof -
  from assms have "gs_name s \<in> gs_name ` set (generated_of m g)"
    by (auto simp: set_generated_names)
  then obtain s' where "s' \<in> set (generated_of m g)" "gs_name s' = gs_name s" by auto
  moreover from this have
    "GenerateSecret (vault_name s' (app_name m))
       (gs_name s' @ '' of '' @ app_name m @ '', generated at install'') \<in> set (secret_actions m g)"
    unfolding secret_actions_def set_map by (intro imageI)
  moreover have "vault_name s' (app_name m) = vault_name s (app_name m)"
    using calculation(2) by (simp add: vault_name_def)
  ultimately show ?thesis unfolding generates_iff by metis
qed

text \<open>The part of a plan before its first deployment, the companions, the app.\<close>

lemma split_after_prefix:
  assumes "p @ q = xs @ a # ys" and "a \<notin> set p"
  obtains zs where "xs = p @ zs" "q = zs @ a # ys"
  using assms by (auto simp: append_eq_append_conv2 Cons_eq_append_conv append_eq_Cons_conv)

lemma split_before_suffix:
  assumes "p @ q = xs @ a # ys" and "a \<notin> set q"
  obtains zs where "p = xs @ a # zs" "ys = zs @ q"
proof (cases "a \<in> set p")
  case False
  with assms(1) show ?thesis using assms(2) by (elim split_after_prefix) auto
next
  case True
  from assms obtain us where "xs = p @ us \<and> q = us @ a # ys \<or> xs @ us = p \<and> us @ q = a # ys"
    by (auto simp: append_eq_append_conv2)
  with assms(2) have "xs @ us = p" "us @ q = a # ys" by auto
  with assms(2) that show ?thesis by (cases us) auto
qed

definition before_services :: "manifest \<Rightarrow> guide \<Rightarrow> plan" where
  "before_services m g = digest_actions (sp_image (mf_spec m)) @ secret_actions m g"

definition companions_part :: "manifest \<Rightarrow> install_params \<Rightarrow> plan" where
  "companions_part m params =
     concat (map (companion_actions m params) (sp_companions (mf_spec m)))"

definition app_part :: "manifest \<Rightarrow> guide \<Rightarrow> install_params \<Rightarrow> plan" where
  "app_part m g params =
     map (download_action m) (sp_downloads (mf_spec m)) @
     [DeployService (app_deployment m g params),
      WaitHealthy (app_name m) (wait_for (sw_healthcheck (sp_swarm (mf_spec m))) params)] @
     guide_actions m g params @
     default_guard m g"

lemma service_actions_split:
  "service_actions m g params = before_services m g @ companions_part m params @ app_part m g params"
  by (simp add: service_actions_def before_services_def companions_part_def app_part_def)

lemma app_part_deploys: "DeployService d \<in> set (app_part m g params) \<longleftrightarrow> d = app_deployment m g params"
  by (auto simp: app_part_def download_action_def guide_actions_def default_guard_def)

lemma before_services_no_deploy: "DeployService d \<notin> set (before_services m g)"
  by (auto simp: before_services_def digest_actions_def secret_actions_def)

lemma deploy_split:
  assumes "resolve_validated tz m g params = Inr plan" and "plan = xs @ DeployService d # ys"
  obtains provisioned zs us routes where
    "provision_actions m params = Inr provisioned"
    "xs = provisioned @ before_services m g @ zs"
    "companions_part m params @ app_part m g params = zs @ DeployService d # us"
    "ys = us @ routes"
    "\<And>a. a \<in> set routes \<Longrightarrow> is_ingress a"
proof -
  obtain p r where
    p: "provision_actions m params = Inr p"
    and r: "collect_results (ingress_action m params) (sp_ingress (mf_spec m)) = Inr r"
    and plan: "plan = p @ service_actions m g params @ r"
    using assms(1) by (rule resolve_shape)
  have no: "DeployService d \<notin> set (p @ before_services m g)"
    using provision_no_deploy [OF p, of "DeployService d"] by (auto simp: before_services_no_deploy)
  have "(p @ before_services m g) @ (companions_part m params @ app_part m g params) @ r = xs @ DeployService d # ys"
    using plan assms(2) by (simp add: service_actions_split)
  then obtain zs where zs: "xs = (p @ before_services m g) @ zs"
    "(companions_part m params @ app_part m g params) @ r = zs @ DeployService d # ys"
    using no by (rule split_after_prefix)
  have "DeployService d \<notin> set r" using routes_are_ingress(3) [OF r, of "DeployService d"] by auto
  with zs(2) obtain us where us: "companions_part m params @ app_part m g params = zs @ DeployService d # us" "ys = us @ r"
    by (rule split_before_suffix)
  show ?thesis
    by (rule that [OF p _ us]) (use zs(1) routes_are_ingress(1) [OF r] in auto)
qed


section \<open>Companions and volumes before the services that need them\<close>

lemma companion_prefix:
  assumes "c \<in> set (sp_companions (mf_spec m))"
  obtains us ws where
    "companions_part m params =
     us @ DeployService (companion_deployment m c) #
       WaitHealthy (app_name m @ ''-'' @ co_name c) (wait_for (co_healthcheck c) params) # ws"
proof -
  from assms obtain xs ys where "sp_companions (mf_spec m) = xs @ c # ys"
    by (auto simp: in_set_conv_decomp)
  then show ?thesis
    by (intro that [of "concat (map (companion_actions m params) xs) @
          map (\<lambda>v. CreateVolume (app_name m @ ''-'' @ co_name c @ ''-'' @ cv_name v) (cv_path v)
            TierLocal (cv_backup v) False) (co_storage c) @ digest_actions (co_image c)"])
      (simp add: companions_part_def companion_actions_def Let_def)
qed

lemma companions_part_names: "DeployService d \<in> set (companions_part m params) \<Longrightarrow> ds_name d \<noteq> app_name m"
  by (auto simp: companions_part_def companion_actions_def digest_actions_def companion_deployment_def
      Let_def split: if_splits)

lemma app_deploy_after_companions:
  assumes "companions_part m params @ app_part m g params = zs @ DeployService d # us"
    and "ds_name d = app_name m"
  obtains ws where "zs = companions_part m params @ ws" "d = app_deployment m g params"
proof -
  have "DeployService d \<notin> set (companions_part m params)" using companions_part_names assms(2) by blast
  with assms(1) obtain ws where ws: "zs = companions_part m params @ ws" "app_part m g params = ws @ DeployService d # us"
    by (rule split_after_prefix)
  then have "d = app_deployment m g params"
    using app_part_deploys [of d m g params] by simp
  with ws(1) show ?thesis by (rule that)
qed

text \<open>A companion's volumes are created before it is deployed.\<close>

definition companion_volume_actions :: "manifest \<Rightarrow> companion \<Rightarrow> plan" where
  "companion_volume_actions m c =
     map (\<lambda>v. CreateVolume (app_name m @ ''-'' @ co_name c @ ''-'' @ cv_name v) (cv_path v) TierLocal
            (cv_backup v) False) (co_storage c)"

lemma companion_actions_split:
  "companion_actions m params c =
   companion_volume_actions m c @ digest_actions (co_image c) @
   [DeployService (companion_deployment m c),
    WaitHealthy (app_name m @ ''-'' @ co_name c) (wait_for (co_healthcheck c) params)]"
  by (simp add: companion_actions_def companion_volume_actions_def Let_def)

lemma companion_volumes_first:
  assumes "concat (map (companion_actions m params) cs) = zs @ DeployService d # vs"
  shows "\<exists>c \<in> set cs. d = companion_deployment m c \<and> set (companion_volume_actions m c) \<subseteq> set zs"
  using assms
proof (induction cs arbitrary: zs)
  case (Cons c cs)
  show ?case
  proof (cases "DeployService d \<in> set (companion_actions m params c)")
    case True
    then have d: "d = companion_deployment m c"
      by (auto simp: companion_actions_def digest_actions_def Let_def split: if_splits)
    have "companion_volume_actions m c @ digest_actions (co_image c) @
        [DeployService (companion_deployment m c),
         WaitHealthy (app_name m @ ''-'' @ co_name c) (wait_for (co_healthcheck c) params)] @
        concat (map (companion_actions m params) cs) = zs @ DeployService d # vs"
      using Cons.prems by (simp add: companion_actions_split [of m params c])
    then obtain ys where "zs = companion_volume_actions m c @ ys"
      by (rule split_after_prefix) (auto simp: companion_volume_actions_def)
    with d show ?thesis by simp
  next
    case False
    have "companion_actions m params c @ concat (map (companion_actions m params) cs) = zs @ DeployService d # vs"
      using Cons.prems by simp
    then obtain zs' where zs': "zs = companion_actions m params c @ zs'"
      "concat (map (companion_actions m params) cs) = zs' @ DeployService d # vs"
      using False by (rule split_after_prefix)
    from Cons.IH [OF zs'(2)] zs'(1) show ?thesis by auto
  qed
qed simp

text \<open>The deployments of a plan are those of the companions and of the app.\<close>

lemma deployed_cases:
  assumes "companions_part m params @ app_part m g params = zs @ DeployService d # us"
  shows "d = app_deployment m g params \<or>
    (\<exists>c \<in> set (sp_companions (mf_spec m)). d = companion_deployment m c \<and>
        set (companion_volume_actions m c) \<subseteq> set zs)"
proof (cases "d = app_deployment m g params")
  case False
  then have "DeployService d \<notin> set (app_part m g params)" by (simp add: app_part_deploys)
  with assms obtain vs where "companions_part m params = zs @ DeployService d # vs"
    by (rule split_before_suffix)
  from companion_volumes_first [OF this [unfolded companions_part_def]] show ?thesis by blast
qed simp

lemma own_volume_created:
  assumes "provision_actions m params = Inr p"
    and "Storage name path tier backup sqlite copy None \<in> set (requires_of m)"
  shows "CreateVolume (app_name m @ ''-'' @ name) path tier backup sqlite \<in> set p"
proof -
  let ?a = "CreateVolume (app_name m @ ''-'' @ name) path tier backup sqlite"
  obtain q where q: "try_fold (resolve_capability (app_name m) params) (requires_of m) [] = Inr q"
    and p: "p = map (set_limit (requires_of m)) q"
    using assms(1) by (auto simp: provision_Inr_conv)
  obtain xs ys where r: "requires_of m = xs @ Storage name path tier backup sqlite copy None # ys"
    using assms(2) by (auto simp: in_set_conv_decomp)
  from q obtain q1 where q1: "try_fold (resolve_capability (app_name m) params) ys (q1 @ [?a]) = Inr q"
    by (auto simp: r try_fold_append and_then_Inr_conv)
  have "?a \<in> set q"
    by (rule try_fold_invariant [OF q1]) (auto elim!: resolve_capability_extends)
  then have "set_limit (requires_of m) ?a \<in> set p" unfolding p set_map by (rule imageI)
  then show ?thesis by simp
qed

end
