(* ===== verification/Resolver_Props.thy ===== *)
theory Resolver_Props
  imports Resolver_Order
begin

text \<open>
  The properties of a resolved plan, each with a witness: an app with a database, a bucket,
  a volume, a companion, a generated secret and a route opened after its guide.
\<close>

section \<open>An app to witness them\<close>

definition sample_image :: image where
  "sample_image = \<lparr>img_repo = ''r/app'', img_tag = ''1'', img_digest = None, img_built_here = False,
     img_signed_by = None\<rparr>"

definition sample_companion :: companion where
  "sample_companion =
     \<lparr>co_name = ''ml'', co_image = sample_image,
      co_storage = [\<lparr>cv_name = ''models'', cv_path = ''/m'', cv_backup = False, cv_copy = CopyLive\<rparr>],
      co_env = [], co_shared_env = False, co_files = [], co_command = [], co_args = [],
      co_process = default_process, co_healthcheck = None, co_tier = None, co_node_label = None,
      co_memory = None, co_security = default_security\<rparr>"

definition sample_ingress :: ingress where
  "sample_ingress =
     \<lparr>ing_host = ''{{ domain }}'', ing_port = 80, ing_chain = [], ing_expose = AfterGuide, ing_paths = [],
      ing_auth_routes = [], ing_open_paths = []\<rparr>"

definition sample_manifest :: manifest where
  "sample_manifest =
     \<lparr>mf_api_version = V1, mf_kind = KindApp,
      mf_metadata = \<lparr>md_name = ''app'', md_hlb = None, md_criticality = None, md_display_name = None,
        md_category = None, md_homepage = None\<rparr>,
      mf_spec =
        \<lparr>sp_image = sample_image, sp_runtime = Swarm,
         sp_requires =
           [Database Postgres None [] (Some 5), Database Postgres (Some ''two'') [] (Some 7),
            Storage ''data'' ''/data'' TierLocal True False CopyLive None],
         sp_ingress = [sample_ingress], sp_swarm = default_swarm, sp_update = default_update,
         sp_companions = [sample_companion],
         sp_env = [(''KEY'', ''{{ secret.k }}''), (''PW'', ''{{ db.password }}'')], sp_shared_env = [],
         sp_security = default_security, sp_files = [], sp_command = [], sp_args = [],
         sp_process = default_process, sp_assertions = [], sp_access = None, sp_recovery = [],
         sp_jobs = [], sp_downloads = []\<rparr>\<rparr>"

definition sample_params :: install_params where
  "sample_params = with_domain ''a.example.org''"

definition sample_guide :: guide where
  "sample_guide = \<lparr>steps = []\<rparr>"

definition sample_provisioned :: plan where
  "sample_provisioned =
     [GenerateSecret ''app-db-password'' ''password for the app role'',
      ProvisionDatabase Postgres ''app'' ''app'' ''app-db-password'' [] (Some 24),
      ProvisionDatabase Postgres ''two'' ''app'' ''app-db-password'' [] (Some 24),
      CreateVolume ''app-data'' ''/data'' TierLocal True False]"

lemma sample_provision: "provision_actions sample_manifest sample_params = Inr sample_provisioned"
  by (simp add: provision_actions_def sample_manifest_def sample_provisioned_def push_secret_once_def
      generates_def role_connection_limit_def sat_add_def sat_mul_def Let_def)

lemma sample_routes:
  "collect_results (ingress_action sample_manifest sample_params) (sp_ingress (mf_spec sample_manifest)) =
   Inr [ConfigureIngress ''a.example.org'' ''app'' 80 False]"
  by code_simp

lemma sample_timezone: "\<not> asks_timezone sample_manifest"
  by code_simp

lemma sample_checks:
  "check_runtime sample_manifest = Inr ()" "check_timezone tz sample_manifest sample_params = Inr ()"
  by (simp_all add: check_runtime_def check_timezone_def sample_timezone) (simp add: sample_manifest_def)

lemma sample_secrets:
  "secret_actions sample_manifest sample_guide = [GenerateSecret ''app-k'' ''k of app, generated at install'']"
  by code_simp

definition sample_plan :: plan where
  "sample_plan =
     sample_provisioned @ service_actions sample_manifest sample_guide sample_params @
     [ConfigureIngress ''a.example.org'' ''app'' 80 False]"

lemma sample_resolved:
  "resolve_validated (\<lambda>_. True) sample_manifest sample_guide sample_params = Inr sample_plan"
  by (simp only: resolve_Inr_conv sample_checks sample_provision sample_routes sample_plan_def) simp

lemma sample_app_split:
  "sample_plan =
   (sample_provisioned @ before_services sample_manifest sample_guide @
    companions_part sample_manifest sample_params) @
   DeployService (app_deployment sample_manifest sample_guide sample_params) #
   [WaitHealthy ''app'' 120] @ default_guard sample_manifest sample_guide @
   [ConfigureIngress ''a.example.org'' ''app'' 80 False]"
  by (simp add: sample_plan_def service_actions_split app_part_def guide_actions_def sample_guide_def
      sample_manifest_def default_swarm_def wait_for_def sample_params_def with_domain_def
      default_params_def)

lemma sample_names: "app_name sample_manifest = ''app''" "sp_companions (mf_spec sample_manifest) = [sample_companion]"
  "requires_of sample_manifest =
     [Database Postgres None [] (Some 5), Database Postgres (Some ''two'') [] (Some 7),
      Storage ''data'' ''/data'' TierLocal True False CopyLive None]"
  "sp_ingress (mf_spec sample_manifest) = [sample_ingress]"
  by (simp_all add: sample_manifest_def)


section \<open>Order\<close>

text \<open>the password of a database, the key of a bucket and the password of a sending account
  are generated earlier in the plan than the action that gives them to the server.\<close>

theorem secrets_before_use:
  assumes "resolve_validated tz m g params = Inr (xs @ a # ys)" and "uses_secret a = Some s"
  shows "\<exists>purpose. GenerateSecret s purpose \<in> set xs"
  using secrets_ready_split [OF plan_secrets_ready [OF assms(1)] assms(2)]
  by (simp add: generates_iff)

theorem secrets_before_use_witness:
  "\<exists>purpose. GenerateSecret ''app-db-password'' purpose \<in>
     set [GenerateSecret ''app-db-password'' ''password for the app role'']"
proof (rule secrets_before_use)
  show "resolve_validated (\<lambda>_. True) sample_manifest sample_guide sample_params =
    Inr ([GenerateSecret ''app-db-password'' ''password for the app role''] @
         ProvisionDatabase Postgres ''app'' ''app'' ''app-db-password'' [] (Some 24) # drop 2 sample_plan)"
    by (simp add: sample_resolved) (simp add: sample_plan_def sample_provisioned_def)
qed simp

text \<open>C4: every secret a text of the manifest asks for, be it a variable or a file of the app or of a
  companion, and every secret a guide's call sends, is generated before any service of the
  app is deployed.\<close>

theorem generated_before_deploy:
  assumes "resolve_validated tz m g params = Inr (xs @ DeployService d # ys)"
    and "v \<in> set (substituted (mf_spec m) @ api_bodies g)"
    and "Inr s \<in> set (generated_secrets v)"
  shows "\<exists>purpose. GenerateSecret (vault_name s (app_name m)) purpose \<in> set xs"
proof -
  obtain p zs us r where "xs = p @ before_services m g @ zs"
    by (rule deploy_split [OF assms(1) refl])
  moreover have "generates (before_services m g) (vault_name s (app_name m))"
    using secret_actions_generate [OF assms(2,3)] by (simp add: before_services_def)
  ultimately show ?thesis by (auto simp: generates_iff)
qed

theorem generated_before_deploy_witness:
  "\<exists>purpose. GenerateSecret ''app-k'' purpose \<in>
     set (sample_provisioned @ before_services sample_manifest sample_guide @
          companions_part sample_manifest sample_params)"
proof -
  have "generated_secrets ''{{ secret.k }}'' = [Inr \<lparr>gs_name = ''k'', gs_form = Plain\<rparr>]"
    by code_simp
  moreover have "''{{ secret.k }}'' \<in> set (substituted (mf_spec sample_manifest) @ api_bodies sample_guide)"
    by (simp add: substituted_def sample_manifest_def bt_values_def)
  ultimately show ?thesis
    using generated_before_deploy [OF sample_resolved [unfolded sample_app_split],
        of "''{{ secret.k }}''" "\<lparr>gs_name = ''k'', gs_form = Plain\<rparr>"]
    by (simp add: vault_name_def sample_names)
qed

text \<open>a service is deployed only once every companion is deployed and reported healthy:
  in the plan, the app comes after each companion's deployment and the wait that follows it.\<close>

theorem companions_before_app:
  assumes "resolve_validated tz m g params = Inr (xs @ DeployService d # ys)"
    and "ds_name d = app_name m" and "c \<in> set (sp_companions (mf_spec m))"
  shows "\<exists>us ws. xs = us @ DeployService (companion_deployment m c) #
           WaitHealthy (companion_service c (app_name m)) (wait_for (co_healthcheck c) params) # ws"
proof -
  obtain p zs us r where xs: "xs = p @ before_services m g @ zs"
    and zs: "companions_part m params @ app_part m g params = zs @ DeployService d # us"
    by (rule deploy_split [OF assms(1) refl])
  obtain ws where ws: "zs = companions_part m params @ ws"
    using zs assms(2) by (rule app_deploy_after_companions)
  obtain us' vs where "companions_part m params = us' @ DeployService (companion_deployment m c) #
       WaitHealthy (app_name m @ ''-'' @ co_name c) (wait_for (co_healthcheck c) params) # vs"
    using assms(3) by (rule companion_prefix)
  then have "xs = (p @ before_services m g @ us') @ DeployService (companion_deployment m c) #
     WaitHealthy (companion_service c (app_name m)) (wait_for (co_healthcheck c) params) # vs @ ws"
    by (simp add: xs ws companion_service_def)
  then show ?thesis by blast
qed


theorem companions_before_app_witness:
  "\<exists>us ws. sample_provisioned @ before_services sample_manifest sample_guide @
       companions_part sample_manifest sample_params =
     us @ DeployService (companion_deployment sample_manifest sample_companion) #
       WaitHealthy (companion_service sample_companion (app_name sample_manifest))
         (wait_for (co_healthcheck sample_companion) sample_params) # ws"
  by (rule companions_before_app [OF sample_resolved [unfolded sample_app_split]])
    (simp_all add: app_deployment_def sample_names Let_def)

text \<open>every volume a deployed service mounts is either created earlier in the plan under the
  same name and path, or another app's, and then the service is placed where that app's data is.\<close>

theorem mounts_exist:
  assumes "resolve_validated tz m g params = Inr (xs @ DeployService d # ys)"
    and "(v, path) \<in> set (ds_mounts d)"
  shows "(\<exists>tier backup sqlite. CreateVolume v path tier backup sqlite \<in> set xs) \<or>
    (\<exists>owner name. v = owner @ ''-'' @ name \<and> data_constraint owner \<in> set (ds_constraints d))"
proof -
  obtain p zs us r where p: "provision_actions m params = Inr p"
    and xs: "xs = p @ before_services m g @ zs"
    and zs: "companions_part m params @ app_part m g params = zs @ DeployService d # us"
    by (rule deploy_split [OF assms(1) refl])
  from deployed_cases [OF zs] show ?thesis
  proof (elim disjE bexE conjE)
    fix c assume "d = companion_deployment m c" "set (companion_volume_actions m c) \<subseteq> set zs"
    with assms(2) show ?thesis
      by (fastforce simp: xs companion_deployment_def companion_volume_actions_def Let_def)
  next
    assume d: "d = app_deployment m g params"
    with assms(2) obtain c where c: "c \<in> set (requires_of m)" "mount_of (app_name m) c = Some (v, path)"
      by (auto simp: app_deployment_def app_mounts_def set_map_filter Let_def)
    from c(2) obtain name tier backup sqlite copy owner where
      st: "c = Storage name path tier backup sqlite copy owner"
      and v: "v = (case owner of Some o' \<Rightarrow> o' | None \<Rightarrow> app_name m) @ ''-'' @ name"
      by (cases c) auto
    show ?thesis
    proof (cases owner)
      case None
      then have "CreateVolume v path tier backup sqlite \<in> set p"
        using own_volume_created [OF p, of name path tier backup sqlite copy] c(1) st v by simp
      then show ?thesis by (auto simp: xs)
    next
      case (Some o')
      then have "data_constraint o' \<in> set (ds_constraints d)"
        using c(1) st by (force simp: d app_deployment_def app_constraints_def set_map_filter Let_def)
      with Some v show ?thesis by auto
    qed
  qed
qed

theorem mounts_exist_witness:
  "(\<exists>tier backup sqlite. CreateVolume ''app-data'' ''/data'' tier backup sqlite \<in>
      set (sample_provisioned @ before_services sample_manifest sample_guide @
           companions_part sample_manifest sample_params)) \<or>
   (\<exists>owner name. ''app-data'' = owner @ ''-'' @ name \<and>
      data_constraint owner \<in> set (ds_constraints (app_deployment sample_manifest sample_guide sample_params)))"
  by (rule mounts_exist [OF sample_resolved [unfolded sample_app_split]])
    (simp add: app_deployment_def app_mounts_def sample_names List.map_filter_simps Let_def)


section \<open>Exposure\<close>

lemma routes_split:
  assumes "resolve_validated tz m g params = Inr (xs @ a # ys)" and "is_ingress a"
  obtains p us where "provision_actions m params = Inr p"
    "xs = p @ service_actions m g params @ us" "\<And>b. b \<in> set us \<union> set ys \<Longrightarrow> is_ingress b"
proof -
  obtain p r where p: "provision_actions m params = Inr p"
    and r: "collect_results (ingress_action m params) (sp_ingress (mf_spec m)) = Inr r"
    and plan: "xs @ a # ys = p @ service_actions m g params @ r"
    using assms(1) by (rule resolve_shape)
  have "a \<notin> set (p @ service_actions m g params)"
    using provision_no_deploy [OF p, of a] service_no_ingress [of a m g params] assms(2) by auto
  with plan obtain us where us: "xs = (p @ service_actions m g params) @ us" "r = us @ a # ys"
    by (metis append_assoc split_after_prefix)
  then show ?thesis using routes_are_ingress(1) [OF r] by (intro that [OF p, of us]) auto
qed

text \<open>The steps of the guide an installation carries, and the default one, are the only steps of
  a plan that can block.\<close>

lemma service_blocks_iff:
  "(\<exists>b \<in> set (service_actions m g params). is_blocking_step b) \<longleftrightarrow>
     (\<exists>b \<in> set (guide_actions m g params @ default_guard m g). is_blocking_step b)"
proof -
  have "\<not> is_blocking_step b" if "b \<in> set (digest_actions i)" for b i
    using that by (auto simp: digest_actions_def split: if_splits)
  moreover have "\<not> is_blocking_step b" if "b \<in> set (secret_actions m g)" for b
    using that by (auto simp: secret_actions_def)
  ultimately show ?thesis
    by (auto simp: service_actions_def companion_actions_def download_action_def Let_def)
qed

lemma guard_blocks_iff:
  "(\<exists>b \<in> set (guide_actions m g params @ default_guard m g). is_blocking_step b) \<longleftrightarrow>
     (\<exists>st \<in> set (steps g). is_blocking st \<and> at_install (step_phase st)) \<or>
     (\<exists>i \<in> set (sp_ingress (mf_spec m)). ing_expose i = AfterGuide) \<and> \<not> (\<exists>st \<in> set (steps g). is_blocking st)"
proof -
  have "(\<exists>b \<in> set (guide_actions m g params). is_blocking_step b) \<longleftrightarrow>
      (\<exists>st \<in> set (steps g). is_blocking st \<and> at_install (step_phase st))"
    by (auto simp: guide_actions_def)
  moreover have "(\<exists>b \<in> set (default_guard m g). is_blocking_step b) \<longleftrightarrow>
      (\<exists>i \<in> set (sp_ingress (mf_spec m)). ing_expose i = AfterGuide) \<and> \<not> (\<exists>st \<in> set (steps g). is_blocking st)"
    by (simp add: default_guard_def list_ex_iff)
  ultimately show ?thesis by (simp add: bex_Un)
qed

text \<open>C5: routes are opened last, whatever the app: before any of them the app is deployed and then
  waited for, and everything after it is a route. A blocking step comes before it exactly when
  the guide has a blocking step in a phase other than a restore, or some route opens after the
  guide and no step of the guide is blocking.\<close>

theorem exposure_last:
  assumes "resolve_validated tz m g params = Inr (xs @ ConfigureIngress h s port public # ys)"
  shows "(\<exists>before between t after. xs = before @ DeployService (app_deployment m g params) # between @
        WaitHealthy (app_name m) t # after) \<and> list_all is_ingress ys \<and>
    ((\<exists>b \<in> set xs. is_blocking_step b) \<longleftrightarrow>
       (\<exists>st \<in> set (steps g). is_blocking st \<and> step_phase st \<noteq> PostRestore) \<or>
       (\<exists>i \<in> set (sp_ingress (mf_spec m)). ing_expose i = AfterGuide) \<and> \<not> (\<exists>st \<in> set (steps g). is_blocking st))"
proof -
  obtain p us where p: "provision_actions m params = Inr p" and xs: "xs = p @ service_actions m g params @ us"
    and ys: "\<And>b. b \<in> set us \<union> set ys \<Longrightarrow> is_ingress b"
    by (rule routes_split [OF assms]) simp_all
  have us: "\<not> is_blocking_step b" if "b \<in> set us" for b using ys [of b] that by (cases b) simp_all
  have "(\<exists>b \<in> set xs. is_blocking_step b) \<longleftrightarrow> (\<exists>b \<in> set (service_actions m g params). is_blocking_step b)"
    using provision_no_deploy [OF p] us by (auto simp: xs)
  then have blocks: "(\<exists>b \<in> set xs. is_blocking_step b) \<longleftrightarrow>
       (\<exists>st \<in> set (steps g). is_blocking st \<and> step_phase st \<noteq> PostRestore) \<or>
       (\<exists>i \<in> set (sp_ingress (mf_spec m)). ing_expose i = AfterGuide) \<and> \<not> (\<exists>st \<in> set (steps g). is_blocking st)"
    unfolding service_blocks_iff guard_blocks_iff at_install_iff .
  have "\<exists>before between t after. xs = before @ DeployService (app_deployment m g params) # between @
      WaitHealthy (app_name m) t # after"
    unfolding xs service_actions_def append_assoc [symmetric] append_Cons append_Nil
    by (metis append_Cons append_Nil append_assoc)
  with blocks ys show ?thesis by (simp add: list_all_iff)
qed

theorem exposure_last_witness:
  "(\<exists>before between t after. sample_provisioned @ service_actions sample_manifest sample_guide sample_params =
      before @ DeployService (app_deployment sample_manifest sample_guide sample_params) # between @
      WaitHealthy (app_name sample_manifest) t # after) \<and>
   (\<exists>b \<in> set (sample_provisioned @ service_actions sample_manifest sample_guide sample_params).
      is_blocking_step b)"
  using exposure_last [where ys = "[]",
      OF sample_resolved [unfolded sample_plan_def append_assoc [symmetric]]]
  by (simp add: sample_names sample_ingress_def sample_guide_def)

text \<open>a blocking step of a restore alone leaves a route meant to open after the guide with no
  blocking step before it: the default step is only added when the guide has no blocking step
  of any phase, and the steps of a restore are not part of the plan.\<close>

definition restore_guide :: guide where
  "restore_guide = \<lparr>steps = [(first_admin_step ''app'') \<lparr>step_phase := PostRestore\<rparr>]\<rparr>"

theorem after_guide_unguarded:
  "\<exists>plan. resolve_validated (\<lambda>_. True) sample_manifest restore_guide sample_params = Inr plan \<and>
     blocking_steps plan = [] \<and> ing_expose (hd (sp_ingress (mf_spec sample_manifest))) = AfterGuide"
proof -
  let ?plan = "sample_provisioned @ service_actions sample_manifest restore_guide sample_params @
    [ConfigureIngress ''a.example.org'' ''app'' 80 False]"
  have "resolve_validated (\<lambda>_. True) sample_manifest restore_guide sample_params = Inr ?plan"
    by (simp only: resolve_Inr_conv sample_checks sample_provision sample_routes) simp
  moreover have "blocking_steps ?plan = []"
    by (simp add: blocking_steps_def sample_provisioned_def service_actions_def digest_actions_def
        secret_actions_def companion_actions_def guide_actions_def default_guard_def restore_guide_def
        first_admin_step_def is_blocking_def filter_empty_conv sample_names Let_def)
      (auto simp: sample_companion_def download_action_def)
  ultimately show ?thesis by (auto simp: sample_names sample_ingress_def)
qed


section \<open>Databases\<close>

fun is_database :: "capability \<Rightarrow> bool" where
  "is_database (Database _ _ _ _) = True"
| "is_database _ = False"

fun is_provision_db :: "action \<Rightarrow> bool" where
  "is_provision_db (ProvisionDatabase _ _ _ _ _ _) = True"
| "is_provision_db _ = False"

text \<open>What a database requirement asks of its server.\<close>

definition db_action :: "manifest \<Rightarrow> capability \<Rightarrow> action" where
  "db_action m c =
     ProvisionDatabase (db_engine_of c) (case db_name c of Some n \<Rightarrow> n | None \<Rightarrow> app_name m) (app_name m)
       (app_name m @ ''-db-password'') (db_extensions c)
       (role_connection_limit (requires_of m) (db_engine_of c))"

lemma resolve_capability_db:
  assumes "resolve_capability (app_name m) params c plan = Inr plan'"
  shows "filter is_provision_db (map (set_limit (requires_of m)) plan') =
    filter is_provision_db (map (set_limit (requires_of m)) plan) @
    (if is_database c then [db_action m c] else [])"
  using assms
  by (cases c) (auto simp: push_secret_once_def and_then_Inr_conv db_action_def Let_def
      split: sso_mode.splits smtp_sender.splits option.splits if_splits)

lemma provisioned_databases:
  assumes "try_fold (resolve_capability (app_name m) params) cs plan = Inr plan'"
  shows "filter is_provision_db (map (set_limit (requires_of m)) plan') =
    filter is_provision_db (map (set_limit (requires_of m)) plan) @ map (db_action m) (filter is_database cs)"
  using assms
proof (induction cs arbitrary: plan)
  case (Cons c cs)
  then obtain p1 where "resolve_capability (app_name m) params c plan = Inr p1"
    "try_fold (resolve_capability (app_name m) params) cs p1 = Inr plan'"
    by (auto simp: and_then_Inr_conv)
  with Cons.IH show ?case by (simp add: resolve_capability_db)
qed simp

lemma service_no_db: "filter is_provision_db (service_actions m g params) = []"
  by (auto simp: filter_empty_conv service_actions_def secret_actions_def companion_actions_def
      digest_actions_def download_action_def guide_actions_def default_guard_def Let_def split: if_splits)

text \<open>the databases provisioned are those the manifest requires, in its order, each owned by the
  one role named after the app, under the app's one password, with the connection limit
  computed over every requirement on that engine.\<close>

theorem databases_provisioned:
  assumes "resolve_validated tz m g params = Inr plan"
  shows "filter is_provision_db plan = map (db_action m) (filter is_database (requires_of m))"
proof -
  obtain p r where p: "provision_actions m params = Inr p"
    and r: "collect_results (ingress_action m params) (sp_ingress (mf_spec m)) = Inr r"
    and plan: "plan = p @ service_actions m g params @ r"
    using assms by (rule resolve_shape)
  have "is_ingress a \<Longrightarrow> \<not> is_provision_db a" for a by (cases a) auto
  with routes_are_ingress(1) [OF r] have "filter is_provision_db r = []" by (auto simp: filter_empty_conv)
  moreover have "filter is_provision_db p = map (db_action m) (filter is_database (requires_of m))"
    using p provisioned_databases [of m params "requires_of m" "[]"] by (auto simp: provision_Inr_conv)
  ultimately show ?thesis by (simp add: plan service_no_db)
qed

theorem databases_provisioned_witness:
  "filter is_provision_db sample_plan =
   map (db_action sample_manifest) (filter is_database (requires_of sample_manifest))"
  by (rule databases_provisioned [OF sample_resolved])

definition generations :: "plan \<Rightarrow> string \<Rightarrow> nat" where
  "generations plan s = length (filter (\<lambda>a. case a of GenerateSecret n _ \<Rightarrow> n = s | _ \<Rightarrow> False) plan)"

lemma generations_append [simp]: "generations (p @ q) s = generations p s + generations q s"
  by (simp add: generations_def)

lemma generations_0: "generations p s = 0 \<longleftrightarrow> \<not> generates p s"
  by (auto simp: generations_def generates_def list_ex_iff filter_empty_conv)

lemma generations_set_limit [simp]: "generations (map (set_limit r) p) s = generations p s"
proof (induction p)
  case (Cons a p)
  then show ?case by (cases a) (simp_all add: generations_def)
qed simp

lemma generations_capability:
  assumes "resolve_capability app params c plan = Inr plan'" and "generations plan (app @ ''-db-password'') \<le> 1"
  shows "generations plan' (app @ ''-db-password'') \<le> 1"
proof -
  have [simp]: "generations [] s = 0" for s by (simp add: generations_def)
  have one: "generations [a] s = (case a of GenerateSecret n _ \<Rightarrow> if n = s then 1 else 0 | _ \<Rightarrow> 0)" for a s
    by (cases a) (simp_all add: generations_def)
  have two: "generations [a, b] s = generations [a] s + generations [b] s" for a b s
    using generations_append [of "[a]" "[b]" s] by simp
  show ?thesis
    using assms generations_0 [of plan "app @ ''-db-password''"]
    by (cases c) (auto simp: push_secret_once_def and_then_Inr_conv one two s3_key_secrets_def Let_def
        split: sso_mode.splits smtp_sender.splits option.splits if_splits)
qed

lemma routes_generate_nothing:
  assumes "collect_results (ingress_action m params) is = Inr r"
  shows "\<not> generates r s"
  using routes_are_ingress(1) [OF assms] by (fastforce simp: generates_iff)

lemma service_generates:
  "generates (service_actions m g params) s \<longleftrightarrow> generates (secret_actions m g) s"
  by (auto simp: generates_iff service_actions_def companion_actions_def digest_actions_def
      download_action_def guide_actions_def default_guard_def Let_def split: if_splits)

text \<open>an app with several databases has one password: it is generated at most once, provided no
  generated secret of the manifest is itself called \<open>db-password\<close>.\<close>

theorem one_database_password:
  assumes "resolve_validated tz m g params = Inr plan"
    and "''db-password'' \<notin> gs_name ` set (generated_of m g)"
  shows "generations plan (app_name m @ ''-db-password'') \<le> 1"
proof -
  obtain p r where p: "provision_actions m params = Inr p"
    and r: "collect_results (ingress_action m params) (sp_ingress (mf_spec m)) = Inr r"
    and plan: "plan = p @ service_actions m g params @ r"
    using assms(1) by (rule resolve_shape)
  let ?s = "app_name m @ ''-db-password''"
  obtain q where q: "try_fold (resolve_capability (app_name m) params) (requires_of m) [] = Inr q"
    and pq: "p = map (set_limit (requires_of m)) q"
    using p by (auto simp: provision_Inr_conv)
  have "generations q ?s \<le> 1"
    by (rule try_fold_invariant [OF q, where I = "\<lambda>p. generations p ?s \<le> 1"])
      (simp add: generations_def, rule generations_capability)
  moreover have "\<not> generates (secret_actions m g) ?s"
    using assms(2) by (auto simp: generates_iff secret_actions_def vault_name_def)
  then have "generations (service_actions m g params) ?s = 0"
    by (simp add: generations_0 service_generates)
  moreover have "generations r ?s = 0"
    using routes_generate_nothing [OF r] by (simp add: generations_0)
  ultimately show ?thesis by (simp add: plan pq)
qed

theorem one_database_password_witness:
  "generations sample_plan (app_name sample_manifest @ ''-db-password'') \<le> 1"
proof (rule one_database_password [OF sample_resolved])
  have "generated_of sample_manifest sample_guide = [\<lparr>gs_name = ''k'', gs_form = Plain\<rparr>]" by code_simp
  then show "''db-password'' \<notin> gs_name ` set (generated_of sample_manifest sample_guide)" by simp
qed


section \<open>When there is a plan\<close>

text \<open>What each requirement needs of the install parameters.\<close>

fun resolvable :: "install_params \<Rightarrow> capability \<Rightarrow> bool" where
  "resolvable params (Cache _ dedicated) \<longleftrightarrow> \<not> dedicated"
| "resolvable params (Sso mode _) \<longleftrightarrow> mode = SsoNone \<or> ip_domain params \<noteq> None"
| "resolvable params (Smtp sender) \<longleftrightarrow> sender = SenderPerson \<or> ip_mail_domain params \<noteq> None"
| "resolvable params (MailAccount _ _) \<longleftrightarrow> ip_mail_domain params \<noteq> None"
| "resolvable params _ \<longleftrightarrow> True"

lemma resolve_capability_iff:
  "(\<exists>plan'. resolve_capability app params c plan = Inr plan') \<longleftrightarrow> resolvable params c"
  by (cases c) (auto simp: and_then_Inr_conv Let_def split: sso_mode.splits smtp_sender.splits option.splits)

lemma provision_iff:
  "(\<exists>plan'. try_fold (resolve_capability app params) cs plan = Inr plan') \<longleftrightarrow>
   (\<forall>c \<in> set cs. resolvable params c)"
proof (induction cs arbitrary: plan)
  case (Cons c cs)
  have "(\<exists>plan'. try_fold (resolve_capability app params) (c # cs) plan = Inr plan') \<longleftrightarrow>
        (\<exists>p1. resolve_capability app params c plan = Inr p1) \<and> (\<forall>c \<in> set cs. resolvable params c)"
    using Cons.IH by (auto simp: and_then_Inr_conv)
  then show ?case by (simp add: resolve_capability_iff)
qed simp

lemma ingress_action_iff:
  "(\<exists>a. ingress_action m params i = Inr a) \<longleftrightarrow> (str_contains (ing_host i) ''{{'' \<longrightarrow> ip_domain params \<noteq> None)"
  by (auto simp: ingress_action_def render_host_def and_then_Inr_conv)

lemma collect_results_iff:
  "(\<exists>ys. collect_results f xs = Inr ys) \<longleftrightarrow> (\<forall>x \<in> set xs. \<exists>y. f x = Inr y)"
  by (induction xs) (auto simp: and_then_Inr_conv)

lemma plan_exists_conv:
  "(\<exists>plan. resolve_validated tz m g params = Inr plan) \<longleftrightarrow>
   sp_runtime (mf_spec m) = Swarm \<and>
   (asks_timezone m \<longrightarrow> (\<exists>z. ip_timezone params = Some z \<and> tz z)) \<and>
   (\<forall>c \<in> set (requires_of m). resolvable params c) \<and>
   (\<forall>i \<in> set (sp_ingress (mf_spec m)). str_contains (ing_host i) ''{{'' \<longrightarrow> ip_domain params \<noteq> None)"
proof -
  have "check_runtime m = Inr () \<longleftrightarrow> sp_runtime (mf_spec m) = Swarm"
    by (auto simp: check_runtime_def split: runtime.splits)
  moreover have "check_timezone tz m params = Inr () \<longleftrightarrow>
    (asks_timezone m \<longrightarrow> (\<exists>z. ip_timezone params = Some z \<and> tz z))"
    by (auto simp: check_timezone_def split: option.splits)
  moreover have "(\<exists>p. provision_actions m params = Inr p) \<longleftrightarrow> (\<forall>c \<in> set (requires_of m). resolvable params c)"
    by (simp add: provision_Inr_conv provision_iff)
  moreover have "(\<exists>r. collect_results (ingress_action m params) (sp_ingress (mf_spec m)) = Inr r) \<longleftrightarrow>
    (\<forall>i \<in> set (sp_ingress (mf_spec m)). str_contains (ing_host i) ''{{'' \<longrightarrow> ip_domain params \<noteq> None)"
    by (simp add: collect_results_iff ingress_action_iff)
  ultimately show ?thesis unfolding resolve_Inr_conv by blast
qed

text \<open>C6: a validated manifest has a plan exactly when it runs on Swarm, asks no dedicated cache, and
  every parameter something in it needs is given: the time zone a text names, known to the
  database, the domain its sign-in and its routes are written with, the mail domain its
  accounts are on.\<close>

theorem plan_exists_iff:
  "(\<exists>plan. resolve_validated tz m g params = Inr plan) \<longleftrightarrow>
   sp_runtime (mf_spec m) = Swarm \<and>
   (asks_timezone m \<longrightarrow> (\<exists>z. ip_timezone params = Some z \<and> tz z)) \<and>
   (\<forall>c \<in> set (requires_of m). resolvable params c) \<and>
   (\<forall>i \<in> set (sp_ingress (mf_spec m)). str_contains (ing_host i) ''{{'' \<longrightarrow> ip_domain params \<noteq> None)"
  by (rule plan_exists_conv)

theorem plan_exists_iff_witness:
  "\<exists>plan. resolve_validated (\<lambda>_. True) sample_manifest sample_guide sample_params = Inr plan"
  by (subst plan_exists_iff)
    (simp add: sample_names sample_timezone sample_params_def with_domain_def default_params_def,
     simp add: sample_manifest_def)

text \<open>a service is waited for at least as long as the installation's default, and, when its
  probe's own allowance is below \<open>2 ^ 64\<close> seconds, at least that long.\<close>

theorem wait_for_long_enough:
  "ip_health_timeout_secs params \<le> wait_for probe params \<and>
   (\<forall>h. probe = Some h \<and>
      unat (hc_start_period_secs h) + unat (hc_interval_secs h) * unat (hc_retries h) < 2 ^ 64 \<longrightarrow>
      unat (hc_start_period_secs h) + unat (hc_interval_secs h) * unat (hc_retries h)
        \<le> unat (wait_for probe params))"
proof -
  have "unat (a + b * c) = unat a + unat b * unat c"
    if "unat a + unat b * unat c < 2 ^ 64" for a b c :: u64
  proof -
    have "unat (b * c) = unat b * unat c"
      using that by (simp add: unat_word_ariths)
    with that show ?thesis by (simp add: unat_word_ariths)
  qed
  then show ?thesis
    by (auto simp: wait_for_def max_def word_le_nat_alt split: option.splits)
qed

theorem wait_for_long_enough_witness:
  "150 \<le> unat (wait_for (Some \<lparr>hc_test = [], hc_interval_secs = 30, hc_timeout_secs = 5, hc_retries = 3,
     hc_start_period_secs = 60\<rparr>) default_params)"
  using wait_for_long_enough [of default_params "Some \<lparr>hc_test = [], hc_interval_secs = 30,
     hc_timeout_secs = 5, hc_retries = 3, hc_start_period_secs = 60\<rparr>"] by simp

end
