(* ===== verification/Validate_Guide.thy ===== *)
theory Validate_Guide
  imports Validate
begin

text \<open>
  The rules a guide is held to against the manifest whose app it configures
  (\<open>crates/hlb-types/src/lib.rs\<close>: \<open>validate_guide\<close>, \<open>highest_parameter\<close>,
  \<open>check_run_tokens\<close>, \<open>validate_recovery\<close>, \<open>validate_sign_in\<close>, \<open>json_strings\<close>). Parsing a
  JSON text is \<open>serde_json\<close>'s, a parameter here.
\<close>

datatype (plugins only: code) proof_rule =
    ProofNone | ProofNoIngress | ProofPaths | ProofNotJson | FormAndBasic | FormNotFlat
  | BasicNoUsername | BasicBody | NoPassword | NoUsername | ExtraUsername | ProofUnknownToken
  | ProofHeader

datatype (plugins only: code) guide_rule =
    RecheckUnread string | RecheckTooSoon | RecheckPhase | RecheckUnchecked | RestoreBlocks
  | RestoreVerify | RestoreAfter | RestoreAutomation | RestoreProbe | AfterRestore string
  | ExecService string | RestoreSignsIn | StepSignIn sign_in_rule | NoCall | CallNoPort
  | ProbeShape | CallPath string | SecretMalformed string | FilledByNothing string
  | NeedsCapability token string | MergeShape | SqlNoPostgres | SqlNotOne string
  | SqlToken string | SqlParameter string nat | SqlUnbound | ExpectJson | AnswersOnly

datatype recovery_rule =
    GeneratedNowhere string | UsernameToken string | UsernameNoSmtp | RecoveryPath string
  | ProofRefused string proof_rule | SignsInByHand string string

datatype guide_error =
    StepRefused string guide_rule
  | RecoveryRefused recovery_rule


section \<open>Parameters and tokens\<close>

text \<open>The highest \<open>$n\<close> a statement reads; \<open>parse\<close> to a \<open>usize\<close> of 64 bits.\<close>

definition parameters_in :: "string \<Rightarrow> nat list" where
  "parameters_in text =
     List.map_filter (\<lambda>i.
       if text ! i = CHR ''$''
       then parse_below (2 ^ 64) (takeWhile is_ascii_digit (drop (i + 1) text))
       else None) [0..<length text]"

definition highest_parameter :: "string \<Rightarrow> nat option" where
  "highest_parameter text =
     (case parameters_in text of [] \<Rightarrow> None | n # ns \<Rightarrow> Some (fold max ns n))"

definition token_written :: "string \<Rightarrow> token option" where
  "token_written inner = find (\<lambda>t. placeholder t = ''{{ '' @ inner @ '' }}'') all_tokens"

definition check_run_token :: "manifest \<Rightarrow> string \<Rightarrow> guide_rule + unit" where
  "check_run_token m inner =
     (if starts_with inner ''secret.'' \<or> inner = ''domain'' then Inr ()
      else case token_written inner of
             None \<Rightarrow> Inl (FilledByNothing inner)
           | Some t \<Rightarrow>
               opt_check (\<lambda>needed. require (list_ex (\<lambda>c. capability_id c = needed) (requires_of m))
                                    (NeedsCapability t needed)) (token_requires t))"

definition check_run_tokens :: "manifest \<Rightarrow> string \<Rightarrow> guide_rule + unit" where
  "check_run_tokens m text =
     in_turn
       [each (\<lambda>found. case found of Inl bad \<Rightarrow> Inl (SecretMalformed bad) | Inr _ \<Rightarrow> Inr ())
          (generated_secrets text),
        each (\<lambda>t. check_run_token m (trim (until_close t))) (after_braces text)]"


section \<open>Recovery sign-ins\<close>

text \<open>The strings of a JSON value, depth first.\<close>

fun json_strings :: "json \<Rightarrow> string list" where
  "json_strings (JString s) = [s]"
| "json_strings (JArray a) = concat (map json_strings a)"
| "json_strings (JObject ob) = concat (map (\<lambda>(_, v). json_strings v) ob)"
| "json_strings _ = []"

fun flat_object :: "json \<Rightarrow> bool" where
  "flat_object (JObject ob) = list_all (\<lambda>(_, v). case v of JString _ \<Rightarrow> True | _ \<Rightarrow> False) ob"
| "flat_object _ = False"

definition unknown_token :: "string \<Rightarrow> bool" where
  "unknown_token t \<longleftrightarrow>
     list_ex (\<lambda>r. \<not> starts_with r '' username }}'' \<and> \<not> starts_with r '' password }}'') (after_braces t)"

definition sign_in_body :: "recovery_login \<Rightarrow> sign_in \<Rightarrow> json \<Rightarrow> proof_rule + unit" where
  "sign_in_body r p body =
     (let strings = json_strings body;
          says = (\<lambda>t. list_ex (\<lambda>s. str_contains s t) strings) in
      in_turn
        [(if si_form p
          then in_turn
            [require (\<not> si_basic p) FormAndBasic,
             require (flat_object body) FormNotFlat]
          else Inr ()),
         (if si_basic p
          then in_turn
            [require (rl_username r \<noteq> None) BasicNoUsername,
             require (\<not> list_ex (\<lambda>s. str_contains s ''{{'') strings) BasicBody]
          else in_turn
            [require (says ''{{ password }}'') NoPassword,
             require ((rl_username r \<noteq> None) = says ''{{ username }}'')
               (if rl_username r \<noteq> None then NoUsername else ExtraUsername),
             require (\<not> list_ex unknown_token strings) ProofUnknownToken,
             require (\<not> list_ex (\<lambda>(k, v). str_contains k ''{{'' \<or> str_contains v ''{{'') (si_headers p))
               ProofHeader])])"

definition validate_sign_in ::
  "(string \<Rightarrow> json option) \<Rightarrow> manifest \<Rightarrow> recovery_login \<Rightarrow> proof_rule + unit" where
  "validate_sign_in parse_json m r =
     (case rl_proof r of
        None \<Rightarrow> Inl ProofNone
      | Some p \<Rightarrow>
          and_then
            (in_turn
              [require (sp_ingress (mf_spec m) \<noteq> []) ProofNoIngress,
               require (is_absolute (si_path p) \<and> is_absolute (si_pointer p)) ProofPaths])
            (\<lambda>_. case parse_json (si_body p) of
                   None \<Rightarrow> Inl ProofNotJson
                 | Some body \<Rightarrow> sign_in_body r p body))"

definition recovery_texts :: "manifest \<Rightarrow> guide \<Rightarrow> string list" where
  "recovery_texts m g = substituted (mf_spec m) @ sp_command (mf_spec m) @ guide_texts g"

text \<open>The names found, as the \<open>BTreeSet\<close> they are collected into: only membership is read.\<close>

definition generated_names :: "manifest \<Rightarrow> guide \<Rightarrow> string list" where
  "generated_names m g =
     List.map_filter (\<lambda>r. case r of Inr s \<Rightarrow> Some (gs_name s) | Inl _ \<Rightarrow> None)
       (concat (map generated_secrets (recovery_texts m g)))"

definition check_username :: "manifest \<Rightarrow> recovery_login \<Rightarrow> recovery_rule + unit" where
  "check_username m r =
     each (\<lambda>t. let inner = trim (until_close t) in
       in_turn
         [require (inner = ''smtp.from'') (UsernameToken inner),
          require (list_ex (\<lambda>c. case c of Smtp _ \<Rightarrow> True | _ \<Rightarrow> False) (requires_of m)) UsernameNoSmtp])
       (after_braces (case rl_username r of Some u \<Rightarrow> u | None \<Rightarrow> []))"

definition check_recovery ::
  "(string \<Rightarrow> json option) \<Rightarrow> manifest \<Rightarrow> guide \<Rightarrow> recovery_login \<Rightarrow> recovery_rule + unit" where
  "check_recovery parse_json m g r =
     in_turn
       [require (rl_secret r \<in> set (generated_names m g)) (GeneratedNowhere (rl_secret r)),
        check_username m r,
        opt_check (\<lambda>p. require (is_absolute p) (RecoveryPath (rl_secret r))) (rl_path r),
        under (ProofRefused (rl_secret r)) (validate_sign_in parse_json m r)]"

text \<open>The secrets a step's text sends a person to read: the names after each command.\<close>

function after_each :: "string \<Rightarrow> string \<Rightarrow> string list" where
  "after_each pat rest =
     (if pat = [] then []
      else case find_sub pat rest of
        None \<Rightarrow> []
      | Some at \<Rightarrow> drop (at + length pat) rest # after_each pat (drop (at + length pat) rest))"
  by pat_completeness auto
termination
proof (relation "measure (length \<circ> snd)")
  fix pat rest :: string and at assume "pat \<noteq> []" "find_sub pat rest = Some at"
  moreover from find_sub_Some_split [OF this(2)] have "at + length pat \<le> length rest" by simp
  ultimately show "((pat, drop (at + length pat) rest), pat, rest) \<in> measure (length \<circ> snd)"
    by (cases pat) auto
qed simp

declare after_each.simps [simp del]

definition check_by_hand :: "manifest \<Rightarrow> guide \<Rightarrow> guide_step \<Rightarrow> recovery_rule + unit" where
  "check_by_hand m g s =
     each (\<lambda>rest. let name = takeWhile ident_char rest in
       require (\<not> (name \<in> set (generated_names m g) \<and>
                  \<not> list_ex (\<lambda>r. rl_secret r = name) (sp_recovery (mf_spec m))))
         (SignsInByHand (step_id s) name))
       (after_each (''hlb secret-get '' @ app_name m @ ''-'') (step_body s))"

definition validate_recovery ::
  "(string \<Rightarrow> json option) \<Rightarrow> manifest \<Rightarrow> guide \<Rightarrow> recovery_rule + unit" where
  "validate_recovery parse_json m g =
     in_turn
       [each (check_recovery parse_json m g) (sp_recovery (mf_spec m)),
        each (check_by_hand m g) (steps g)]"


section \<open>The steps of a guide\<close>

fun never_rechecked :: "verify \<Rightarrow> bool" where
  "never_rechecked Attest = True"
| "never_rechecked (VerifyExec _ _) = True"
| "never_rechecked _ = False"

definition check_recheck :: "guide_step \<Rightarrow> guide_rule + unit" where
  "check_recheck s =
     (case recheck_secs s of
        Inl why \<Rightarrow> Inl (RecheckUnread why)
      | Inr None \<Rightarrow> Inr ()
      | Inr (Some every) \<Rightarrow>
          in_turn
            [require (\<not> every < MIN_RECHECK_S) RecheckTooSoon,
             require (step_phase s = PreInstall) RecheckPhase,
             require (\<not> never_rechecked (step_verify s)) RecheckUnchecked])"

fun restore_automation :: "automation \<Rightarrow> guide_rule + unit" where
  "restore_automation (AutoEnv _) = Inl RestoreAutomation"
| "restore_automation (AutoSql _ _ _ _) = Inl RestoreAutomation"
| "restore_automation (AutoExec _ _ probe matches) = require (\<not> (probe \<noteq> None \<or> matches \<noteq> None)) RestoreProbe"
| "restore_automation (AutoApi _ _ _ probe _) = require (probe = None) RestoreProbe"

definition check_restore_step :: "guide_step \<Rightarrow> guide_rule + unit" where
  "check_restore_step s =
     (if step_phase s = PostRestore
      then in_turn
        [require (\<not> is_blocking s) RestoreBlocks,
         require (\<not> is_automatic (step_verify s)) RestoreVerify,
         require (step_after s = []) RestoreAfter,
         each restore_automation (step_automate s)]
      else Inr ())"

definition check_after :: "guide \<Rightarrow> guide_step \<Rightarrow> guide_rule + unit" where
  "check_after g s =
     each (\<lambda>before.
       require (\<not> (list_ex (\<lambda>o'. step_id o' = before \<and> step_phase o' = PostRestore) (steps g) \<and>
                  at_install (step_phase s))) (AfterRestore before)) (step_after s)"

definition check_call ::
  "(string \<Rightarrow> json option) \<Rightarrow> manifest \<Rightarrow> api_call \<Rightarrow> guide_rule + unit" where
  "check_call parse_json m c =
     in_turn
       [require (is_absolute (call_path c)) (CallPath (call_path c)),
        opt_check (check_run_tokens m) (call_body c),
        (if call_merge c
         then require ((case call_body c of None \<Rightarrow> False
                        | Some b \<Rightarrow> (case parse_json b of Some (JObject _) \<Rightarrow> True | _ \<Rightarrow> False)) \<and>
                       map to_ascii_lowercase (call_verb c) \<noteq> ''get'') MergeShape
         else Inr ())]"

definition check_sql_text :: "string list \<Rightarrow> string \<times> string \<times> string \<Rightarrow> guide_rule + unit" where
  "check_sql_text params wtv =
     (let (what, text, verb) = wtv in
      in_turn
        [require (one_statement verb text) (SqlNotOne what),
         require (\<not> str_contains text ''{{'') (SqlToken what),
         (case highest_parameter text of
            None \<Rightarrow> Inr ()
          | Some n \<Rightarrow> require (\<not> length params < n) (SqlParameter what n))])"

fun is_postgres :: "capability \<Rightarrow> bool" where
  "is_postgres (Database Postgres _ _ _) = True"
| "is_postgres _ = False"

fun check_automation ::
  "(string \<Rightarrow> json option) \<Rightarrow> manifest \<Rightarrow> guide_step \<Rightarrow> automation \<Rightarrow> guide_rule + unit" where
  "check_automation parse_json m s (AutoEnv _) = Inr ()"
| "check_automation parse_json m s (AutoExec _ service _ _) =
     opt_check (\<lambda>c. require (list_ex (\<lambda>k. co_name k = c) (sp_companions (mf_spec m))) (ExecService c)) service"
| "check_automation parse_json m s (AutoApi port sign_in headers probe calls) =
     in_turn
       [opt_check (\<lambda>secret.
          in_turn
            [require (step_phase s \<noteq> PostRestore) RestoreSignsIn,
             under StepSignIn (token_sign_in m secret headers)]) sign_in,
        under StepSignIn (token_headers headers (sign_in \<noteq> None)),
        require (calls \<noteq> []) NoCall,
        require (\<not> (port = None \<and> sp_ingress (mf_spec m) = [])) CallNoPort,
        opt_check (\<lambda>p. require (is_absolute (probe_pointer p) \<and> parse_json (probe_equals p) \<noteq> None) ProbeShape)
          probe,
        each (check_call parse_json m) calls]"
| "check_automation parse_json m s (AutoSql statement params probe _) =
     in_turn
       [require (list_ex is_postgres (requires_of m)) SqlNoPostgres,
        each (check_sql_text params)
          [(''statement'', statement, ''update ''), (''probe'', probe, ''select '')],
        require (highest_parameter statement = Some (length params)) SqlUnbound,
        each (check_run_tokens m) params]"

fun check_verify :: "(string \<Rightarrow> json option) \<Rightarrow> phase \<Rightarrow> verify \<Rightarrow> guide_rule + unit" where
  "check_verify parse_json ph (VerifyHttp _ expect_status expect_json) =
     in_turn
       [opt_check (\<lambda>j. require (is_absolute (json_pointer j) \<and> parse_json (json_equals j) \<noteq> None) ExpectJson)
          expect_json,
        require (\<not> (ph \<noteq> PreInstall \<and> list_ex (\<lambda>c. 200 \<le> c \<and> c < 300) expect_status \<and> expect_json = None))
          AnswersOnly]"
| "check_verify parse_json ph _ = Inr ()"

definition check_step ::
  "(string \<Rightarrow> json option) \<Rightarrow> manifest \<Rightarrow> guide \<Rightarrow> guide_step \<Rightarrow> guide_rule + unit" where
  "check_step parse_json m g s =
     in_turn
       [check_recheck s,
        check_restore_step s,
        check_after g s,
        each (check_automation parse_json m s) (step_automate s),
        check_verify parse_json (step_phase s) (step_verify s)]"

definition validate_guide ::
  "(string \<Rightarrow> json option) \<Rightarrow> manifest \<Rightarrow> guide \<Rightarrow> guide_error + unit" where
  "validate_guide parse_json m g =
     in_turn
       [each (\<lambda>s. under (StepRefused (step_id s)) (check_step parse_json m g s)) (steps g),
        under RecoveryRefused (validate_recovery parse_json m g)]"

end
