(* ===== verification/Validate_Props.thy ===== *)
theory Validate_Props
  imports Resolver_Props Validate_Guide
begin

text \<open>
  What an accepted manifest and an accepted guide promise to what runs after them: the
  resolver, the orchestrator, and the sign-in of people.
\<close>

lemma valid_parts:
  assumes "validate_with_guide pj m g = Inr ()"
  shows "check_ports m = Inr ()" and "check_tmpfs m = Inr ()" and "validate_downloads m = Inr ()"
    and "each (check_token m) (used_tokens m g) = Inr ()"
    and "check_secrets m = Inr ()" and "check_commands m = Inr ()"
    and "check_companions m = Inr ()" and "each (check_foreign m) (requires_of m) = Inr ()"
    and "each (check_tier m) (requires_of m) = Inr ()" and "check_memory m = Inr ()"
    and "validate_access pj m = Inr ()"
  using assms by (simp_all add: validate_with_guide_def)


section \<open>Ports, volumes and memory\<close>

text \<open>C7: an app that trusts the header its proxy sets publishes no port, and neither does any of its
  companions: nothing reaches it but through the proxy.\<close>

theorem header_auth_publishes_nothing:
  assumes "validate_with_guide pj m g = Inr ()"
    and "Sso SsoProxyHeader paths \<in> set (requires_of m)"
    and "s \<in> set (securities m)"
  shows "sec_published_ports s = []"
proof -
  from assms(2) have "header_auth m" by (force simp: header_auth_def list_ex_iff)
  with valid_parts(1) [OF assms(1)] assms(3) show ?thesis
    by (auto simp: check_ports_def published_def)
qed

definition header_manifest :: manifest where
  "header_manifest =
     sample_manifest \<lparr>mf_spec := (mf_spec sample_manifest) \<lparr>sp_requires := [Sso SsoProxyHeader []],
        sp_env := []\<rparr>\<rparr>"

theorem header_auth_publishes_nothing_witness:
  "sec_published_ports (co_security sample_companion) = []"
proof (rule header_auth_publishes_nothing)
  show "validate_with_guide (\<lambda>_. []) header_manifest sample_guide = Inr ()" by code_simp
  show "Sso SsoProxyHeader [] \<in> set (requires_of header_manifest)"
    by (simp add: header_manifest_def)
  show "co_security sample_companion \<in> set (securities header_manifest)"
    by (simp add: header_manifest_def securities_def sample_names)
qed

text \<open>the ports an accepted app publishes, over all its services, are all different and none is
  zero, so each can be bound on one node.\<close>

theorem published_ports_distinct:
  assumes "validate_with_guide pj m g = Inr ()"
  shows "distinct (published m) \<and> list_all (\<lambda>p. pp_port p \<noteq> 0) (published m)"
proof -
  have e: "each_after (\<lambda>seen p. require (\<not> (pp_port p = 0 \<or> p \<in> set seen)) (PortTwiceOrZero p)) []
      (published m) = Inr ()"
    using valid_parts(1) [OF assms] by (simp add: check_ports_def)
  have "distinct (map (\<lambda>p. p) ([] @ published m))"
    by (rule each_after_distinct [OF e]) auto
  moreover have "pp_port p \<noteq> 0" if "p \<in> set (published m)" for p
    using each_after_all [OF e that] by auto
  ultimately show ?thesis by (simp add: list_all_iff)
qed

definition ports_manifest :: manifest where
  "ports_manifest =
     sample_manifest \<lparr>mf_spec := (mf_spec sample_manifest) \<lparr>sp_requires := [], sp_env := [],
       sp_security := default_security
         \<lparr>sec_published_ports := [\<lparr>pp_port = 25, pp_protocol = Tcp\<rparr>, \<lparr>pp_port = 53, pp_protocol = Udp\<rparr>]\<rparr>\<rparr>\<rparr>"

theorem published_ports_distinct_witness:
  "distinct (published ports_manifest) \<and> list_all (\<lambda>p. pp_port p \<noteq> 0) (published ports_manifest)"
proof (rule published_ports_distinct)
  show "validate_with_guide (\<lambda>_. []) ports_manifest sample_guide = Inr ()" by code_simp
qed

text \<open>in an accepted manifest a SQLite volume is never on NFS, a local volume has one replica over
  it, and a volume borrowed from another app is local, live, and neither backed up nor
  snapshotted by the borrower.\<close>

theorem accepted_volumes:
  assumes "validate_with_guide pj m g = Inr ()"
    and "Storage name path tier backup sqlite copy owner \<in> set (requires_of m)"
  shows "(sqlite \<longrightarrow> tier = TierLocal) \<and>
    (tier = TierLocal \<longrightarrow> sw_replicas (sp_swarm (mf_spec m)) \<le> 1) \<and>
    (\<forall>o'. owner = Some o' \<longrightarrow>
       o' \<noteq> app_name m \<and> tier = TierLocal \<and> copy = CopyLive \<and> \<not> backup \<and> \<not> sqlite)"
proof -
  have "check_tier m (Storage name path tier backup sqlite copy owner) = Inr ()"
    using valid_parts(9) [OF assms(1)] assms(2) unfolding each_Inr by (rule bspec)
  moreover have "check_foreign m (Storage name path tier backup sqlite copy owner) = Inr ()"
    using valid_parts(8) [OF assms(1)] assms(2) unfolding each_Inr by (rule bspec)
  ultimately show ?thesis
    by (cases owner; cases tier) (auto simp: copy_is_live_def not_less)
qed

lemma sample_valid: "validate_with_guide (\<lambda>_. []) sample_manifest sample_guide = Inr ()"
  by code_simp

theorem accepted_volumes_witness:
  "sw_replicas (sp_swarm (mf_spec sample_manifest)) \<le> 1"
proof -
  from accepted_volumes [OF sample_valid, of "''data''" "''/data''" TierLocal True False CopyLive None]
  show ?thesis by (simp add: sample_names)
qed

text \<open>no service of an accepted manifest reserves more memory than it is stopped at, and no
  sized tmpfs of a service is larger than the memory it is stopped at.\<close>

theorem accepted_memory:
  assumes "validate_with_guide pj m g = Inr ()"
    and "(service, security, Some mem, volumes) \<in> set (tmpfs_services m)"
  shows "mem_reserve mem \<le> mem_limit mem \<and>
    (\<forall>t \<in> set (sec_tmpfs security). \<forall>sz. tm_size t = Some sz \<longrightarrow> sz \<le> mem_limit mem)"
proof
  show "mem_reserve mem \<le> mem_limit mem"
    using valid_parts(10) [OF assms(1)] assms(2)
    by (auto simp: check_memory_def tmpfs_services_def not_less)
  have "each_after (\<lambda>seen t.
         under (TmpfsRefused service (tm_path t))
           (in_turn
              [require (clean_dir (tm_path t)) NotAbsoluteDir,
               require (\<not> list_ex (\<lambda>e. tm_path e = tm_path t) seen) GivenTwice,
               require (tm_path t \<notin> set volumes) HidesVolume,
               require (\<not> over_limit (tm_size t) (Some mem)) OverMemory]))
         [] (sec_tmpfs security) = Inr ()"
    using valid_parts(2) [OF assms(1)] assms(2) by (auto simp: check_tmpfs_def)
  then have "\<not> over_limit (tm_size t) (Some mem)" if "t \<in> set (sec_tmpfs security)" for t
    using that by (rule each_after_all) simp
  then show "\<forall>t \<in> set (sec_tmpfs security). \<forall>sz. tm_size t = Some sz \<longrightarrow> sz \<le> mem_limit mem"
    by (fastforce simp: over_limit_def not_less)
qed

definition memory_manifest :: manifest where
  "memory_manifest =
     sample_manifest \<lparr>mf_spec := (mf_spec sample_manifest) \<lparr>sp_requires := [], sp_env := [],
       sp_swarm := default_swarm \<lparr>sw_memory := Some \<lparr>mem_reserve = 1, mem_limit = 4\<rparr>\<rparr>,
       sp_security := default_security \<lparr>sec_tmpfs := [\<lparr>tm_path = ''/tmp'', tm_size = Some 2\<rparr>]\<rparr>\<rparr>\<rparr>"

theorem accepted_memory_witness:
  "mem_reserve \<lparr>mem_reserve = 1, mem_limit = 4\<rparr> \<le> mem_limit \<lparr>mem_reserve = 1, mem_limit = 4\<rparr> \<and>
   (2::nat) \<le> 4"
proof -
  have "validate_with_guide (\<lambda>_. []) memory_manifest sample_guide = Inr ()" by code_simp
  from accepted_memory [OF this, of "''app''" "sp_security (mf_spec memory_manifest)"
      "\<lparr>mem_reserve = 1, mem_limit = 4\<rparr>" "[]"]
  show ?thesis
    by (simp add: tmpfs_services_def memory_manifest_def sample_manifest_def List.map_filter_simps)
qed


section \<open>Names and commands\<close>

fun deployment_of :: "action \<Rightarrow> service_deployment option" where
  "deployment_of (DeployService d) = Some d"
| "deployment_of _ = None"

definition deployments :: "plan \<Rightarrow> service_deployment list" where
  "deployments plan = List.map_filter deployment_of plan"

lemma map_filter_append [simp]: "List.map_filter f (xs @ ys) = List.map_filter f xs @ List.map_filter f ys"
  by (simp add: List.map_filter_def)

lemma map_filter_none: "(\<And>x. x \<in> set xs \<Longrightarrow> f x = None) \<Longrightarrow> List.map_filter f xs = []"
  by (induction xs) (auto simp: List.map_filter_simps)

lemma deployments_companions:
  "deployments (concat (map (companion_actions m params) cs)) = map (companion_deployment m) cs"
proof (induction cs)
  case (Cons c cs)
  have "List.map_filter deployment_of (companion_volume_actions m c) = []"
    by (rule map_filter_none) (auto simp: companion_volume_actions_def)
  then have "deployments (companion_actions m params c) = [companion_deployment m c]"
    by (simp add: deployments_def companion_actions_split digest_actions_def List.map_filter_simps)
  with Cons show ?case by (simp add: deployments_def)
qed (simp add: deployments_def List.map_filter_simps)

lemma deployments_part:
  "deployments (service_actions m g params) =
   map (companion_deployment m) (sp_companions (mf_spec m)) @ [app_deployment m g params]"
proof -
  have "List.map_filter deployment_of (before_services m g) = []"
    by (rule map_filter_none) (auto simp: before_services_def digest_actions_def secret_actions_def split: if_splits)
  moreover have "List.map_filter deployment_of (map (download_action m) (sp_downloads (mf_spec m))) = []"
    by (rule map_filter_none) (auto simp: download_action_def)
  moreover have "List.map_filter deployment_of (guide_actions m g params @ default_guard m g) = []"
    by (rule map_filter_none) (auto simp: guide_actions_def default_guard_def split: if_splits)
  ultimately show ?thesis
    using deployments_companions [of m params "sp_companions (mf_spec m)"]
    by (simp add: deployments_def service_actions_split companions_part_def app_part_def List.map_filter_simps)
qed

text \<open>What a plan deploys: each companion in turn, then the app, and nothing else.\<close>

lemma plan_deployments:
  assumes "resolve_validated tz m g params = Inr plan"
  shows "deployments plan = map (companion_deployment m) (sp_companions (mf_spec m)) @ [app_deployment m g params]"
proof -
  obtain p r where p: "provision_actions m params = Inr p"
    and r: "collect_results (ingress_action m params) (sp_ingress (mf_spec m)) = Inr r"
    and plan: "plan = p @ service_actions m g params @ r"
    using assms by (rule resolve_shape)
  have none: "\<not> is_deploy a \<Longrightarrow> deployment_of a = None" for a by (cases a) auto
  have "List.map_filter deployment_of p = []" "List.map_filter deployment_of r = []"
    using provision_no_deploy [OF p] routes_are_ingress(3) [OF r] none
    by (auto intro!: map_filter_none)
  then show ?thesis
    using deployments_part [of m g params] by (simp add: plan deployments_def)
qed

lemma accepted_companion_names:
  assumes "validate_with_guide pj m g = Inr ()"
  shows "distinct (map co_name (sp_companions (mf_spec m)))"
proof -
  have e: "each_after (\<lambda>seen c.
       in_turn
         [require (ident (co_name c)) (CompanionName (co_name c)),
          require (co_name c \<notin> co_name ` set seen) (CompanionTwice (co_name c))]) []
       (sp_companions (mf_spec m)) = Inr ()"
    using valid_parts(7) [OF assms] by (simp add: check_companions_def)
  have "distinct (map co_name ([] @ sp_companions (mf_spec m)))"
    by (rule each_after_distinct [OF e]) auto
  then show ?thesis by simp
qed

text \<open>the plan of an accepted manifest deploys each companion once and then the app once, and no
  two of these services have the same name: none overwrites another.\<close>

theorem service_names_distinct:
  assumes "resolve_with_guide pj tz m g params = Inr plan"
  shows "length (deployments plan) = Suc (length (sp_companions (mf_spec m))) \<and>
    distinct (map ds_name (deployments plan))"
proof -
  from assms have v: "validate_with_guide pj m g = Inr ()" and r: "resolve_validated tz m g params = Inr plan"
    by (simp_all add: resolve_with_guide_Inr)
  let ?cs = "sp_companions (mf_spec m)"
  have names: "map ds_name (map (companion_deployment m) ?cs) = map (\<lambda>n. app_name m @ ''-'' @ n) (map co_name ?cs)"
    by (simp add: companion_deployment_def Let_def)
  have "distinct (map (\<lambda>n. app_name m @ ''-'' @ n) (map co_name ?cs))"
    using accepted_companion_names [OF v] by (subst distinct_map) (auto intro: inj_onI)
  then have "distinct (map ds_name (map (companion_deployment m) ?cs))" unfolding names .
  moreover have "app_name m \<notin> ds_name ` set (map (companion_deployment m) ?cs)"
    by (auto simp: companion_deployment_def Let_def)
  ultimately show ?thesis
    by (auto simp: plan_deployments [OF r] app_deployment_def Let_def)
qed

lemma sample_installed:
  "resolve_with_guide (\<lambda>_. []) (\<lambda>_. True) sample_manifest sample_guide sample_params = Inr sample_plan"
  by (simp add: resolve_with_guide_Inr sample_valid sample_resolved)

theorem service_names_distinct_witness:
  "length (deployments sample_plan) = Suc (length (sp_companions (mf_spec sample_manifest))) \<and>
   distinct (map ds_name (deployments sample_plan))"
  by (rule service_names_distinct [OF sample_installed])

text \<open>no argument of any service deployed from an accepted manifest names a binding token or a
  generated secret, so none can appear in a process list.\<close>

theorem commands_carry_no_token:
  assumes "resolve_with_guide pj tz m g params = Inr plan"
    and "d \<in> set (deployments plan)" and "arg \<in> set (ds_command d @ ds_args d)"
  shows "tokens_in arg = [] \<and> generated_secrets arg = []"
proof -
  from assms(1) have v: "validate_with_guide pj m g = Inr ()" and r: "resolve_validated tz m g params = Inr plan"
    by (simp_all add: resolve_with_guide_Inr)
  have "arg \<in> set (all_arguments m)"
    using assms(2,3)
    by (auto simp: plan_deployments [OF r] app_deployment_def companion_deployment_def all_arguments_def Let_def)
  with valid_parts(6) [OF v] show ?thesis by (simp add: check_commands_def)
qed

definition command_manifest :: manifest where
  "command_manifest =
     sample_manifest \<lparr>mf_spec := (mf_spec sample_manifest) \<lparr>sp_requires := [], sp_env := [], sp_command := [''serve'']\<rparr>\<rparr>"

theorem commands_carry_no_token_witness:
  "\<exists>plan. resolve_with_guide (\<lambda>_. []) (\<lambda>_. True) command_manifest sample_guide sample_params = Inr plan \<and>
     tokens_in ''serve'' = [] \<and> generated_secrets ''serve'' = []"
proof -
  have v: "validate_with_guide (\<lambda>_. []) command_manifest sample_guide = Inr ()" by code_simp
  have "\<not> asks_timezone command_manifest" by code_simp
  then have "\<exists>plan. resolve_validated (\<lambda>_. True) command_manifest sample_guide sample_params = Inr plan"
    unfolding plan_exists_conv
    by (simp add: sample_params_def with_domain_def default_params_def)
      (simp add: command_manifest_def sample_manifest_def)
  then obtain plan where r: "resolve_validated (\<lambda>_. True) command_manifest sample_guide sample_params = Inr plan" ..
  with v have w: "resolve_with_guide (\<lambda>_. []) (\<lambda>_. True) command_manifest sample_guide sample_params = Inr plan"
    by (simp add: resolve_with_guide_Inr)
  have "tokens_in ''serve'' = [] \<and> generated_secrets ''serve'' = []"
    by (rule commands_carry_no_token [OF w, of "app_deployment command_manifest sample_guide sample_params"])
      (simp_all add: plan_deployments [OF r] app_deployment_def command_manifest_def Let_def)
  with w show ?thesis by blast
qed

end
