(* ===== verification/Install_Props.thy ===== *)
theory Install_Props
  imports Validate_Props
begin

text \<open>
  Properties across validation, the resolver and access: what an accepted manifest with an
  accepted guide gives once it is planned.
\<close>

section \<open>Tokens and downloads\<close>

text \<open>every binding token in a text an accepted app fills, be it a deployment's or a guide call's,
  names a capability the app declares.\<close>

theorem tokens_declared:
  assumes "validate_with_guide pj m g = Inr ()"
    and "v \<in> set (filled_texts m g)" and "t \<in> set (tokens_in v)" and "token_requires t = Some needed"
  shows "\<exists>c \<in> set (requires_of m). capability_id c = needed"
proof -
  have "t \<in> set (used_tokens m g)" using assms(2,3) by (auto simp: used_tokens_def)
  with valid_parts(4) [OF assms(1)] have "check_token m t = Inr ()" by simp
  with assms(4) show ?thesis by (auto simp: check_token_def list_ex_iff)
qed

theorem tokens_declared_witness:
  "\<exists>c \<in> set (requires_of sample_manifest). capability_id c = ''database''"
proof (rule tokens_declared [OF sample_valid])
  show "''{{ db.password }}'' \<in> set (filled_texts sample_manifest sample_guide)"
    by (simp add: filled_texts_def substituted_def bt_values_def sample_manifest_def)
  show "DbPassword \<in> set (tokens_in ''{{ db.password }}'')" by code_simp
qed simp

lemma accepted_downloads:
  assumes "validate_with_guide pj m g = Inr ()" and "sp_downloads (mf_spec m) = xs @ d # ys"
  shows "validate_download m xs d = Inr ()"
proof -
  have "each_after (\<lambda>seen d. under (DownloadRefused (dl_url d)) (validate_download m seen d)) []
      (sp_downloads (mf_spec m)) = Inr ()"
    using valid_parts(3) [OF assms(1)] by (simp add: validate_downloads_def)
  then have "under (DownloadRefused (dl_url d)) (validate_download m ([] @ xs) d) = Inr ()"
    using assms(2) by (simp only: each_after_Inr)
  then show ?thesis by simp
qed

lemma validate_download_parts:
  assumes "validate_download m seen d = Inr ()"
  shows "list_all sha256_char (dl_sha256 d)" and "length (dl_sha256 d) = 64"
    and "list_ex (owns_storage (dl_storage d)) (requires_of m)"
    and "list_all segment_ok (split_char CHR ''/'' (dl_into d))"
    and "\<not> list_ex (\<lambda>e. dl_storage e = dl_storage d \<and>
           (within (dl_into d) (dl_into e) \<or> within (dl_into e) (dl_into d))) seen"
  using assms by (auto simp: validate_download_def split: option.splits)

text \<open>two downloads of an accepted app into one volume never touch each other: neither directory
  is the other or inside it, and no segment of a directory climbs out of the volume.\<close>

theorem downloads_disjoint:
  assumes "validate_with_guide pj m g = Inr ()"
    and "sp_downloads (mf_spec m) = xs @ d # ys @ e # zs" and "dl_storage d = dl_storage e"
  shows "\<not> within (dl_into d) (dl_into e) \<and> \<not> within (dl_into e) (dl_into d) \<and>
    ''..'' \<notin> set (split_char CHR ''/'' (dl_into d))"
proof -
  have "validate_download m (xs @ d # ys) e = Inr ()"
    by (rule accepted_downloads [OF assms(1), of _ _ zs]) (simp add: assms(2))
  from validate_download_parts(5) [OF this] assms(3)
  have "\<not> within (dl_into d) (dl_into e) \<and> \<not> within (dl_into e) (dl_into d)"
    by (auto simp: list_ex_iff)
  moreover have "list_all segment_ok (split_char CHR ''/'' (dl_into d))"
    using validate_download_parts(4) [OF accepted_downloads [OF assms(1,2)]] .
  ultimately show ?thesis by (auto simp: list_all_iff segment_ok_def dot_segment_def)
qed

definition sample_sha :: string where
  "sample_sha = replicate 64 CHR ''0''"

definition sample_download :: "string \<Rightarrow> download" where
  "sample_download into = \<lparr>dl_url = ''https://h/f.zip'', dl_sha256 = sample_sha, dl_storage = ''data'',
     dl_into = into, dl_unzip = True\<rparr>"

definition download_manifest :: manifest where
  "download_manifest =
     sample_manifest \<lparr>mf_spec := (mf_spec sample_manifest)
       \<lparr>sp_downloads := [sample_download ''plugins/a'', sample_download ''plugins/b'']\<rparr>\<rparr>"

lemma download_valid: "validate_with_guide (\<lambda>_. []) download_manifest sample_guide = Inr ()"
  by code_simp

theorem downloads_disjoint_witness:
  "\<not> within ''plugins/a'' ''plugins/b'' \<and> \<not> within ''plugins/b'' ''plugins/a'' \<and>
   ''..'' \<notin> set (split_char CHR ''/'' ''plugins/a'')"
  using downloads_disjoint [OF download_valid, of "[]" "sample_download ''plugins/a''" "[]"
      "sample_download ''plugins/b''" "[]"]
  by (simp add: download_manifest_def sample_download_def)

text \<open>a file is fetched only into a volume the plan has already created for the app.\<close>

theorem fetched_into_own_volume:
  assumes "resolve_with_guide pj tz m g params = Inr (xs @ FetchDownload f # ys)"
  shows "\<exists>path tier backup sqlite. CreateVolume (fd_volume f) path tier backup sqlite \<in> set xs"
proof -
  from assms have v: "validate_with_guide pj m g = Inr ()"
    and r: "resolve_validated tz m g params = Inr (xs @ FetchDownload f # ys)"
    by (simp_all add: resolve_with_guide_Inr)
  obtain p routes where p: "provision_actions m params = Inr p"
    and rt: "collect_results (ingress_action m params) (sp_ingress (mf_spec m)) = Inr routes"
    and plan: "xs @ FetchDownload f # ys = p @ service_actions m g params @ routes"
    using r by (rule resolve_shape)
  have notp: "FetchDownload f \<notin> set p" by (rule provision_no_fetch [OF p])
  with plan obtain us where xs: "xs = p @ us" and us: "service_actions m g params @ routes = us @ FetchDownload f # ys"
    by (metis split_after_prefix)
  have "FetchDownload f \<in> set (service_actions m g params @ routes)" by (simp add: us)
  then have "FetchDownload f \<in> set (service_actions m g params)"
    using routes_are_ingress(1) [OF rt, of "FetchDownload f"] by auto
  then obtain d where d: "d \<in> set (sp_downloads (mf_spec m))" "FetchDownload f = download_action m d"
    by (auto simp: service_actions_def digest_actions_def secret_actions_def companion_actions_def
        guide_actions_def default_guard_def Let_def split: if_splits)
  then obtain xs' ys' where "sp_downloads (mf_spec m) = xs' @ d # ys'" by (auto simp: in_set_conv_decomp)
  from validate_download_parts(3) [OF accepted_downloads [OF v this]]
  obtain c where c: "c \<in> set (requires_of m)" "owns_storage (dl_storage d) c" by (auto simp: list_ex_iff)
  then obtain path tier backup sqlite copy where
    "Storage (dl_storage d) path tier backup sqlite copy None \<in> set (requires_of m)"
    by (cases "(dl_storage d, c)" rule: owns_storage.cases) auto
  from own_volume_created [OF p this] d(2) show ?thesis by (auto simp: xs download_action_def)
qed


lemma download_planned:
  "resolve_with_guide (\<lambda>_. []) (\<lambda>_. True) download_manifest sample_guide sample_params =
   Inr (sample_provisioned @ service_actions download_manifest sample_guide sample_params @
        [ConfigureIngress ''a.example.org'' ''app'' 80 False])"
proof -
  have "provision_actions download_manifest sample_params = Inr sample_provisioned"
    using sample_provision by (simp add: provision_actions_def download_manifest_def)
  moreover have "collect_results (ingress_action download_manifest sample_params)
      (sp_ingress (mf_spec download_manifest)) = Inr [ConfigureIngress ''a.example.org'' ''app'' 80 False]"
    by code_simp
  moreover have "\<not> asks_timezone download_manifest" by code_simp
  then have "check_timezone tz download_manifest sample_params = Inr ()" for tz
    by (simp add: check_timezone_def)
  moreover have "check_runtime download_manifest = Inr ()" by code_simp
  ultimately show ?thesis
    by (simp only: resolve_with_guide_Inr download_valid resolve_Inr_conv) simp
qed

theorem fetched_into_own_volume_witness:
  "\<exists>path tier backup sqlite. CreateVolume ''app-data'' path tier backup sqlite \<in>
     set (sample_provisioned @ before_services download_manifest sample_guide @
          companions_part download_manifest sample_params)"
proof -
  let ?f = "\<lparr>fd_app = ''app'', fd_volume = ''app-data'', fd_url = ''https://h/f.zip'', fd_sha256 = sample_sha,
    fd_into = ''plugins/a'', fd_unzip = True, fd_constraints = app_constraints download_manifest,
    fd_mounts = app_mounts download_manifest\<rparr>"
  have "app_part download_manifest sample_guide sample_params =
      FetchDownload ?f # tl (app_part download_manifest sample_guide sample_params)"
    by (simp add: app_part_def download_action_def sample_download_def) 
      (simp add: download_manifest_def sample_download_def download_action_def sample_manifest_def)
  then have "sample_provisioned @ service_actions download_manifest sample_guide sample_params @
        [ConfigureIngress ''a.example.org'' ''app'' 80 False] =
      (sample_provisioned @ before_services download_manifest sample_guide @
          companions_part download_manifest sample_params) @ FetchDownload ?f #
        (tl (app_part download_manifest sample_guide sample_params) @
         [ConfigureIngress ''a.example.org'' ''app'' 80 False])"
    by (simp only: service_actions_split append_assoc append_Cons [symmetric])
  from fetched_into_own_volume [OF download_planned [unfolded this]] show ?thesis by simp
qed


section \<open>Routes opened after the guide\<close>

lemma accepted_restore_steps:
  assumes "validate_guide pjs m g = Inr ()" and "s \<in> set (steps g)" and "is_blocking s"
  shows "step_phase s \<noteq> PostRestore"
  using assms by (auto simp: validate_guide_def check_step_def check_restore_step_def)

text \<open>C8: for an accepted manifest with an accepted guide, a route meant to open after the guide has a
  blocking step before it in the plan.\<close>

theorem guarded_exposure:
  assumes "resolve_with_guide pj tz m g params = Inr (xs @ ConfigureIngress h s port public # ys)"
    and "validate_guide pjs m g = Inr ()"
    and "i \<in> set (sp_ingress (mf_spec m))" and "ing_expose i = AfterGuide"
  shows "\<exists>b \<in> set xs. is_blocking_step b"
proof -
  from assms(1) have r: "resolve_validated tz m g params = Inr (xs @ ConfigureIngress h s port public # ys)"
    by (simp add: resolve_with_guide_Inr)
  obtain p us where "xs = p @ service_actions m g params @ us"
    by (rule routes_split [OF r]) simp_all
  moreover have "\<exists>b \<in> set (service_actions m g params). is_blocking_step b"
    unfolding service_blocks_iff guard_blocks_iff at_install_iff
    using assms(3,4) accepted_restore_steps [OF assms(2)] by blast
  ultimately show ?thesis by auto
qed

theorem guarded_exposure_witness:
  "\<exists>b \<in> set (sample_provisioned @ service_actions sample_manifest sample_guide sample_params).
     is_blocking_step b"
proof (rule guarded_exposure [where ys = "[]" and i = sample_ingress,
      OF sample_installed [unfolded sample_plan_def append_assoc [symmetric]]])
  show "validate_guide (\<lambda>_. None) sample_manifest sample_guide = Inr ()" by code_simp
qed (simp_all add: sample_names sample_ingress_def)


section \<open>Claims\<close>

lemma last_at_or_below_exists:
  "k \<le> l \<Longrightarrow> (k, v) \<in> set levels \<Longrightarrow> last_at_or_below levels l \<noteq> None"
  by (auto simp: last_at_or_below_def filter_empty_conv split: list.splits)

text \<open>every role at or above the floor of an accepted app is given a value for every claim the app
  declares: no one allowed in signs in without one.\<close>

theorem every_admitted_role_has_claims:
  assumes "validate_with_guide pj m g = Inr ()" and "sp_access (mf_spec m) = Some a"
    and "(name, c) \<in> set (acc_claims a)" and "acc_floor a \<le> rv_level r"
  shows "\<exists>v. value_for c r = Some v"
proof -
  have "validate_claim pj a (name, c) = Inr ()"
    using valid_parts(11) [OF assms(1)] assms(2,3)
    by (simp add: validate_access_def validate_access_of_def Let_def)
  then consider levels k v where "claim_by_level c = Some levels" "(k, v) \<in> set levels" "k \<le> acc_floor a"
    | v where "claim_by_level c = None" "claim_json c = Some v"
    by (auto simp: validate_claim_def list_ex_iff split: option.splits prod.splits)
  then show ?thesis
  proof cases
    case 1
    from last_at_or_below_exists [OF order.trans [OF 1(3) assms(4)] 1(2)] 1(1) show ?thesis by (auto simp: value_for_def)
  qed (simp add: value_for_def)
qed

definition claim_manifest :: manifest where
  "claim_manifest =
     sample_manifest \<lparr>mf_spec := (mf_spec sample_manifest)
       \<lparr>sp_requires := [Sso SsoNative [''/cb'']], sp_env := [(''ID'', ''{{ oidc.client_id }}'')],
        sp_access := Some (default_access
          \<lparr>acc_claims := [(''gitea'', \<lparr>claim_by_level = Some [(User, ''user''), (Admin, ''admin'')],
                                     claim_json = None\<rparr>)]\<rparr>)\<rparr>\<rparr>"

theorem every_admitted_role_has_claims_witness:
  "\<exists>v. value_for \<lparr>claim_by_level = Some [(User, ''user''), (Admin, ''admin'')], claim_json = None\<rparr>
     \<lparr>rv_id = ''ops'', rv_name = ''Ops'', rv_level = Operator\<rparr> = Some v"
proof (rule every_admitted_role_has_claims)
  show "validate_with_guide (\<lambda>_. []) claim_manifest sample_guide = Inr ()" by code_simp
  show "acc_floor (the (sp_access (mf_spec claim_manifest))) \<le>
      rv_level \<lparr>rv_id = ''ops'', rv_name = ''Ops'', rv_level = Operator\<rparr>"
    by code_simp
qed (simp_all add: claim_manifest_def)



section \<open>Secrets of the environment\<close>

lemma set_bt_insert_subset: "set (bt_insert k v m) \<subseteq> insert (k, v) (set m)"
  by (induction k v m rule: bt_insert.induct) auto

lemma set_bt_extend_subset: "set (bt_extend m es) \<subseteq> set m \<union> set es"
proof (induction es arbitrary: m)
  case (Cons e es)
  obtain k v where e: "e = (k, v)" by force
  show ?case
    using Cons.IH [of "bt_insert k v m"] set_bt_insert_subset [of k v m]
    by (auto simp: bt_extend_def e)
qed (simp add: bt_extend_def)

lemma generated_secrets_no_brace: "CHR ''{'' \<notin> set v \<Longrightarrow> generated_secrets v = []"
proof -
  assume "CHR ''{'' \<notin> set v"
  then have "\<not> sublist ''{{ secret.'' v" by (auto simp: sublist_def)
  then have "find_sub ''{{ secret.'' v = None" by (simp add: find_sub_None)
  then show ?thesis by (subst generated_secrets.simps) simp
qed

lemma set_join_with: "set (join_with sep ws) \<subseteq> set sep \<union> (\<Union>w \<in> set ws. set w)"
  by (cases ws) (auto simp: join_with_def)

lemma downloads_env_plain:
  assumes "validate_with_guide pj m g = Inr ()"
  shows "generated_secrets (join_with '','' (map dl_sha256 (sp_downloads (mf_spec m)))) = []"
proof (rule generated_secrets_no_brace)
  have "CHR ''{'' \<notin> set (dl_sha256 d)" if "d \<in> set (sp_downloads (mf_spec m))" for d
  proof -
    from that obtain xs ys where "sp_downloads (mf_spec m) = xs @ d # ys" by (auto simp: in_set_conv_decomp)
    from validate_download_parts(1) [OF accepted_downloads [OF assms this]] show ?thesis
      by (auto simp: list_all_iff sha256_char_def is_ascii_digit_def)
  qed
  then show "CHR ''{'' \<notin> set (join_with '','' (map dl_sha256 (sp_downloads (mf_spec m))))"
    using set_join_with [of "'',''" "map dl_sha256 (sp_downloads (mf_spec m))"] by auto
qed

lemma app_env_from:
  assumes "(k, v) \<in> set (app_env m g params)"
  shows "v \<in> set (substituted (mf_spec m)) \<or> (k, v) \<in> set (guide_env g params) \<or>
    v = join_with '','' (map dl_sha256 (sp_downloads (mf_spec m)))"
proof -
  have "(k, v) \<in> insert (DOWNLOADS_ENV, join_with '','' (map dl_sha256 (sp_downloads (mf_spec m))))
      (set (sp_env (mf_spec m)) \<union> set (guide_env g params))"
    using assms set_bt_extend_subset [of "sp_env (mf_spec m)" "guide_env g params"]
      set_bt_insert_subset [of DOWNLOADS_ENV _ "bt_extend (sp_env (mf_spec m)) (guide_env g params)"]
    by (fastforce simp: app_env_def Let_def split: if_splits)
  then show ?thesis by (auto simp: substituted_def bt_values_def) force+
qed

lemma companion_env_from:
  assumes "(k, v) \<in> set (companion_environment c (mf_spec m))" and "c \<in> set (sp_companions (mf_spec m))"
  shows "v \<in> set (substituted (mf_spec m))"
proof -
  have "(k, v) \<in> set (sp_shared_env (mf_spec m)) \<union> set (co_env c)"
    using assms(1) set_bt_extend_subset [of "if co_shared_env c then sp_shared_env (mf_spec m) else []" "co_env c"]
    by (auto simp: companion_environment_def split: if_splits)
  then have "v \<in> set (bt_values (sp_shared_env (mf_spec m))) \<union> set (bt_values (co_env c))"
    by (force simp: bt_values_def)
  with assms(2) show ?thesis by (auto simp: substituted_def)
qed

text \<open>whenever a variable of a deployed service names a generated secret, that secret is generated
  earlier in the plan, unless the variable is one a guide's \<open>env\<close> automation sets.\<close>

theorem environment_secrets_generated:
  assumes "resolve_with_guide pj tz m g params = Inr (xs @ DeployService d # ys)"
    and "(k, v) \<in> set (ds_env d)" and "Inr s \<in> set (generated_secrets v)"
  shows "(\<exists>purpose. GenerateSecret (vault_name s (app_name m)) purpose \<in> set xs) \<or>
    (k, v) \<in> set (guide_env g params)"
proof -
  from assms(1) have valid: "validate_with_guide pj m g = Inr ()"
    and r: "resolve_validated tz m g params = Inr (xs @ DeployService d # ys)"
    by (simp_all add: resolve_with_guide_Inr)
  obtain p zs us rt where xs: "xs = p @ before_services m g @ zs"
    and zs: "companions_part m params @ app_part m g params = zs @ DeployService d # us"
    by (rule deploy_split [OF r refl])
  from deployed_cases [OF zs] have "v \<in> set (substituted (mf_spec m)) \<or> (k, v) \<in> set (guide_env g params) \<or>
      v = join_with '','' (map dl_sha256 (sp_downloads (mf_spec m)))"
  proof (elim disjE bexE conjE)
    assume "d = app_deployment m g params"
    with assms(2) show ?thesis by (intro app_env_from) (simp add: app_deployment_def Let_def)
  next
    fix c assume "c \<in> set (sp_companions (mf_spec m))" "d = companion_deployment m c"
    with assms(2) companion_env_from [of k v c m] show ?thesis by (simp add: companion_deployment_def Let_def)
  qed
  moreover have "v \<noteq> join_with '','' (map dl_sha256 (sp_downloads (mf_spec m)))"
    using assms(3) downloads_env_plain [OF valid] by auto
  moreover have "generates (before_services m g) (vault_name s (app_name m))"
    if "v \<in> set (substituted (mf_spec m))"
    using secret_actions_generate [of v m g s] that assms(3) by (simp add: before_services_def)
  ultimately show ?thesis by (auto simp: xs generates_iff)
qed

theorem environment_secrets_generated_witness:
  "(\<exists>purpose. GenerateSecret ''app-k'' purpose \<in>
      set (sample_provisioned @ before_services sample_manifest sample_guide @
           companions_part sample_manifest sample_params)) \<or>
   (''KEY'', ''{{ secret.k }}'') \<in> set (guide_env sample_guide sample_params)"
proof -
  have "Inr \<lparr>gs_name = ''k'', gs_form = Plain\<rparr> \<in> set (generated_secrets ''{{ secret.k }}'')" by code_simp
  moreover have "(''KEY'', ''{{ secret.k }}'') \<in> set (ds_env (app_deployment sample_manifest sample_guide sample_params))"
    by (simp add: app_deployment_def app_env_def guide_env_def sample_guide_def bt_extend_def Let_def)
      (simp add: sample_manifest_def)
  ultimately show ?thesis
    using environment_secrets_generated [OF sample_installed [unfolded sample_app_split]]
    by (fastforce simp: vault_name_def sample_names)
qed

text \<open>C9: a guide's \<open>env\<close> automation escapes both validations: an accepted manifest with an accepted
  guide has a plan in which the app is deployed with a variable naming a generated secret that
  nothing in the plan generates, so it starts with the text of the token as its value.\<close>

definition env_guide :: guide where
  "env_guide =
     \<lparr>steps = [(first_admin_step ''app'') \<lparr>step_automate := [AutoEnv [(''TOKEN'', ''{{ secret.extra }}'')]]\<rparr>]\<rparr>"

theorem guide_env_secret_never_generated:
  "\<exists>plan d. validate_guide (\<lambda>_. None) sample_manifest env_guide = Inr () \<and>
     resolve_with_guide (\<lambda>_. []) (\<lambda>_. True) sample_manifest env_guide sample_params = Inr plan \<and>
     DeployService d \<in> set plan \<and> (''TOKEN'', ''{{ secret.extra }}'') \<in> set (ds_env d) \<and>
     \<not> generates plan (vault_name \<lparr>gs_name = ''extra'', gs_form = Plain\<rparr> (app_name sample_manifest))"
proof -
  let ?plan = "sample_provisioned @ service_actions sample_manifest env_guide sample_params @
    [ConfigureIngress ''a.example.org'' ''app'' 80 False]"
  let ?d = "app_deployment sample_manifest env_guide sample_params"
  have "validate_with_guide (\<lambda>_. []) sample_manifest env_guide = Inr ()" by code_simp
  then have "resolve_with_guide (\<lambda>_. []) (\<lambda>_. True) sample_manifest env_guide sample_params = Inr ?plan"
    by (simp only: resolve_with_guide_Inr resolve_Inr_conv sample_checks sample_provision sample_routes) simp
  moreover have "validate_guide (\<lambda>_. None) sample_manifest env_guide = Inr ()" by code_simp
  moreover have "DeployService ?d \<in> set ?plan" by (simp add: service_actions_def)
  moreover have "guide_env env_guide sample_params = [(''TOKEN'', ''{{ secret.extra }}'')]" by code_simp
  then have "bt_get (app_env sample_manifest env_guide sample_params) ''TOKEN'' = Some ''{{ secret.extra }}''"
    by (simp add: app_env_def bt_extend_def bt_get_insert_fun sample_manifest_def bt_get_def)
  then have "(''TOKEN'', ''{{ secret.extra }}'') \<in> set (ds_env ?d)"
    by (auto simp: app_deployment_def bt_get_def Let_def dest: map_of_SomeD)
  moreover have "secret_actions sample_manifest env_guide =
      [GenerateSecret ''app-k'' ''k of app, generated at install'']" by code_simp
  then have "\<not> generates ?plan (vault_name \<lparr>gs_name = ''extra'', gs_form = Plain\<rparr> (app_name sample_manifest))"
    by (simp add: service_generates) (simp add: generates_def sample_provisioned_def vault_name_def sample_names)
  ultimately show ?thesis by blast
qed

end
