(* ===== verification/Users.thy ===== *)
theory Users
  imports Rbac
begin

text \<open>
  People and their mail (\<open>crates/hlb-users/src\<close>: \<open>alias.rs\<close>, \<open>role.rs\<close>, \<open>lib.rs\<close>,
  \<open>generation.rs\<close>, \<open>forwarder.rs\<close>): the lifetime of an alias, what a role allows, what an
  account holds across its two systems, and the addresses generated for a site. Times are
  Unix timestamps, \<open>i64\<close> in the source and \<open>int\<close> here. The wording of refusals and of
  states is not modelled.
\<close>

section \<open>Aliases\<close>

datatype duration = Permanent | Temporary (expires_at: int)

record mail_alias =
  al_local :: string
  al_duration :: duration
  al_active :: bool
  al_note :: "string option"

datatype alias_state =
    StPermanent
  | StValid (remaining_s: int)
  | StExpired
  | StExpiredButActive (since_s: int)

definition alias_permanent :: "string \<Rightarrow> mail_alias" where
  "alias_permanent l = \<lparr>al_local = l, al_duration = Permanent, al_active = True, al_note = None\<rparr>"

definition alias_temporary :: "string \<Rightarrow> int \<Rightarrow> mail_alias" where
  "alias_temporary l at = \<lparr>al_local = l, al_duration = Temporary at, al_active = True, al_note = None\<rparr>"

definition with_note :: "mail_alias \<Rightarrow> string \<Rightarrow> mail_alias" where
  "with_note a note = a\<lparr>al_note := Some note\<rparr>"

definition alias_state_at :: "mail_alias \<Rightarrow> int \<Rightarrow> alias_state" where
  "alias_state_at a now =
     (case al_duration a of
        Permanent \<Rightarrow> StPermanent
      | Temporary at \<Rightarrow>
          (if \<not> at \<le> now then StValid (at - now)
           else if al_active a then StExpiredButActive (now - at)
           else StExpired))"

fun breaks_the_promise :: "alias_state \<Rightarrow> bool" where
  "breaks_the_promise (StExpiredButActive _) = True"
| "breaks_the_promise _ = False"

definition is_due_for_purge :: "mail_alias \<Rightarrow> int \<Rightarrow> bool" where
  "is_due_for_purge a now = breaks_the_promise (alias_state_at a now)"

definition i64_max :: int where
  "i64_max = 2 ^ 63 - 1"

definition purge_key :: "mail_alias \<Rightarrow> int" where
  "purge_key a = (case al_duration a of Temporary at \<Rightarrow> at | Permanent \<Rightarrow> i64_max)"

text \<open>\<open>sort_by_key\<close> is stable.\<close>

definition due_for_purge :: "mail_alias list \<Rightarrow> int \<Rightarrow> mail_alias list" where
  "due_for_purge aliases now = sort_key purge_key (filter (\<lambda>a. is_due_for_purge a now) aliases)"

lemma is_due_iff:
  "is_due_for_purge a now \<longleftrightarrow> (\<exists>at. al_duration a = Temporary at \<and> at \<le> now \<and> al_active a)"
  by (auto simp: is_due_for_purge_def alias_state_at_def split: duration.splits)


section \<open>Roles\<close>

record mail_limits =
  ml_max_mailboxes :: u32
  ml_max_permanent_aliases :: u32
  ml_max_temporary_aliases :: u32
  ml_max_duration_s :: int
  ml_quota_bytes :: "u64 option"

definition limits_standard :: mail_limits where
  "limits_standard =
     \<lparr>ml_max_mailboxes = 3, ml_max_permanent_aliases = 10, ml_max_temporary_aliases = 50,
      ml_max_duration_s = 365 * 86400, ml_quota_bytes = Some (5 * 1024 * 1024 * 1024)\<rparr>"

definition limits_guest :: mail_limits where
  "limits_guest =
     \<lparr>ml_max_mailboxes = 1, ml_max_permanent_aliases = 0, ml_max_temporary_aliases = 5,
      ml_max_duration_s = 30 * 86400, ml_quota_bytes = Some (1024 * 1024 * 1024)\<rparr>"

definition limits_unlimited :: mail_limits where
  "limits_unlimited =
     \<lparr>ml_max_mailboxes = - 1, ml_max_permanent_aliases = - 1, ml_max_temporary_aliases = - 1,
      ml_max_duration_s = i64_max, ml_quota_bytes = None\<rparr>"

definition limits_none :: mail_limits where
  "limits_none =
     \<lparr>ml_max_mailboxes = 0, ml_max_permanent_aliases = 0, ml_max_temporary_aliases = 0,
      ml_max_duration_s = 0, ml_quota_bytes = Some 0\<rparr>"

record role_def =
  rd_id :: string
  rd_name :: string
  rd_level :: role
  rd_mail :: mail_limits
  rd_quotas :: "(string, u64) btree_map"

definition role_new :: "string \<Rightarrow> role \<Rightarrow> mail_limits \<Rightarrow> role_def" where
  "role_new i l mail = \<lparr>rd_id = i, rd_name = i, rd_level = l, rd_mail = mail, rd_quotas = []\<rparr>"

definition role_nothing :: role_def where
  "role_nothing = role_new [] User limits_none"

definition role_label :: "role_def \<Rightarrow> string" where
  "role_label r = (if rd_id r = [] then ''no role'' else rd_name r)"

datatype mail_request = ReqMailbox | ReqAliasPermanent | ReqAliasTemporary (req_duration_s: int)

record usage =
  us_mailboxes :: u32
  us_permanent_aliases :: u32
  us_temporary_aliases :: u32

datatype limit_refusal =
  MailboxLimit | PermanentLimit | TemporaryLimit | DurationTooLong | DurationNotPositive

fun authorized :: "role_def \<Rightarrow> usage \<Rightarrow> mail_request \<Rightarrow> limit_refusal + unit" where
  "authorized r u ReqMailbox =
     (if ml_max_mailboxes (rd_mail r) \<le> us_mailboxes u then Inl MailboxLimit else Inr ())"
| "authorized r u ReqAliasPermanent =
     (if ml_max_permanent_aliases (rd_mail r) \<le> us_permanent_aliases u then Inl PermanentLimit else Inr ())"
| "authorized r u (ReqAliasTemporary d) =
     (if ml_max_temporary_aliases (rd_mail r) \<le> us_temporary_aliases u then Inl TemporaryLimit
      else if ml_max_duration_s (rd_mail r) < d then Inl DurationTooLong
      else if d \<le> 0 then Inl DurationNotPositive
      else Inr ())"


section \<open>Accounts\<close>

record mailbox =
  mb_local :: string
  mb_domain :: string
  mb_default :: bool
  mb_aliases :: "mail_alias list"

definition mailbox_address :: "mailbox \<Rightarrow> string" where
  "mailbox_address b = mb_local b @ ''@'' @ mb_domain b"

definition mailbox_broken_promises :: "mailbox \<Rightarrow> int \<Rightarrow> mail_alias list" where
  "mailbox_broken_promises b now = filter (\<lambda>a. breaks_the_promise (alias_state_at a now)) (mb_aliases b)"

record account =
  ac_name :: string
  ac_role :: "string option"
  ac_pocket_id :: "string option"
  ac_mailboxes :: "mailbox list"

datatype coherence = CohComplete | CohWithoutMailbox | CohWithoutIdentity | CohEmpty

definition account_new :: "string \<Rightarrow> string option \<Rightarrow> account" where
  "account_new n r = \<lparr>ac_name = n, ac_role = r, ac_pocket_id = None, ac_mailboxes = []\<rparr>"

definition default_mailbox :: "account \<Rightarrow> mailbox option" where
  "default_mailbox a = find mb_default (ac_mailboxes a)"

definition coherence_of :: "account \<Rightarrow> coherence" where
  "coherence_of a =
     (case (ac_pocket_id a \<noteq> None, default_mailbox a \<noteq> None) of
        (True, True) \<Rightarrow> CohComplete
      | (True, False) \<Rightarrow> CohWithoutMailbox
      | (False, True) \<Rightarrow> CohWithoutIdentity
      | (False, False) \<Rightarrow> CohEmpty)"

definition is_complete :: "coherence \<Rightarrow> bool" where
  "is_complete c \<longleftrightarrow> c = CohComplete"

text \<open>One alias counted; the \<open>u32\<close> counters wrap.\<close>

definition count_alias :: "int \<Rightarrow> mail_alias \<Rightarrow> usage \<Rightarrow> usage" where
  "count_alias now a u =
     (case al_duration a of
        Permanent \<Rightarrow> u\<lparr>us_permanent_aliases := us_permanent_aliases u + 1\<rparr>
      | Temporary _ \<Rightarrow>
          if alias_state_at a now \<noteq> StExpired
          then u\<lparr>us_temporary_aliases := us_temporary_aliases u + 1\<rparr> else u)"

definition account_usage :: "account \<Rightarrow> int \<Rightarrow> usage" where
  "account_usage a now =
     fold (\<lambda>b. fold (count_alias now) (mb_aliases b)) (ac_mailboxes a)
       \<lparr>us_mailboxes = of_nat (length (ac_mailboxes a)), us_permanent_aliases = 0,
        us_temporary_aliases = 0\<rparr>"

definition account_broken_promises :: "account \<Rightarrow> int \<Rightarrow> (mailbox \<times> mail_alias) list" where
  "account_broken_promises a now =
     concat (map (\<lambda>b. map (Pair b) (mailbox_broken_promises b now)) (ac_mailboxes a))"

datatype user_error =
    InvalidName string
  | ReservedLocal string
  | DefaultMailbox string

definition can_delete_mailbox :: "account \<Rightarrow> string \<Rightarrow> user_error + unit" where
  "can_delete_mailbox a l =
     (case find (\<lambda>b. mb_local b = l) (ac_mailboxes a) of
        Some b \<Rightarrow> if mb_default b then Inl (DefaultMailbox (mailbox_address b)) else Inr ()
      | None \<Rightarrow> Inr ())"

definition RESERVED_LOCALS :: "string list" where
  "RESERVED_LOCALS =
     [''postmaster'', ''abuse'', ''hostmaster'', ''webmaster'', ''noc'', ''security'', ''admin'',
      ''administrator'', ''root'', ''mailer-daemon'', ''nobody'', ''noreply'', ''no-reply'']"

definition name_char :: "char \<Rightarrow> bool" where
  "name_char c \<longleftrightarrow> is_ascii_lowercase c \<or> is_ascii_digit c \<or> c = CHR ''.'' \<or> c = CHR ''-''"

definition name_ok :: "string \<Rightarrow> bool" where
  "name_ok n \<longleftrightarrow>
     n \<noteq> [] \<and> length n \<le> 50 \<and> list_all name_char n \<and>
     hd n \<notin> {CHR ''.'', CHR ''-''} \<and> last n \<notin> {CHR ''.'', CHR ''-''} \<and> \<not> str_contains n ''..''"

definition validate_name :: "string \<Rightarrow> user_error + unit" where
  "validate_name n =
     (if \<not> name_ok n then Inl (InvalidName n)
      else if n \<in> set RESERVED_LOCALS then Inl (ReservedLocal n)
      else Inr ())"


section \<open>Generated addresses\<close>

definition ALPHABET :: string where
  "ALPHABET = ''abcdefghjkmnpqrstuvwxyz23456789''"

definition SUFFIX_LEN :: nat where
  "SUFFIX_LEN = 6"

definition HINT_MAX :: nat where
  "HINT_MAX = 24"

text \<open>
  \<open>str::to_lowercase\<close>, on UTF-8 bytes and up to the characters outside ASCII: they all become
  hyphens in the next step. Two characters outside ASCII have a lower case with an ASCII
  letter in it: the Kelvin sign, \<open>k\<close>, and the dotted capital I, \<open>i\<close> with a combining dot.
\<close>

fun lowercase :: "string \<Rightarrow> string" where
  "lowercase (a # b # c # s) =
     (if a = CHR 0xE2 \<and> b = CHR 0x84 \<and> c = CHR 0xAA then CHR ''k'' # lowercase s
      else if a = CHR 0xC4 \<and> b = CHR 0xB0 then CHR ''i'' # CHR 0xCC # CHR 0x87 # lowercase (c # s)
      else to_ascii_lowercase a # lowercase (b # c # s))"
| "lowercase (a # b # s) =
     (if a = CHR 0xC4 \<and> b = CHR 0xB0 then CHR ''i'' # CHR 0xCC # CHR 0x87 # lowercase s
      else to_ascii_lowercase a # lowercase (b # s))"
| "lowercase (a # s) = to_ascii_lowercase a # lowercase s"
| "lowercase [] = []"

definition hint_char :: "char \<Rightarrow> char" where
  "hint_char c =
     (if is_ascii_lowercase c \<or> is_ascii_uppercase c \<or> is_ascii_digit c then c else CHR ''-'')"

text \<open>The loop that drops a hyphen at the start or after another.\<close>

fun squeeze :: "bool \<Rightarrow> string \<Rightarrow> string" where
  "squeeze dash [] = []"
| "squeeze dash (c # cs) =
     (if c = CHR ''-'' then (if dash then squeeze True cs else c # squeeze True cs)
      else c # squeeze False cs)"

definition drop_end_hyphens :: "string \<Rightarrow> string" where
  "drop_end_hyphens s = rev (dropWhile (\<lambda>c. c = CHR ''-'') (rev s))"

definition clean_hint :: "string \<Rightarrow> string" where
  "clean_hint raw =
     drop_end_hyphens (take HINT_MAX (drop_end_hyphens (squeeze True (map hint_char (lowercase raw)))))"

record generated_alias =
  ga_local :: string
  ga_hint :: string

definition suffix_of_entropy :: "u8 list \<Rightarrow> string" where
  "suffix_of_entropy entropy =
     map (\<lambda>b. ALPHABET ! (unat b mod length ALPHABET)) (take SUFFIX_LEN entropy)"

definition for_site :: "string \<Rightarrow> u8 list \<Rightarrow> generated_alias" where
  "for_site h entropy =
     (let hint = clean_hint h; sfx = suffix_of_entropy entropy in
      \<lparr>ga_local = (if hint = [] then sfx else hint @ ''-'' @ sfx), ga_hint = hint\<rparr>)"

definition generated_address :: "generated_alias \<Rightarrow> string \<Rightarrow> string" where
  "generated_address g domain = ga_local g @ ''@'' @ domain"

text \<open>The shape of a hint: letters and digits, single hyphens inside only.\<close>

fun hyphens_single :: "string \<Rightarrow> bool" where
  "hyphens_single (a # b # s) \<longleftrightarrow> \<not> (a = CHR ''-'' \<and> b = CHR ''-'') \<and> hyphens_single (b # s)"
| "hyphens_single _ \<longleftrightarrow> True"

definition hint_shape :: "string \<Rightarrow> bool" where
  "hint_shape h \<longleftrightarrow>
     length h \<le> HINT_MAX \<and>
     list_all (\<lambda>c. is_ascii_lowercase c \<or> is_ascii_digit c \<or> c = CHR ''-'') h \<and>
     \<not> prefix ''-'' h \<and> \<not> suffix ''-'' h \<and> hyphens_single h"


section \<open>The hint of a password manager\<close>

record creation_request =
  cr_domain :: "string option"
  cr_description :: "string option"

record alias_data =
  ad_email :: string
  ad_description :: string
  ad_id :: string
  ad_active :: bool

definition alias_created :: "string \<Rightarrow> string \<Rightarrow> alias_data" where
  "alias_created email description =
     \<lparr>ad_email = email, ad_description = description, ad_id = email, ad_active = True\<rparr>"

text \<open>\<open>str::rfind\<close> of one character.\<close>

definition rfind_char :: "char \<Rightarrow> string \<Rightarrow> nat option" where
  "rfind_char c s =
     (case filter (\<lambda>i. s ! i = c) [0..<length s] of [] \<Rightarrow> None | is \<Rightarrow> Some (last is))"

text \<open>\<open>split_whitespace().next_back()\<close>: what follows the last white space of the trimmed text.\<close>

function last_word_of :: "string \<Rightarrow> string" where
  "last_word_of s =
     (case find (\<lambda>w. sublist w s) white_space of
        None \<Rightarrow> s
      | Some w \<Rightarrow> (case find_sub w s of None \<Rightarrow> s | Some i \<Rightarrow> last_word_of (drop (i + length w) s)))"
  by pat_completeness auto
termination
proof (relation "measure length")
  fix s w i
  assume "find (\<lambda>w. sublist w s) white_space = Some w" and i: "find_sub w s = Some i"
  then have "w \<in> set white_space" by (auto simp: find_Some_iff)
  then have "w \<noteq> []" by (rule white_space_not_Nil)
  with find_sub_Some_split [OF i] show "(drop (i + length w) s, s) \<in> measure length"
    by (cases w) auto
qed simp

declare last_word_of.simps [simp del]

definition last_word :: "string \<Rightarrow> string" where
  "last_word s = last_word_of (trim s)"

text \<open>\<open>trim_start_matches\<close> of a text: removed as often as it is there.\<close>

function strip_starts :: "string \<Rightarrow> string \<Rightarrow> string" where
  "strip_starts pat s =
     (if pat \<noteq> [] \<and> prefix pat s then strip_starts pat (drop (length pat) s) else s)"
  by pat_completeness auto
termination
proof (relation "measure (length \<circ> snd)")
  fix pat s :: string assume "pat \<noteq> [] \<and> prefix pat s"
  then show "((pat, drop (length pat) s), pat, s) \<in> measure (length \<circ> snd)"
    by (cases pat) (auto dest: prefix_length_le)
qed simp

declare strip_starts.simps [simp del]

definition USELESS :: "string list" where
  "USELESS = [''generated'', ''bitwarden'', ''by'', ''website'', ''http'', ''https'']"

definition hint_from_description :: "string \<Rightarrow> string option" where
  "hint_from_description description =
     (let raw = (case (rfind_char CHR ''('' description, rfind_char CHR '')'' description) of
                   (Some d, Some f) \<Rightarrow>
                     if d + 1 < f then take (f - (d + 1)) (drop (d + 1) description)
                     else last_word description
                 | _ \<Rightarrow> last_word description);
          host = hd (split_char CHR ''/'' (strip_starts ''http://'' (strip_starts ''https://'' (trim raw))));
          without_www = strip_starts ''www.'' host;
          core = hd (split_char CHR ''.'' without_www);
          clean = clean_hint core in
      if clean \<noteq> [] \<and> clean \<notin> set USELESS then Some clean else None)"


section \<open>Lemmas\<close>

lemma lowercase_no_upper: "c \<in> set (lowercase s) \<Longrightarrow> \<not> is_ascii_uppercase c"
proof (induction s rule: lowercase.induct)
  have low: "\<not> is_ascii_uppercase (to_ascii_lowercase a)" for a
  proof (cases "is_ascii_uppercase a")
    case True
    then have "65 \<le> (of_char a :: nat)" "(of_char a :: nat) \<le> 90" by (auto simp: is_ascii_uppercase_def)
    with True show ?thesis by (simp add: to_ascii_lowercase_def is_ascii_uppercase_def)
  qed (simp add: to_ascii_lowercase_def)
  have lit: "\<not> is_ascii_uppercase CHR ''k''" "\<not> is_ascii_uppercase CHR ''i''"
    "\<not> is_ascii_uppercase CHR 0xCC" "\<not> is_ascii_uppercase CHR 0x87"
    by (simp_all add: is_ascii_uppercase_def)
  {
    case (1 a b d s)
    then show ?case using low lit by (auto split: if_splits)
  next
    case (2 a b)
    then show ?case using low lit by (auto split: if_splits)
  next
    case (3 a)
    then show ?case using low lit by auto
  }
qed simp_all

lemma hint_chars: "c \<in> set (map hint_char (lowercase s)) \<Longrightarrow>
  is_ascii_lowercase c \<or> is_ascii_digit c \<or> c = CHR ''-''"
  using lowercase_no_upper by (auto simp: hint_char_def)

lemma set_squeeze: "set (squeeze d s) \<subseteq> set s"
  by (induction d s rule: squeeze.induct) auto

lemma squeeze_shape: "hyphens_single (squeeze d s) \<and> (d \<longrightarrow> \<not> prefix ''-'' (squeeze d s))"
proof (induction d s rule: squeeze.induct)
  case (2 d c cs)
  have cons: "hyphens_single (x # ys) \<longleftrightarrow> hyphens_single ys \<and> \<not> (x = CHR ''-'' \<and> prefix ''-'' ys)" for x ys
    by (cases ys) auto
  show ?case using 2 by (auto simp: cons)
qed simp

lemma hyphens_single_prefix: "hyphens_single t \<Longrightarrow> prefix s t \<Longrightarrow> hyphens_single s"
proof (induction t arbitrary: s rule: hyphens_single.induct)
  case (1 a b t)
  show ?case
  proof (cases s)
    case (Cons x xs)
    with 1 have "x = a" "prefix xs (b # t)" "hyphens_single xs" by auto
    with 1 Cons show ?thesis by (cases xs) auto
  qed simp
qed (auto simp: prefix_Cons)

lemma drop_end_hyphens_prefix: "prefix (drop_end_hyphens s) s"
proof -
  have "suffix (dropWhile (\<lambda>c. c = CHR ''-'') (rev s)) (rev s)" by (rule suffix_dropWhile)
  then show ?thesis by (simp add: drop_end_hyphens_def suffix_to_prefix)
qed

lemma drop_end_hyphens_end: "\<not> suffix ''-'' (drop_end_hyphens s)"
proof
  assume "suffix ''-'' (drop_end_hyphens s)"
  then obtain t where "drop_end_hyphens s = t @ ''-''" by (auto simp: suffix_def)
  then have "dropWhile (\<lambda>c. c = CHR ''-'') (rev s) = CHR ''-'' # rev t"
    by (simp add: drop_end_hyphens_def) (metis rev.simps(2) rev_rev_ident)
  then show False using hd_dropWhile [of "\<lambda>c. c = CHR ''-''" "rev s"] by (metis list.sel(1) list.simps(3))
qed

lemma clean_hint_prefix: "prefix (clean_hint raw) (squeeze True (map hint_char (lowercase raw)))"
  unfolding clean_hint_def
  by (meson drop_end_hyphens_prefix prefix_order.trans take_is_prefix)

lemma clean_hint_length: "length (clean_hint raw) \<le> HINT_MAX"
  unfolding clean_hint_def
  by (rule order.trans [OF prefix_length_le [OF drop_end_hyphens_prefix]]) simp

lemma clean_hint_shape: "hint_shape (clean_hint raw)"
proof -
  let ?t = "squeeze True (map hint_char (lowercase raw))"
  have p: "prefix (clean_hint raw) ?t" by (rule clean_hint_prefix)
  have "list_all (\<lambda>c. is_ascii_lowercase c \<or> is_ascii_digit c \<or> c = CHR ''-'') (clean_hint raw)"
    using set_mono_prefix [OF p] set_squeeze [of True "map hint_char (lowercase raw)"] hint_chars
    by (fastforce simp: list_all_iff)
  moreover have "\<not> prefix ''-'' (clean_hint raw)"
    using squeeze_shape [of True "map hint_char (lowercase raw)"] p
    by (meson prefix_order.trans)
  moreover have "hyphens_single (clean_hint raw)"
    using hyphens_single_prefix [OF _ p] squeeze_shape by blast
  moreover have "\<not> suffix ''-'' (clean_hint raw)"
    unfolding clean_hint_def by (rule drop_end_hyphens_end)
  ultimately show ?thesis using clean_hint_length by (simp add: hint_shape_def)
qed

text \<open>A generated address is never the hint alone: it ends with the whole random suffix.\<close>

lemma for_site_suffix:
  "\<exists>h. ga_local (for_site hint entropy) = h @ suffix_of_entropy entropy \<and>
       (h = [] \<or> h = clean_hint hint @ ''-'')"
  by (auto simp: for_site_def Let_def)

end
