(* ===== verification/Sieve.thy ===== *)
theory Sieve
  imports Rust_Str
begin

text \<open>
  The sorting rules of a mailbox (\<open>crates/hlb-users/src/sieve.rs\<close>): the block Homelabus
  manages inside a person's own Sieve script, and how it is put back at each change.
\<close>

section \<open>Model\<close>

definition START :: string where
  "START = ''# >>> Homelabus - start of the managed block. Do not edit by hand.''"

definition END_MARK :: string where
  "END_MARK = ''# <<< Homelabus - end of the managed block.''"

record sieve_rule =
  sv_alias :: string
  sv_folder :: string
  sv_stop :: bool

definition rule_new :: "string \<Rightarrow> string \<Rightarrow> sieve_rule" where
  "rule_new a f = \<lparr>sv_alias = a, sv_folder = f, sv_stop = True\<rparr>"

definition default_folder :: "string option \<Rightarrow> string option" where
  "default_folder hint =
     (case hint of
        None \<Rightarrow> None
      | Some i \<Rightarrow> (let t = trim i in if t = [] then None else Some (''Alias/'' @ t)))"

text \<open>A backslash doubled, then a quote escaped.\<close>

definition escape :: "string \<Rightarrow> string" where
  "escape s = str_replace (str_replace s [CHR 0x5C] [CHR 0x5C, CHR 0x5C]) [CHR 0x22] [CHR 0x5C, CHR 0x22]"

definition dq :: string where
  "dq = [CHR 0x22]"

definition nl :: string where
  "nl = [CHR 0x0A]"

definition rule_text :: "sieve_rule \<Rightarrow> string" where
  "rule_text r =
     nl @
     ''if anyof (envelope :localpart :is '' @ dq @ ''to'' @ dq @ '' '' @ dq @ escape (sv_alias r) @ dq @ '','' @ nl @
     ''          address :localpart :is ['' @ dq @ ''to'' @ dq @ '', '' @ dq @ ''cc'' @ dq @ ''] '' @ dq @
     escape (sv_alias r) @ dq @ '') {'' @ nl @
     ''    fileinto :create '' @ dq @ escape (sv_folder r) @ dq @ '';'' @ nl @
     (if sv_stop r then ''    stop;'' @ nl else []) @
     ''}'' @ nl"

definition block :: "sieve_rule list \<Rightarrow> string" where
  "block rules =
     START @ nl @
     ''# These rules file each alias'' @ [CHR 0x27] @ ''s mail. Change the folder instead'' @ nl @
     ''# through `hlb user alias folder`, or the next generation will overwrite it.'' @ nl @
     (if rules = [] then ''# (no alias sorted yet)'' @ nl else []) @
     concat (map rule_text rules) @
     END_MARK @ nl"

definition EXTENSIONS :: "string list" where
  "EXTENSIONS = [''fileinto'', ''mailbox'', ''envelope'']"

text \<open>\<open>split('"').skip(1).step_by(2)\<close>: what is between quotes.\<close>

fun step_by2 :: "'a list \<Rightarrow> 'a list" where
  "step_by2 [] = []"
| "step_by2 [a] = [a]"
| "step_by2 (a # b # s) = a # step_by2 s"

definition quoted :: "string \<Rightarrow> string list" where
  "quoted statement = step_by2 (tl (split_char CHR 0x22 statement))"

text \<open>The text of the line before a position, from the last line feed on.\<close>

definition line_before :: "string \<Rightarrow> string" where
  "line_before s = rev (takeWhile (\<lambda>c. c \<noteq> CHR 0x0A) (rev s))"

function required :: "string \<Rightarrow> string list" where
  "required rest =
     (case find_sub ''require'' rest of
        None \<Rightarrow> []
      | Some at \<Rightarrow>
          (let tail = drop (at + 7) rest in
           (if trim (line_before (take at rest)) \<noteq> [] then []
            else quoted (hd (split_char CHR '';'' tail))) @ required tail))"
  by pat_completeness auto
termination
proof (relation "measure length")
  fix rest tail :: string and at assume "find_sub ''require'' rest = Some at" and t: "tail = drop (at + 7) rest"
  from find_sub_Some_split [OF this(1)] have "at + 7 \<le> length rest" by simp
  then show "(tail, rest) \<in> measure length" by (simp add: t)
qed simp

declare required.simps [simp del]

definition missing_extensions :: "string \<Rightarrow> string list" where
  "missing_extensions script = filter (\<lambda>e. e \<notin> set (required script)) EXTENSIONS"

definition with_requires :: "string \<Rightarrow> string" where
  "with_requires script =
     (if missing_extensions script = [] then script
      else ''require ['' @ join_with '', '' (map (\<lambda>e. dq @ e @ dq) (missing_extensions script)) @ ''];'' @ nl @
           script)"

definition merge :: "string \<Rightarrow> sieve_rule list \<Rightarrow> string" where
  "merge existing rules =
     (let append_block =
        (let base = trim_end existing in
         if base = [] then with_requires (nl @ block rules)
         else with_requires (base @ nl @ nl @ block rules)) in
      case (find_sub START existing, find_sub END_MARK existing) of
        (Some d, Some f) \<Rightarrow>
          if d < f
          then (let after = drop (f + length END_MARK) existing;
                    rest = (case strip_prefix after nl of Some a \<Rightarrow> a | None \<Rightarrow> after) in
                with_requires (take d existing @ block rules @ rest))
          else append_block
      | _ \<Rightarrow> append_block)"


section \<open>What a person wrote stays\<close>

text \<open>The block is put in front of, between or after what was there, never over it.\<close>

lemma with_requires_suffix: "suffix script (with_requires script)"
  by (auto simp: with_requires_def suffix_def)


definition blank :: "string \<Rightarrow> bool" where
  "blank s \<longleftrightarrow> (\<exists>ws. set ws \<subseteq> set white_space \<and> s = concat ws)"

lemma blank_Nil [simp]: "blank []"
  unfolding blank_def by (intro exI [of _ "[]"]) simp

lemma blank_append: "blank s \<Longrightarrow> blank t \<Longrightarrow> blank (s @ t)"
  unfolding blank_def by (metis concat_append le_sup_iff set_append)

lemma blank_one: "w \<in> set white_space \<Longrightarrow> blank w"
  unfolding blank_def by (intro exI [of _ "[w]"]) simp

lemma trim_end_blank: "\<exists>ws. blank ws \<and> s = trim_end s @ ws"
proof (induction s rule: trim_end.induct)
  case (1 s)
  show ?case
  proof (cases "find (\<lambda>w. suffix w s) white_space")
    case None
    then have "trim_end s = s" by (subst trim_end.simps) simp
    then show ?thesis using blank_Nil by (intro exI [of _ "[]"]) simp
  next
    case (Some w)
    then have w: "w \<in> set white_space" "suffix w s" by (auto simp: find_Some_iff)
    define t where "t = take (length s - length w) s"
    from 1 [OF Some] obtain ws where ws: "blank ws" "t = trim_end t @ ws" unfolding t_def by blast
    have "trim_end s = trim_end t" using Some by (subst trim_end.simps) (simp add: t_def)
    moreover from w(2) have "s = t @ w" by (auto simp: suffix_def t_def)
    ultimately have "s = trim_end s @ (ws @ w)" using ws(2) by simp
    with blank_append [OF ws(1) blank_one [OF w(1)]] show ?thesis by blast
  qed
qed

text \<open>The only thing put in front: one \<open>require\<close> of extensions the block uses.\<close>

definition require_line :: "string \<Rightarrow> bool" where
  "require_line r \<longleftrightarrow>
     r = [] \<or> (\<exists>es. es \<noteq> [] \<and> set es \<subseteq> set EXTENSIONS \<and>
       r = ''require ['' @ join_with '', '' (map (\<lambda>e. dq @ e @ dq) es) @ ''];'' @ nl)"

lemma with_requires_split: "\<exists>r. with_requires s = r @ s \<and> require_line r"
proof (cases "missing_extensions s = []")
  case True
  then show ?thesis by (intro exI [of _ "[]"]) (simp add: with_requires_def require_line_def)
next
  case False
  let ?r = "''require ['' @ join_with '', '' (map (\<lambda>e. dq @ e @ dq) (missing_extensions s)) @ ''];'' @ nl"
  have "set (missing_extensions s) \<subseteq> set EXTENSIONS" by (auto simp: missing_extensions_def)
  with False have "require_line ?r" unfolding require_line_def by blast
  then show ?thesis using False by (intro exI [of _ ?r]) (simp add: with_requires_def)
qed

text \<open>
  The managed block of a script: it opens at the first start mark of all and closes at the first
  end mark of all, which comes after.
\<close>

definition block_at :: "string \<Rightarrow> string \<Rightarrow> string \<Rightarrow> string \<Rightarrow> bool" where
  "block_at script before inner after \<longleftrightarrow>
     script = before @ START @ inner @ END_MARK @ after \<and>
     (\<forall>u v. script = u @ START @ v \<longrightarrow> length before \<le> length u) \<and>
     (\<forall>u v. script = u @ END_MARK @ v \<longrightarrow> length (before @ START @ inner) \<le> length u)"

lemma find_sub_least:
  assumes "find_sub pat s = Some i" and "s = u @ pat @ v"
  shows "i \<le> length u"
proof (rule ccontr)
  assume "\<not> i \<le> length u"
  then have "\<not> prefix pat (drop (length u) s)" using find_sub_first [OF assms(1)] by simp
  then show False using assms(2) by simp
qed

lemma find_sub_occurs: "s = u @ pat @ v \<Longrightarrow> \<exists>i. find_sub pat s = Some i"
  using find_sub_None [of pat s] by (auto simp: sublist_def)

text \<open>The two marks cannot overlap: neither starts inside the other.\<close>

lemma marks_apart:
  assumes "0 < k" and "k < length START"
  shows "\<not> prefix END_MARK (drop k START @ r)"
proof -
  obtain j where j: "k = Suc j" using assms(1) by (cases k) auto
  have "CHR ''#'' \<notin> set (tl START)" by (simp add: START_def)
  moreover have "drop k START = drop j (tl START)" by (simp add: j drop_Suc)
  moreover obtain c cs where c: "drop k START = c # cs" using assms(2) by (metis Cons_nth_drop_Suc)
  ultimately have "c \<noteq> CHR ''#''" by (metis in_set_dropD list.set_intros(1))
  then show ?thesis by (simp add: c END_MARK_def)
qed

lemma find_sub_drop: "find_sub pat s = Some i \<Longrightarrow> drop i s = pat @ drop (i + length pat) s"
  using find_sub_Some_split [of pat s i] append_take_drop_id [of i s] by (metis same_append_eq)

lemma merge_replace:
  assumes s: "find_sub START existing = Some d" and e: "find_sub END_MARK existing = Some f" and "d < f"
  shows "\<exists>inner. block_at existing (take d existing) inner (drop (f + length END_MARK) existing)"
proof -
  obtain r where r: "drop d existing = START @ r"
    using find_sub_drop [OF s] by blast
  obtain z where z: "drop f existing = END_MARK @ z" "z = drop (f + length END_MARK) existing"
    using find_sub_drop [OF e] by blast
  have q: "drop (f - d) (START @ r) = END_MARK @ z"
    using \<open>d < f\<close> z(1) by (simp add: r [symmetric])
  then have apart: "\<not> f - d < length START"
    using marks_apart [of "f - d" r] \<open>d < f\<close> by (auto simp: prefix_def)
  define inner where "inner = take (f - d - length START) r"
  have "START @ r = START @ inner @ END_MARK @ z"
    using q apart by (simp add: inner_def) (metis append_take_drop_id)
  then have split: "existing = take d existing @ START @ inner @ END_MARK @ z"
    by (metis append_take_drop_id r)
  have "d \<le> length existing" "f \<le> length existing"
    using find_sub_Some_split [OF s] find_sub_Some_split [OF e] by simp_all
  moreover have "length r = length existing - d - length START" using r by (metis length_append length_drop add_diff_cancel_left')
  moreover have "min (length existing - (d + length START)) (f - (d + length START)) = f - (d + length START)"
    using \<open>f \<le> length existing\<close> by (intro min.absorb2 diff_le_mono)
  ultimately have len: "length (take d existing) = d" "length (take d existing @ START @ inner) = f"
    using apart \<open>d < f\<close> by (simp_all add: inner_def)
  have "block_at existing (take d existing) inner z"
    unfolding block_at_def len
    using split find_sub_least [OF s] find_sub_least [OF e] by (intro conjI allI impI)
  then show ?thesis unfolding z(2) ..
qed

lemma block_at_found:
  assumes "block_at existing before inner after"
  shows "\<exists>d f. find_sub START existing = Some d \<and> find_sub END_MARK existing = Some f \<and> d < f"
proof -
  have split: "existing = before @ START @ inner @ END_MARK @ after"
    and last: "\<And>u v. existing = u @ END_MARK @ v \<Longrightarrow> length (before @ START @ inner) \<le> length u"
    using assms by (auto simp: block_at_def)
  obtain d where d: "find_sub START existing = Some d" using find_sub_occurs [OF split] by blast
  obtain f where f: "find_sub END_MARK existing = Some f"
    using find_sub_occurs [of existing "before @ START @ inner"] split by auto
  have "d \<le> length before" using find_sub_least [OF d split] .
  moreover have "length (before @ START @ inner) \<le> f"
    using last [of "take f existing"] find_sub_Some_split [OF f] by (metis length_take min.absorb2 add_leD1)
  moreover have "0 < length START" by (simp add: START_def)
  ultimately have "d < f" by (simp del: length_0_conv length_greater_0_conv)
  then show ?thesis using d f by simp
qed

definition merge_outcome :: "string \<Rightarrow> sieve_rule list \<Rightarrow> string \<Rightarrow> bool" where
  "merge_outcome existing rules out \<longleftrightarrow>
     (\<exists>r before sep after. out = r @ before @ sep @ block rules @ after \<and> require_line r \<and>
        ((\<exists>inner lf. block_at existing before inner (lf @ after) \<and> (lf = nl \<or> lf = [] \<and> \<not> prefix nl after) \<and> sep = []) \<or>
         \<not> (\<exists>b inner a. block_at existing b inner a) \<and> (\<exists>ws. blank ws \<and> existing = before @ ws) \<and> after = [] \<and>
           sep = (if before = [] then nl else nl @ nl)))"

lemma append_outcome:
  assumes "\<And>d f. find_sub START existing = Some d \<Longrightarrow> find_sub END_MARK existing = Some f \<Longrightarrow> \<not> d < f"
  shows "merge_outcome existing rules
     (let base = trim_end existing in
      if base = [] then with_requires (nl @ block rules)
      else with_requires (base @ nl @ nl @ block rules))"
proof -
  define before where "before = trim_end existing"
  define sep where "sep = (if before = [] then nl else nl @ nl)"
  obtain r where r: "with_requires (before @ sep @ block rules) = r @ before @ sep @ block rules" "require_line r"
    using with_requires_split by blast
  have none: "\<not> (\<exists>b inner a. block_at existing b inner a)" using block_at_found assms by blast
  have ws: "\<exists>ws. blank ws \<and> existing = before @ ws" using trim_end_blank unfolding before_def by blast
  have "(let base = trim_end existing in
      if base = [] then with_requires (nl @ block rules)
      else with_requires (base @ nl @ nl @ block rules)) = r @ before @ sep @ block rules @ []"
    using r(1) by (auto simp: before_def sep_def Let_def)
  then show ?thesis using r(2) none ws sep_def unfolding merge_outcome_def by blast
qed

lemma replace_outcome:
  assumes "find_sub START existing = Some d" and "find_sub END_MARK existing = Some f" and "d < f"
  shows "merge_outcome existing rules
    (with_requires (take d existing @ block rules @
      (case strip_prefix (drop (f + length END_MARK) existing) nl of
         Some a \<Rightarrow> a | None \<Rightarrow> drop (f + length END_MARK) existing)))"
proof -
  define after where "after = drop (f + length END_MARK) existing"
  define rest where "rest = (case strip_prefix after nl of Some a \<Rightarrow> a | None \<Rightarrow> after)"
  obtain inner where blk: "block_at existing (take d existing) inner after"
    using merge_replace [OF assms] unfolding after_def by blast
  obtain lf where lf: "after = lf @ rest" "lf = nl \<or> lf = [] \<and> \<not> prefix nl rest"
  proof (cases "strip_prefix after nl")
    case None
    then have "\<not> prefix nl after" by (simp add: strip_prefix_def split: if_splits)
    then show ?thesis using None by (intro that [of "[]"]) (simp_all add: rest_def)
  next
    case (Some a)
    then have "rest = a" "after = nl @ a" using strip_prefix_Some [of after nl a] by (simp_all add: rest_def)
    then show ?thesis by (intro that [of nl]) simp_all
  qed
  obtain r where "with_requires (take d existing @ block rules @ rest) = r @ take d existing @ [] @ block rules @ rest"
    "require_line r"
    using with_requires_split by fastforce
  then show ?thesis
    using blk lf unfolding merge_outcome_def after_def [symmetric] rest_def [symmetric] by blast
qed

text \<open>
  C14: Putting the managed block back touches nothing outside it. When the script holds a block,
  from its first start mark to its first end mark, which comes after, the text before and the text
  after are kept as they are around the new block, less one line feed after the end mark; in any
  other case the whole script is kept, less the blank space at its end, and the block is put after
  it with an empty line in between. Nothing else is added but one \<open>require\<close> line in front.
\<close>

theorem merge_keeps_script:
  "\<exists>r before sep after. merge existing rules = r @ before @ sep @ block rules @ after \<and> require_line r \<and>
     ((\<exists>inner lf. block_at existing before inner (lf @ after) \<and> (lf = nl \<or> lf = [] \<and> \<not> prefix nl after) \<and> sep = []) \<or>
      \<not> (\<exists>b inner a. block_at existing b inner a) \<and> (\<exists>ws. blank ws \<and> existing = before @ ws) \<and> after = [] \<and>
        sep = (if before = [] then nl else nl @ nl))"
proof -
  have "merge_outcome existing rules (merge existing rules)"
  proof (cases "\<exists>d f. find_sub START existing = Some d \<and> find_sub END_MARK existing = Some f \<and> d < f")
    case True
    then obtain d f where df: "find_sub START existing = Some d" "find_sub END_MARK existing = Some f" "d < f" by blast
    from replace_outcome [OF df] df show ?thesis by (simp add: merge_def Let_def)
  next
    case False
    then have "merge existing rules = (let base = trim_end existing in
      if base = [] then with_requires (nl @ block rules) else with_requires (base @ nl @ nl @ block rules))"
      by (auto simp: merge_def Let_def split: option.split)
    with append_outcome [of existing rules] False show ?thesis by simp
  qed
  then show ?thesis by (simp only: merge_outcome_def)
qed

text \<open>
  A block whose end mark a person deleted: the next generation keeps the text after it and adds a
  second block, whose end mark then closes the first one, so the generation after that replaces the
  person's text with the block.
\<close>

definition open_block :: string where
  "open_block = START @ nl @ ''keep;''"

definition open_then_closed :: string where
  "open_then_closed = open_block @ nl @ nl @ block []"

lemma open_marks:
  "find_sub END_MARK open_block = None" "trim_end open_block = open_block" "open_block \<noteq> []"
  "find_sub START open_then_closed = Some 0"
  by code_simp+

lemma open_closed_at:
  "find_sub END_MARK open_then_closed = Some (length open_then_closed - length (END_MARK @ nl))"
  by code_simp

lemma open_block_swallows_rules:
  "(\<exists>r. require_line r \<and> merge open_block [] = r @ open_then_closed) \<and>
   (\<exists>r. require_line r \<and> merge open_then_closed [] = r @ block [])"
proof (intro conjI)
  obtain r where "with_requires open_then_closed = r @ open_then_closed" "require_line r"
    using with_requires_split by blast
  then show "\<exists>r. require_line r \<and> merge open_block [] = r @ open_then_closed"
    by (auto simp: merge_def open_marks Let_def open_then_closed_def split: option.split)
next
  let ?f = "length open_then_closed - length (END_MARK @ nl)"
  have "suffix (END_MARK @ nl) open_then_closed" by (simp add: open_then_closed_def block_def suffix_def)
  then obtain zs where zs: "open_then_closed = zs @ END_MARK @ nl" unfolding suffix_def by blast
  have "drop (?f + length END_MARK) open_then_closed = nl" unfolding zs by simp
  moreover have "0 < ?f" by (simp add: open_then_closed_def open_block_def START_def block_def)
  moreover obtain r where "with_requires (block []) = r @ block []" "require_line r"
    using with_requires_split by blast
  ultimately show "\<exists>r. require_line r \<and> merge open_then_closed [] = r @ block []"
    by (auto simp: merge_def open_marks open_closed_at strip_prefix_def nl_def)
qed


section \<open>What the block needs is required\<close>

lemma find_sub_skip: "c \<notin> set pre \<Longrightarrow> find_sub (c # pat) (pre @ s) = map_option ((+) (length pre)) (find_sub (c # pat) s)"
  by (induction pre; cases "find_sub (c # pat) s") auto

lemma line_before_nl: "line_before (pre @ nl @ s) = line_before s"
proof -
  have "takeWhile (\<lambda>c. c \<noteq> x) (as @ x # bs) = takeWhile (\<lambda>c. c \<noteq> x) as" for x :: char and as bs
    by (induction as) auto
  then show ?thesis by (simp add: line_before_def nl_def)
qed

lemma required_skip:
  assumes "CHR ''r'' \<notin> set pre"
  shows "required (pre @ nl @ s) = required s"
proof (cases "find_sub ''require'' s")
  case None
  moreover have "find_sub ''require'' (pre @ nl @ s) = None"
    using find_sub_skip [of "CHR ''r''" "pre @ nl" "''equire''" s] assms None by (simp add: nl_def)
  ultimately show ?thesis by (simp add: required.simps)
next
  case (Some i)
  have "find_sub ''require'' (pre @ nl @ s) = Some (length (pre @ nl) + i)"
    using find_sub_skip [of "CHR ''r''" "pre @ nl" "''equire''" s] assms Some by (simp add: nl_def)
  then show ?thesis
    using Some by (subst (1 2) required.simps) (simp add: line_before_nl Let_def)
qed

lemma missing_cases:
  "filter P EXTENSIONS \<in> set (subseqs EXTENSIONS)"
  by (simp add: EXTENSIONS_def subseqs_powset)

lemma quoted_list:
  assumes "ms \<in> set (subseqs EXTENSIONS)" and "ms \<noteq> []"
  shows "quoted ('' ['' @ join_with '', '' (map (\<lambda>e. dq @ e @ dq) ms) @ '']'') = ms \<and>
    CHR '';'' \<notin> set ('' ['' @ join_with '', '' (map (\<lambda>e. dq @ e @ dq) ms) @ '']'') \<and>
    CHR ''r'' \<notin> set ('' ['' @ join_with '', '' (map (\<lambda>e. dq @ e @ dq) ms) @ '']'')"
proof -
  have "list_all (\<lambda>ms. ms = [] \<or> quoted ('' ['' @ join_with '', '' (map (\<lambda>e. dq @ e @ dq) ms) @ '']'') = ms \<and>
    CHR '';'' \<notin> set ('' ['' @ join_with '', '' (map (\<lambda>e. dq @ e @ dq) ms) @ '']'') \<and>
    CHR ''r'' \<notin> set ('' ['' @ join_with '', '' (map (\<lambda>e. dq @ e @ dq) ms) @ '']'')) (subseqs EXTENSIONS)"
    by code_simp
  then show ?thesis using assms by (auto simp: list_all_iff)
qed

lemma trim_Nil [simp]: "trim [] = []"
  by code_simp

lemma hd_split_char: "d \<notin> set a \<Longrightarrow> hd (split_char d (a @ d # b)) = a"
  by (induction a) (auto split: list.splits)

lemma with_requires_required: "set EXTENSIONS \<subseteq> set (required (with_requires script))"
proof (cases "missing_extensions script = []")
  case True
  then show ?thesis by (auto simp: with_requires_def missing_extensions_def filter_empty_conv)
next
  case False
  define ms where "ms = missing_extensions script"
  define l where "l = '' ['' @ join_with '', '' (map (\<lambda>e. dq @ e @ dq) ms) @ '']''"
  have ms: "ms \<in> set (subseqs EXTENSIONS)" unfolding ms_def missing_extensions_def by (rule missing_cases)
  note q = quoted_list [OF ms False [folded ms_def]]
  have w: "with_requires script = ''require'' @ l @ '';'' @ nl @ script"
    using False by (simp add: with_requires_def ms_def l_def)
  have "required (with_requires script) =
      quoted (hd (split_char CHR '';'' (l @ '';'' @ nl @ script))) @ required (l @ '';'' @ nl @ script)"
    unfolding w by (subst required.simps) (simp add: line_before_def Let_def)
  also have "\<dots> = ms @ required script"
    using q hd_split_char [of "CHR '';''" l "nl @ script"] required_skip [of "l @ '';''" script]
    unfolding l_def [symmetric] by simp
  finally have "set (required (with_requires script)) = set ms \<union> set (required script)" by simp
  then show ?thesis by (auto simp: ms_def missing_extensions_def)
qed

text \<open>The script returned always has a \<open>require\<close> for each extension the managed block uses,
  whatever the person's own script required: the mail server would refuse it otherwise.
\<close>

theorem merge_requires_extensions:
  "set EXTENSIONS \<subseteq> set (required (merge existing rules))"
proof -
  have "\<exists>s. merge existing rules = with_requires s"
    unfolding merge_def Let_def by (simp split: option.split) blast
  then show ?thesis using with_requires_required by metis
qed

end
