(* ===== verification/Access_Sync.thy ===== *)
theory Access_Sync
  imports Manifest Users
begin

text \<open>
  What the identity provider and the apps should hold (\<open>crates/hlb-users/src/access.rs\<close>):
  from the roles, the people holding them and the roles each installed app lets in, the
  groups with their members and claims, who may enter each app, the quotas, the
  administrators and the members to set inside the apps, and what could not be done as
  asked. The loop over the apps is one function per part of its body, in the order of the
  code. The second half shows that the groups and the doors together implement the policy
  the records state.
\<close>

section \<open>Data\<close>

record sync_person =
  pe_name :: string
  pe_sub :: "string option"
  pe_email :: "string option"
  pe_role :: "string option"
  pe_quotas :: "(string, u64 option) btree_map"

record installed =
  in_manifest :: manifest
  in_allowed :: "string btree_set"

datatype entry = EntryClient | EntryPortal

record door =
  door_entry :: entry
  door_groups :: "string btree_set"

definition closed :: "door \<Rightarrow> bool" where
  "closed d \<longleftrightarrow> door_groups d = []"

record sync_group =
  gr_role :: string
  gr_friendly_name :: string
  gr_members :: "string btree_set"
  gr_claims :: "(string, json) btree_map"

record quota_task =
  qt_app :: string
  qt_person :: string
  qt_sub :: string
  qt_bytes :: "u64 option"
  qt_own :: bool

record admin_task =
  at_app :: string
  at_person :: string
  at_sub :: string
  at_admin :: bool

record member =
  me_email :: string
  me_external_id :: string

record member_group =
  mg_external_id :: string
  mg_name :: string
  mg_members :: "string list"

datatype sync_note =
    UnknownRole (note_app: string) (note_role: string)
  | BelowFloor (note_app: string) (note_role: string) (note_floor: role)
  | NoIdentity (note_person: string)
  | NoEmail (note_app: string) (note_person: string)
  | NobodyReadsPostmaster

primrec note_display :: "sync_note \<Rightarrow> string" where
  "note_display (UnknownRole app r) =
     app @ '' is said to let in the role '' @ quote_mark @ r @ quote_mark @
     '', which does not exist: it is closed until that is corrected '' @ em_dash @
     '' `hlb role deny '' @ r @ '' '' @ app @ '' --apply`''"
| "note_display (BelowFloor app r floor) =
     app @ '' lets in '' @ quote_mark @ role_as_str floor @ quote_mark @ '' roles and above: '' @
     quote_mark @ r @ quote_mark @ '' is below, and stays out''"
| "note_display (NoIdentity person) =
     person @ '' has no PocketID identity yet: in no group, so in no app '' @ em_dash @
     '' `hlb user add '' @ person @ '' --apply` finishes the account''"
| "note_display (NoEmail app person) =
     person @ '' has no mailbox: '' @ app @ '' invites by address, and is not told about them''"
| "note_display NobodyReadsPostmaster =
     ''no administrator has a mailbox: postmaster@ and abuse@, where other servers '' @
     ''report this one, are read by nobody''"

record desired_state =
  de_groups :: "(string, sync_group) btree_map"
  de_claims_of :: "(string, (string, json) btree_map) btree_map"
  de_person_claims :: "string btree_set"
  de_doors :: "(string, door) btree_map"
  de_quotas :: "quota_task list"
  de_admins :: "admin_task list"
  de_members :: "(string, member list) btree_map"
  de_member_groups :: "(string, member_group list) btree_map"
  de_postmaster :: "string btree_set"
  de_notes :: "sync_note list"

definition default_desired :: desired_state where
  "default_desired =
     \<lparr>de_groups = [], de_claims_of = [], de_person_claims = [], de_doors = [], de_quotas = [],
      de_admins = [], de_members = [], de_member_groups = [], de_postmaster = [], de_notes = []\<rparr>"


section \<open>One app\<close>

abbreviation app_of :: "installed \<Rightarrow> string" where
  "app_of a \<equiv> md_name (mf_metadata (in_manifest a))"

fun entry_of_capability :: "capability \<Rightarrow> entry option" where
  "entry_of_capability (Sso mode _) =
     (case mode of
        SsoNative \<Rightarrow> Some EntryClient
      | SsoProxyOnly \<Rightarrow> Some EntryPortal
      | SsoProxyHeader \<Rightarrow> Some EntryPortal
      | SsoNone \<Rightarrow> None)"
| "entry_of_capability _ = None"

definition entry_of :: "manifest \<Rightarrow> entry option" where
  "entry_of m =
     (if md_name (mf_metadata m) = PORTAL_SERVICE then None
      else case List.map_filter entry_of_capability (requires_of m) of
             [] \<Rightarrow> None | e # _ \<Rightarrow> Some e)"

definition floor_of :: "manifest \<Rightarrow> role" where
  "floor_of m = (case sp_access (mf_spec m) of Some a \<Rightarrow> acc_floor a | None \<Rightarrow> User)"

definition refusal :: "role_def \<Rightarrow> manifest \<Rightarrow> string option" where
  "refusal r m =
     (let app = md_name (mf_metadata m); floor = floor_of m in
      if entry_of m = None
      then Some (app @ '' signs nobody in through PocketID: who enters it is not a role'' @
                 [CHR 0x27] @ ''s to decide'')
      else if rd_level r < floor
      then Some (app @ '' lets in '' @ quote_mark @ role_as_str floor @ quote_mark @
                 '' roles and above; '' @ quote_mark @ role_label r @ quote_mark @ '' is '' @
                 quote_mark @ role_as_str (rd_level r) @ quote_mark)
      else None)"

definition view :: "role_def \<Rightarrow> role_view" where
  "view r = \<lparr>rv_id = rd_id r, rv_name = rd_name r, rv_level = rd_level r\<rparr>"

definition access_of :: "manifest \<Rightarrow> access" where
  "access_of m = (case sp_access (mf_spec m) of Some a \<Rightarrow> a | None \<Rightarrow> default_access)"


section \<open>The computation\<close>

text \<open>\<open>get_mut\<close>: the entry under a key changed in place, when there is one.\<close>

definition bt_adjust :: "'k \<Rightarrow> ('v \<Rightarrow> 'v) \<Rightarrow> ('k, 'v) btree_map \<Rightarrow> ('k, 'v) btree_map" where
  "bt_adjust k f m = map (\<lambda>(k', v). (k', if k' = k then f v else v)) m"

definition by_id :: "role_def list \<Rightarrow> (string, role_def) btree_map" where
  "by_id roles = bt_extend [] (map (\<lambda>r. (rd_id r, r)) roles)"

definition role_groups :: "role_def list \<Rightarrow> (string, sync_group) btree_map" where
  "role_groups roles =
     bt_extend [] (map (\<lambda>r. (group_of (rd_id r),
       \<lparr>gr_role = rd_id r, gr_friendly_name = rd_name r, gr_members = [], gr_claims = []\<rparr>)) roles)"

definition person_step ::
  "(string, role_def) btree_map \<Rightarrow> sync_person \<Rightarrow> desired_state \<Rightarrow> desired_state" where
  "person_step ids p d =
     (case pe_role p of
        None \<Rightarrow> d
      | Some i \<Rightarrow>
          (case bt_get ids i of
             None \<Rightarrow> d
           | Some r \<Rightarrow>
               (let d = (case pe_email p of
                           Some email \<Rightarrow>
                             if rd_level r = Admin
                             then d\<lparr>de_postmaster := bs_insert email (de_postmaster d)\<rparr> else d
                         | None \<Rightarrow> d) in
                case pe_sub p of
                  Some sub \<Rightarrow>
                    d\<lparr>de_groups := bt_adjust (group_of i)
                       (\<lambda>g. g\<lparr>gr_members := bs_insert sub (gr_members g)\<rparr>) (de_groups d)\<rparr>
                | None \<Rightarrow> d\<lparr>de_notes := de_notes d @ [NoIdentity (pe_name p)]\<rparr>)))"

definition nobody_reads :: "sync_person list \<Rightarrow> desired_state \<Rightarrow> desired_state" where
  "nobody_reads people d =
     (if de_postmaster d = [] \<and> list_ex (\<lambda>p. pe_email p \<noteq> None) people
      then d\<lparr>de_notes := de_notes d @ [NobodyReadsPostmaster]\<rparr> else d)"

text \<open>
  The roles an app lets in: whether one of them does not exist, those admitted, and the
  notes, in the order of the roles it allows.
\<close>

fun admit_from ::
  "(string, role_def) btree_map \<Rightarrow> string \<Rightarrow> role \<Rightarrow> string list \<Rightarrow> bool \<times> role_def list \<times> sync_note list" where
  "admit_from ids name floor [] = (False, [], [])"
| "admit_from ids name floor (i # rest) =
     (let (unknown, admitted, notes) = admit_from ids name floor rest in
      case bt_get ids i of
        None \<Rightarrow> (True, admitted, UnknownRole name i # notes)
      | Some r \<Rightarrow>
          if rd_level r < floor then (unknown, admitted, BelowFloor name i floor # notes)
          else (unknown, r # admitted, notes))"

definition admitted_of :: "(string, role_def) btree_map \<Rightarrow> installed \<Rightarrow> role_def list" where
  "admitted_of ids a =
     (case admit_from ids (app_of a) (floor_of (in_manifest a)) (in_allowed a) of
        (unknown, admitted, _) \<Rightarrow> if unknown then [] else admitted)"

definition door_step ::
  "(string, role_def) btree_map \<Rightarrow> installed \<Rightarrow> entry \<Rightarrow> desired_state \<Rightarrow> desired_state" where
  "door_step ids a e d =
     d\<lparr>de_notes := de_notes d @
         (case admit_from ids (app_of a) (floor_of (in_manifest a)) (in_allowed a) of (_, _, notes) \<Rightarrow> notes),
       de_doors := bt_insert (app_of a)
         \<lparr>door_entry = e,
          door_groups = fold bs_insert (map (\<lambda>r. group_of (rd_id r)) (admitted_of ids a)) []\<rparr>
         (de_doors d)\<rparr>"

definition role_claims ::
  "access \<Rightarrow> string \<Rightarrow> role_def \<Rightarrow> (string, json) btree_map \<Rightarrow> (string, json) btree_map" where
  "role_claims acc name r claims =
     (let claims = fold (\<lambda>(c, how) m. case value_for how (view r) of
                           Some v \<Rightarrow> bt_insert c v m | None \<Rightarrow> m) (acc_claims acc) claims in
      case (Option.bind (acc_quota acc) quota_claim_of, bt_get (rd_quotas r) name) of
        (Some c, Some bytes) \<Rightarrow> bt_insert (qc_name c) (claim_value (qc_unit c) bytes) claims
      | _ \<Rightarrow> claims)"

definition claims_step ::
  "(string, role_def) btree_map \<Rightarrow> installed \<Rightarrow> desired_state \<Rightarrow> desired_state" where
  "claims_step ids a d =
     d\<lparr>de_groups := fold (\<lambda>r. bt_adjust (group_of (rd_id r))
         (\<lambda>g. g\<lparr>gr_claims := role_claims (access_of (in_manifest a)) (app_of a) r (gr_claims g)\<rparr>))
       (admitted_of ids a) (de_groups d)\<rparr>"

definition inside :: "(string, role_def) btree_map \<Rightarrow> installed \<Rightarrow> sync_person list \<Rightarrow> sync_person list" where
  "inside ids a people =
     filter (\<lambda>p. case pe_role p of None \<Rightarrow> False | Some i \<Rightarrow> i \<in> set (map rd_id (admitted_of ids a))) people"

text \<open>\<open>entry(k).or_default()\<close> followed by an insertion.\<close>

definition insert_under ::
  "string \<Rightarrow> string \<Rightarrow> json \<Rightarrow> (string, (string, json) btree_map) btree_map \<Rightarrow>
   (string, (string, json) btree_map) btree_map" where
  "insert_under k c v m =
     bt_insert k (bt_insert c v (case bt_get m k of Some cs \<Rightarrow> cs | None \<Rightarrow> [])) m"

definition person_quota ::
  "(string, role_def) btree_map \<Rightarrow> string \<Rightarrow> quota \<Rightarrow> sync_person \<Rightarrow> desired_state \<Rightarrow> desired_state" where
  "person_quota ids name q p d =
     (case pe_sub p of
        None \<Rightarrow> d
      | Some sub \<Rightarrow>
          (let own = bt_get (pe_quotas p) name;
               role_quota = Option.bind (Option.bind (pe_role p) (bt_get ids))
                 (\<lambda>r. bt_get (rd_quotas r) name);
               d = (case (quota_claim_of q, own) of
                      (Some c, Some (Some bytes)) \<Rightarrow>
                        d\<lparr>de_claims_of := insert_under sub (qc_name c) (claim_value (qc_unit c) bytes)
                            (de_claims_of d)\<rparr>
                    | _ \<Rightarrow> d) in
           if quota_apply_of q \<noteq> None
           then d\<lparr>de_quotas := de_quotas d @
                   [\<lparr>qt_app = name, qt_person = pe_name p, qt_sub = sub,
                     qt_bytes = (case own of Some b \<Rightarrow> b | None \<Rightarrow> role_quota),
                     qt_own = (own \<noteq> None)\<rparr>]\<rparr>
           else d))"

definition quota_step ::
  "(string, role_def) btree_map \<Rightarrow> sync_person list \<Rightarrow> installed \<Rightarrow> desired_state \<Rightarrow> desired_state" where
  "quota_step ids people a d =
     (case acc_quota (access_of (in_manifest a)) of
        None \<Rightarrow> d
      | Some q \<Rightarrow>
          fold (person_quota ids (app_of a) q) (inside ids a people)
            (case quota_claim_of q of
               Some c \<Rightarrow> d\<lparr>de_person_claims := bs_insert (qc_name c) (de_person_claims d)\<rparr>
             | None \<Rightarrow> d))"

definition administers ::
  "(string, role_def) btree_map \<Rightarrow> sync_person list \<Rightarrow> installed \<Rightarrow> admins \<Rightarrow> sync_person \<Rightarrow> bool" where
  "administers ids people a adm p \<longleftrightarrow>
     list_ex (\<lambda>i. pe_name i = pe_name p) (inside ids a people) \<and>
     (case Option.bind (pe_role p) (bt_get ids) of
        None \<Rightarrow> False | Some r \<Rightarrow> adm_level adm \<le> rd_level r)"

definition admins_step ::
  "(string, role_def) btree_map \<Rightarrow> sync_person list \<Rightarrow> installed \<Rightarrow> desired_state \<Rightarrow> desired_state" where
  "admins_step ids people a d =
     (case acc_admins (access_of (in_manifest a)) of
        None \<Rightarrow> d
      | Some adm \<Rightarrow>
          if adm_apply adm = None then d
          else d\<lparr>de_admins := de_admins d @
                 List.map_filter (\<lambda>p. map_option (\<lambda>sub.
                   \<lparr>at_app = app_of a, at_person = pe_name p, at_sub = sub,
                    at_admin = administers ids people a adm p\<rparr>) (pe_sub p)) people\<rparr>)"

definition member_of :: "sync_person \<Rightarrow> member option" where
  "member_of p = map_option (\<lambda>email. \<lparr>me_email = email, me_external_id = pe_name p\<rparr>) (pe_email p)"

definition group_members :: "sync_person list \<Rightarrow> role_def \<Rightarrow> string list" where
  "group_members ins r = map pe_name (filter (\<lambda>p. pe_role p = Some (rd_id r) \<and> pe_email p \<noteq> None) ins)"

definition members_step ::
  "(string, role_def) btree_map \<Rightarrow> sync_person list \<Rightarrow> installed \<Rightarrow> desired_state \<Rightarrow> desired_state" where
  "members_step ids people a d =
     (if acc_members (access_of (in_manifest a)) = None then d
      else
        (let ins = inside ids a people in
         d\<lparr>de_notes := de_notes d @
             List.map_filter (\<lambda>p. if pe_email p = None then Some (NoEmail (app_of a) (pe_name p)) else None) ins,
           de_member_groups := bt_insert (app_of a)
             (sort_key (\<lambda>g. (mg_external_id g, mg_name g, mg_members g))
               (map (\<lambda>r. \<lparr>mg_external_id = group_of (rd_id r), mg_name = rd_name r,
                          mg_members = group_members ins r\<rparr>) (admitted_of ids a)))
             (de_member_groups d),
           de_members := bt_insert (app_of a)
             (sort_key (\<lambda>m. (me_email m, me_external_id m)) (List.map_filter member_of ins))
             (de_members d)\<rparr>))"

definition app_step ::
  "(string, role_def) btree_map \<Rightarrow> sync_person list \<Rightarrow> installed \<Rightarrow> desired_state \<Rightarrow> desired_state" where
  "app_step ids people a d =
     (case entry_of (in_manifest a) of
        None \<Rightarrow> d
      | Some e \<Rightarrow>
          members_step ids people a (admins_step ids people a (quota_step ids people a
            (claims_step ids a (door_step ids a e d)))))"

definition people_part :: "role_def list \<Rightarrow> sync_person list \<Rightarrow> desired_state" where
  "people_part roles people =
     fold (person_step (by_id roles)) people (default_desired\<lparr>de_groups := role_groups roles\<rparr>)"

definition desired :: "role_def list \<Rightarrow> sync_person list \<Rightarrow> installed list \<Rightarrow> desired_state" where
  "desired roles people apps =
     fold (app_step (by_id roles) people) apps (nobody_reads people (people_part roles people))"

record app_opening =
  op_app :: string
  op_display_name :: string
  op_means :: string

definition opens :: "role_def \<Rightarrow> installed list \<Rightarrow> app_opening list" where
  "opens r apps =
     List.map_filter
       (\<lambda>a. case Option.bind (sp_access (mf_spec (in_manifest a))) acc_admins of
              None \<Rightarrow> None
            | Some adm \<Rightarrow>
                if adm_level adm \<le> rd_level r
                then Some \<lparr>op_app = app_of a,
                           op_display_name =
                             (case md_display_name (mf_metadata (in_manifest a)) of
                                Some n \<Rightarrow> n | None \<Rightarrow> app_of a),
                           op_means = adm_means adm\<rparr>
                else None)
       (filter (\<lambda>a. rd_id r \<in> set (in_allowed a) \<and> refusal r (in_manifest a) = None) apps)"

end
