(* ===== verification/Access_Sync_Props.thy ===== *)
theory Access_Sync_Props
  imports Access_Sync
begin

text \<open>
  What the computation of \<open>Access_Sync\<close> guarantees: the groups and the doors together let
  in exactly whom the records say, an app's claims go to no role it does not let in, and
  what is set for one person never shuts them out elsewhere.
\<close>

section \<open>Maps\<close>

lemma bt_get_adjust:
  "bt_get (bt_adjust k f m) k' = (if k' = k then map_option f (bt_get m k) else bt_get m k')"
  by (induction m) (auto simp: bt_get_def bt_adjust_def)

lemma bt_get_extend_Nil: "bt_get (bt_extend [] es) k = map_of (rev es) k"
  by (simp add: bt_get_extend) (simp add: bt_get_def map_add_def split: option.split)

lemma by_id_get: "bt_get (by_id roles) i = map_of (rev (map (\<lambda>r. (rd_id r, r)) roles)) i"
  by (simp add: by_id_def bt_get_extend_Nil)

lemma by_id_Some: "bt_get (by_id roles) i = Some r \<Longrightarrow> r \<in> set roles \<and> rd_id r = i"
  by (auto simp: by_id_get dest!: map_of_SomeD)

lemma by_id_None: "bt_get (by_id roles) i = None \<longleftrightarrow> i \<notin> rd_id ` set roles"
  by (force simp: by_id_get map_of_eq_None_iff)

lemma by_id_distinct:
  "distinct (map rd_id roles) \<Longrightarrow> bt_get (by_id roles) i = Some r \<longleftrightarrow> r \<in> set roles \<and> rd_id r = i"
  unfolding by_id_get
  by (subst map_of_eq_Some_iff) (auto simp: rev_map [symmetric] comp_def)


section \<open>Who is admitted\<close>

lemma admit_from_spec:
  "admit_from ids n fl al = (u, ad, ns) \<Longrightarrow>
   (u \<longleftrightarrow> (\<exists>i \<in> set al. bt_get ids i = None)) \<and>
   set ad = {r. \<exists>i \<in> set al. bt_get ids i = Some r \<and> fl \<le> rd_level r}"
proof (induction al arbitrary: u ad ns)
  case (Cons i al)
  obtain u' ad' ns' where r: "admit_from ids n fl al = (u', ad', ns')" by (cases "admit_from ids n fl al")
  show ?case
    using Cons.prems Cons.IH [OF r] by (auto simp: r not_less split: option.splits if_splits)
qed auto

text \<open>The role is let into the app, as the records say it.\<close>

definition admits :: "role_def list \<Rightarrow> installed \<Rightarrow> role_def \<Rightarrow> bool" where
  "admits roles a r \<longleftrightarrow>
     r \<in> set roles \<and> rd_id r \<in> set (in_allowed a) \<and> floor_of (in_manifest a) \<le> rd_level r \<and>
     set (in_allowed a) \<subseteq> rd_id ` set roles"

definition may_enter :: "role_def list \<Rightarrow> installed \<Rightarrow> sync_person \<Rightarrow> bool" where
  "may_enter roles a p \<longleftrightarrow> (\<exists>r. admits roles a r \<and> pe_role p = Some (rd_id r))"

lemma admitted_sound: "r \<in> set (admitted_of (by_id roles) a) \<Longrightarrow> admits roles a r"
proof -
  assume r: "r \<in> set (admitted_of (by_id roles) a)"
  obtain u ad ns where p: "admit_from (by_id roles) (app_of a) (floor_of (in_manifest a)) (in_allowed a) = (u, ad, ns)"
    by (metis prod_cases3)
  note spec = admit_from_spec [OF p]
  have "\<not> u" "r \<in> set ad" using r by (auto simp: admitted_of_def p split: if_splits)
  with spec show ?thesis by (auto simp: admits_def by_id_None dest: by_id_Some)
qed

lemma admitted_iff:
  assumes "distinct (map rd_id roles)"
  shows "r \<in> set (admitted_of (by_id roles) a) \<longleftrightarrow> admits roles a r"
proof
  assume r: "admits roles a r"
  obtain u ad ns where p: "admit_from (by_id roles) (app_of a) (floor_of (in_manifest a)) (in_allowed a) = (u, ad, ns)"
    by (metis prod_cases3)
  show "r \<in> set (admitted_of (by_id roles) a)"
    using admit_from_spec [OF p] r assms
    by (auto simp: admitted_of_def p admits_def by_id_None by_id_distinct)
qed (rule admitted_sound)

lemma inside_iff:
  assumes "distinct (map rd_id roles)"
  shows "p \<in> set (inside (by_id roles) a people) \<longleftrightarrow> p \<in> set people \<and> may_enter roles a p"
  using admitted_iff [OF assms, of _ a] by (auto simp: inside_def may_enter_def split: option.splits)


section \<open>What each step leaves alone\<close>

lemma fold_person_quota_frame:
  "de_groups (fold (person_quota ids n q) ps d) = de_groups d"
  "de_doors (fold (person_quota ids n q) ps d) = de_doors d"
  "de_admins (fold (person_quota ids n q) ps d) = de_admins d"
  "de_postmaster (fold (person_quota ids n q) ps d) = de_postmaster d"
  "de_person_claims (fold (person_quota ids n q) ps d) = de_person_claims d"
  by (induction ps arbitrary: d)
    (simp_all add: person_quota_def Let_def split: option.split)

lemma step_frames [simp]:
  "de_groups (door_step ids a e d) = de_groups d"
  "de_groups (quota_step ids people a d) = de_groups d"
  "de_groups (admins_step ids people a d) = de_groups d"
  "de_groups (members_step ids people a d) = de_groups d"
  "de_doors (claims_step ids a d) = de_doors d"
  "de_doors (quota_step ids people a d) = de_doors d"
  "de_doors (admins_step ids people a d) = de_doors d"
  "de_doors (members_step ids people a d) = de_doors d"
  "de_admins (door_step ids a e d) = de_admins d"
  "de_admins (claims_step ids a d) = de_admins d"
  "de_admins (quota_step ids people a d) = de_admins d"
  "de_admins (members_step ids people a d) = de_admins d"
  "de_claims_of (door_step ids a e d) = de_claims_of d"
  "de_claims_of (claims_step ids a d) = de_claims_of d"
  "de_claims_of (admins_step ids people a d) = de_claims_of d"
  "de_claims_of (members_step ids people a d) = de_claims_of d"
  "de_person_claims (door_step ids a e d) = de_person_claims d"
  "de_person_claims (claims_step ids a d) = de_person_claims d"
  "de_person_claims (admins_step ids people a d) = de_person_claims d"
  "de_person_claims (members_step ids people a d) = de_person_claims d"
  by (simp_all add: door_step_def claims_step_def quota_step_def admins_step_def members_step_def Let_def
      fold_person_quota_frame split: option.split)


section \<open>Doors\<close>

definition door_of :: "(string, role_def) btree_map \<Rightarrow> installed \<Rightarrow> entry \<Rightarrow> door" where
  "door_of ids a e =
     \<lparr>door_entry = e,
      door_groups = fold bs_insert (map (\<lambda>r. group_of (rd_id r)) (admitted_of ids a)) []\<rparr>"

lemma app_step_doors:
  "de_doors (app_step ids people a d) =
     (case entry_of (in_manifest a) of
        None \<Rightarrow> de_doors d | Some e \<Rightarrow> bt_insert (app_of a) (door_of ids a e) (de_doors d))"
  by (auto simp: app_step_def door_of_def door_step_def split: option.split)

lemma other_doors:
  "n \<notin> app_of ` set apps \<Longrightarrow>
   bt_get (de_doors (fold (app_step ids people) apps d)) n = bt_get (de_doors d) n"
  by (induction apps arbitrary: d) (auto simp: app_step_doors btree_simps split: option.split)

lemma doors_of_apps:
  "distinct (map app_of apps) \<Longrightarrow> a \<in> set apps \<Longrightarrow> entry_of (in_manifest a) = Some e \<Longrightarrow>
   bt_get (de_doors (fold (app_step ids people) apps d)) (app_of a) = Some (door_of ids a e)"
proof (induction apps arbitrary: d)
  case (Cons b apps)
  show ?case
  proof (cases "a = b")
    case True
    then show ?thesis
      using Cons.prems by (auto simp: app_step_doors other_doors btree_simps)
  next
    case False
    then show ?thesis using Cons by auto
  qed
qed simp


section \<open>Groups\<close>

text \<open>The apps change the claims of a group and nothing else of it.\<close>

lemma claims_step_members:
  "map_option gr_members (bt_get (de_groups (claims_step ids a d)) g) = map_option gr_members (bt_get (de_groups d) g)"
proof -
  have "map_option gr_members (bt_get (fold (\<lambda>r. bt_adjust (group_of (rd_id r))
      (\<lambda>g. g\<lparr>gr_claims := f r (gr_claims g)\<rparr>)) rs gs) g) = map_option gr_members (bt_get gs g)" for f rs gs
    by (induction rs arbitrary: gs) (auto simp: bt_get_adjust option.map_comp comp_def)
  then show ?thesis by (simp add: claims_step_def)
qed

lemma app_step_members:
  "map_option gr_members (bt_get (de_groups (fold (app_step ids people) apps d)) g) =
   map_option gr_members (bt_get (de_groups d) g)"
  by (induction apps arbitrary: d) (auto simp: app_step_def claims_step_members split: option.split)

lemma role_groups_get:
  "map_option gr_members (bt_get (role_groups roles) (group_of i)) =
   (if i \<in> rd_id ` set roles then Some [] else None)"
proof -
  let ?es = "map (\<lambda>r. (group_of (rd_id r),
       \<lparr>gr_role = rd_id r, gr_friendly_name = rd_name r, gr_members = [], gr_claims = []\<rparr>)) roles"
  have g: "bt_get (role_groups roles) (group_of i) = map_of (rev ?es) (group_of i)"
    by (simp add: role_groups_def bt_get_extend_Nil)
  show ?thesis
  proof (cases "map_of (rev ?es) (group_of i)")
    case None
    then have "i \<notin> rd_id ` set roles" by (auto simp: map_of_eq_None_iff image_iff)
    with None g show ?thesis by simp
  next
    case (Some x)
    then have "(group_of i, x) \<in> set (rev ?es)" by (rule map_of_SomeD)
    then have "i \<in> rd_id ` set roles" "gr_members x = []" by auto
    with Some g show ?thesis by simp
  qed
qed

lemma person_step_groups:
  "bt_get (de_groups (person_step ids p d)) (group_of i) =
     (case (pe_role p, pe_sub p) of
        (Some j, Some s) \<Rightarrow>
          if j = i \<and> bt_get ids i \<noteq> None
          then map_option (\<lambda>g. g\<lparr>gr_members := bs_insert s (gr_members g)\<rparr>) (bt_get (de_groups d) (group_of i))
          else bt_get (de_groups d) (group_of i)
      | _ \<Rightarrow> bt_get (de_groups d) (group_of i))"
  by (auto simp: person_step_def bt_get_adjust Let_def split: option.split)

lemma people_groups:
  "bt_get ids i \<noteq> None \<Longrightarrow>
   map_option (set \<circ> gr_members) (bt_get (de_groups (fold (person_step ids) people d)) (group_of i)) =
   map_option (\<lambda>g. set (gr_members g) \<union> {s. \<exists>p \<in> set people. pe_role p = Some i \<and> pe_sub p = Some s})
     (bt_get (de_groups d) (group_of i))"
proof (induction people arbitrary: d)
  case (Cons p people)
  show ?case
    using Cons.IH [OF Cons.prems, of "person_step ids p d"] Cons.prems
    by (cases "bt_get (de_groups d) (group_of i)")
      (auto simp: person_step_groups comp_def split: option.splits if_splits)
qed (simp add: comp_def)

lemma nobody_reads_frame [simp]:
  "de_groups (nobody_reads people d) = de_groups d" "de_doors (nobody_reads people d) = de_doors d"
  "de_claims_of (nobody_reads people d) = de_claims_of d" "de_admins (nobody_reads people d) = de_admins d"
  "de_person_claims (nobody_reads people d) = de_person_claims d"
  "de_postmaster (nobody_reads people d) = de_postmaster d"
  by (simp_all add: nobody_reads_def)

lemma desired_members:
  assumes "bt_get (by_id roles) i \<noteq> None"
  shows "map_option (set \<circ> gr_members) (bt_get (de_groups (desired roles people apps)) (group_of i)) =
    Some {s. \<exists>p \<in> set people. pe_role p = Some i \<and> pe_sub p = Some s}"
proof -
  have "map_option (set \<circ> gr_members) (bt_get (de_groups (desired roles people apps)) (group_of i)) =
      map_option (set \<circ> gr_members) (bt_get (de_groups (people_part roles people)) (group_of i))"
    unfolding option.map_comp [symmetric] desired_def by (simp add: app_step_members)
  also have "\<dots> = map_option (\<lambda>g. set (gr_members g) \<union> {s. \<exists>p \<in> set people. pe_role p = Some i \<and> pe_sub p = Some s})
      (bt_get (role_groups roles) (group_of i))"
    unfolding people_part_def by (subst people_groups [OF assms]) simp
  also have "\<dots> = Some {s. \<exists>p \<in> set people. pe_role p = Some i \<and> pe_sub p = Some s}"
    using role_groups_get [of roles i] assms by (auto simp: by_id_None)
  finally show ?thesis .
qed


section \<open>The policy\<close>

text \<open>
  Whom the copies let in: the door of the app names a group that has the identity among
  its members.
\<close>

definition lets_in :: "desired_state \<Rightarrow> string \<Rightarrow> string \<Rightarrow> bool" where
  "lets_in d app s \<longleftrightarrow>
     (\<exists>dr n g. bt_get (de_doors d) app = Some dr \<and> n \<in> set (door_groups dr) \<and>
        bt_get (de_groups d) n = Some g \<and> s \<in> set (gr_members g))"

lemma lets_in_iff:
  assumes "distinct (map rd_id roles)" and "distinct (map app_of apps)" and "a \<in> set apps"
    and "entry_of (in_manifest a) = Some e"
  shows "lets_in (desired roles people apps) (app_of a) s \<longleftrightarrow>
    (\<exists>p \<in> set people. pe_sub p = Some s \<and> may_enter roles a p)"
proof -
  let ?d = "desired roles people apps"
  have door: "bt_get (de_doors ?d) (app_of a) = Some (door_of (by_id roles) a e)"
    unfolding desired_def by (rule doors_of_apps [OF assms(2-4)])
  have mem: "(\<exists>g. bt_get (de_groups ?d) (group_of (rd_id r)) = Some g \<and> s \<in> set (gr_members g)) \<longleftrightarrow>
      (\<exists>p \<in> set people. pe_role p = Some (rd_id r) \<and> pe_sub p = Some s)" if "admits roles a r" for r
  proof -
    have "bt_get (by_id roles) (rd_id r) \<noteq> None" using that by (auto simp: by_id_None admits_def)
    from desired_members [OF this, of people apps] show ?thesis by (auto simp: comp_def)
  qed
  have "lets_in ?d (app_of a) s \<longleftrightarrow>
      (\<exists>r. admits roles a r \<and> (\<exists>g. bt_get (de_groups ?d) (group_of (rd_id r)) = Some g \<and> s \<in> set (gr_members g)))"
    unfolding lets_in_def door by (auto simp: door_of_def admitted_iff [OF assms(1)])
  also have "\<dots> \<longleftrightarrow> (\<exists>r. admits roles a r \<and> (\<exists>p \<in> set people. pe_role p = Some (rd_id r) \<and> pe_sub p = Some s))"
    using mem by (intro ex_cong1) (simp cong: conj_cong)
  also have "\<dots> \<longleftrightarrow> (\<exists>p \<in> set people. pe_sub p = Some s \<and> may_enter roles a p)"
    by (auto simp: may_enter_def)
  finally show ?thesis .
qed


text \<open>C10: The groups and the doors implement the policy of the records. For roles and apps
  with distinct names, an identity is let into an app that signs people in exactly when it
  belongs to a person whose role the app allows, whose role reaches the app's floor, and
  every role the app is said to allow exists: a role that does not exist closes the app.
\<close>

theorem sync_implements_policy:
  assumes "distinct (map rd_id roles)" and "distinct (map app_of apps)" and "a \<in> set apps"
    and "entry_of (in_manifest a) = Some e"
  shows "lets_in (desired roles people apps) (app_of a) s \<longleftrightarrow>
    (\<exists>p \<in> set people. pe_sub p = Some s \<and> may_enter roles a p)"
  by (rule lets_in_iff [OF assms])


section \<open>Claims of a role\<close>

lemma set_keys_insert: "set (bt_keys (bt_insert k v m)) = insert k (set (bt_keys m))"
  using set_keys_bt_insert [of k v m] by (simp add: bt_keys_def)

text \<open>The claims an app declares: its own and the one its quota is told by.\<close>

definition claim_names :: "manifest \<Rightarrow> string set" where
  "claim_names m =
     set (bt_keys (acc_claims (access_of m))) \<union>
     (case Option.bind (acc_quota (access_of m)) quota_claim_of of Some c \<Rightarrow> {qc_name c} | None \<Rightarrow> {})"

lemma role_claims_keys:
  "set (bt_keys (role_claims (access_of m) n r cs)) \<subseteq> set (bt_keys cs) \<union> claim_names m"
proof -
  have f: "set (bt_keys (fold (\<lambda>(c, how) m. case value_for how (view r) of
      Some v \<Rightarrow> bt_insert c v m | None \<Rightarrow> m) es cs)) \<subseteq> set (bt_keys cs) \<union> set (bt_keys es)" for es
  proof (induction es arbitrary: cs)
    case (Cons e es)
    obtain c how where e: "e = (c, how)" by (cases e)
    show ?case
    proof (cases "value_for how (view r)")
      case None
      then show ?thesis using Cons.IH [of cs] by (auto simp: e bt_keys_def)
    next
      case (Some v)
      then show ?thesis using Cons.IH [of "bt_insert c v cs"] by (auto simp: e set_keys_insert) (auto simp: bt_keys_def)
    qed
  qed simp
  show ?thesis
    using f [of "acc_claims (access_of m)"]
    by (auto simp: role_claims_def Let_def claim_names_def set_keys_insert split: option.splits)
qed

text \<open>Every claim of every group is one an app declares that lets that group's role in.\<close>

definition claims_admitted :: "role_def list \<Rightarrow> installed list \<Rightarrow> desired_state \<Rightarrow> bool" where
  "claims_admitted roles apps d \<longleftrightarrow>
     (\<forall>i g c. bt_get (de_groups d) (group_of i) = Some g \<longrightarrow> c \<in> set (bt_keys (gr_claims g)) \<longrightarrow>
        (\<exists>a \<in> set apps. entry_of (in_manifest a) \<noteq> None \<and> c \<in> claim_names (in_manifest a) \<and>
           (\<exists>r. admits roles a r \<and> rd_id r = i)))"

lemma claims_admitted_step:
  assumes "claims_admitted roles apps d" and "a \<in> set apps"
  shows "claims_admitted roles apps (app_step (by_id roles) people a d)"
proof (cases "entry_of (in_manifest a)")
  case (Some e)
  let ?adj = "\<lambda>r. bt_adjust (group_of (rd_id r))
      (\<lambda>g. g\<lparr>gr_claims := role_claims (access_of (in_manifest a)) (app_of a) r (gr_claims g)\<rparr>)"
  have "claims_admitted roles apps (d\<lparr>de_groups := fold ?adj rs (de_groups d)\<rparr>)"
    if "set rs \<subseteq> set (admitted_of (by_id roles) a)" for rs
    using that assms(1)
  proof (induction rs arbitrary: d)
    case (Cons r rs)
    have ad: "admits roles a r" using Cons.prems(1) admitted_sound by simp
    have "claims_admitted roles apps (d\<lparr>de_groups := ?adj r (de_groups d)\<rparr>)"
      unfolding claims_admitted_def
    proof (intro allI impI)
      fix i g c
      assume g: "bt_get (de_groups (d\<lparr>de_groups := ?adj r (de_groups d)\<rparr>)) (group_of i) = Some g"
        and c: "c \<in> set (bt_keys (gr_claims g))"
      obtain g0 where g0: "bt_get (de_groups d) (group_of i) = Some g0"
        and gc: "g = g0 \<or> i = rd_id r \<and> gr_claims g = role_claims (access_of (in_manifest a)) (app_of a) r (gr_claims g0)"
        using g by (auto simp: bt_get_adjust split: if_splits)
      have "c \<in> set (bt_keys (gr_claims g0)) \<or> i = rd_id r \<and> c \<in> claim_names (in_manifest a)"
        using gc c role_claims_keys by fastforce
      then show "\<exists>a \<in> set apps. entry_of (in_manifest a) \<noteq> None \<and> c \<in> claim_names (in_manifest a) \<and>
           (\<exists>r. admits roles a r \<and> rd_id r = i)"
        using Cons.prems(2) g0 ad Some assms(2) unfolding claims_admitted_def by blast
    qed
    from Cons.IH [OF _ this] Cons.prems(1) show ?case by simp
  qed simp
  from this [OF subset_refl] Some show ?thesis
    by (simp add: app_step_def claims_admitted_def claims_step_def)
qed (simp add: app_step_def assms(1))

definition claimless :: "desired_state \<Rightarrow> bool" where
  "claimless d \<longleftrightarrow> (\<forall>n g. bt_get (de_groups d) n = Some g \<longrightarrow> gr_claims g = [])"

lemma claimless_step: "claimless d \<Longrightarrow> claimless (person_step ids p d)"
proof -
  assume d: "claimless d"
  have adj: "claimless (d'\<lparr>de_groups := bt_adjust k (\<lambda>g. g\<lparr>gr_members := f (gr_members g)\<rparr>) (de_groups d')\<rparr>)"
    if "claimless d'" for k f d'
    using that by (auto simp: claimless_def bt_get_adjust)
  have post: "claimless (d\<lparr>de_postmaster := x\<rparr>)" "claimless (d'\<lparr>de_notes := ns\<rparr>) = claimless d'" for x d' ns
    using d by (simp_all add: claimless_def)
  show ?thesis
    using d adj [OF d] adj [OF post(1)] by (simp add: person_step_def Let_def post split: option.split)
qed

lemma people_claimless: "claimless (people_part roles people)"
proof -
  have "claimless d \<Longrightarrow> claimless (fold (person_step ids) ps d)" for ids ps d
    by (induction ps arbitrary: d) (simp_all add: claimless_step)
  moreover have "claimless (default_desired\<lparr>de_groups := role_groups roles\<rparr>)"
    by (auto simp: claimless_def role_groups_def bt_get_extend_Nil dest!: map_of_SomeD)
  ultimately show ?thesis by (simp add: people_part_def)
qed

lemma desired_claims_admitted: "claims_admitted roles apps (desired roles people apps)"
proof -
  have "claims_admitted roles apps (fold (app_step (by_id roles) people) as d)"
    if "claims_admitted roles apps d" "set as \<subseteq> set apps" for as d
    using that by (induction as arbitrary: d) (auto intro: claims_admitted_step)
  moreover have "claims_admitted roles apps (nobody_reads people (people_part roles people))"
    using people_claimless by (fastforce simp: claims_admitted_def claimless_def bt_keys_def)
  ultimately show ?thesis by (simp add: desired_def)
qed

text \<open>A claim found in a role's group is one that an installed app declares which lets that
  very role in: a role an app keeps out carries none of what the app is told.
\<close>

theorem claims_only_where_admitted:
  assumes "bt_get (de_groups (desired roles people apps)) (group_of i) = Some g"
    and "c \<in> set (bt_keys (gr_claims g))"
  shows "\<exists>a r. a \<in> set apps \<and> c \<in> claim_names (in_manifest a) \<and> admits roles a r \<and> rd_id r = i"
  using desired_claims_admitted [of roles apps people] assms unfolding claims_admitted_def by blast


section \<open>Claims of a person\<close>

text \<open>
  A person's own claims go to every app: each is a number, under a name the result lists
  as one of Homelabus's.
\<close>

definition person_claims_ok :: "desired_state \<Rightarrow> bool" where
  "person_claims_ok d \<longleftrightarrow>
     (\<forall>s cs c v. bt_get (de_claims_of d) s = Some cs \<longrightarrow> bt_get cs c = Some v \<longrightarrow>
        c \<in> set (de_person_claims d) \<and> (\<exists>n. v = JNumber n))"

lemma person_claims_okD:
  "person_claims_ok d \<Longrightarrow> bt_get (de_claims_of d) s = Some cs \<Longrightarrow> bt_get cs c = Some v \<Longrightarrow>
   c \<in> set (de_person_claims d) \<and> (\<exists>n. v = JNumber n)"
  unfolding person_claims_ok_def by blast

lemma person_quota_ok:
  assumes "person_claims_ok d" and "\<And>c. quota_claim_of q = Some c \<Longrightarrow> qc_name c \<in> set (de_person_claims d)"
  shows "person_claims_ok (person_quota ids n q p d) \<and>
    de_person_claims (person_quota ids n q p d) = de_person_claims d"
proof -
  have ins: "person_claims_ok (d\<lparr>de_claims_of := insert_under s k (claim_value u b) (de_claims_of d)\<rparr>)"
    if "k \<in> set (de_person_claims d)" for s k u b
    unfolding person_claims_ok_def
  proof (intro allI impI)
    fix s' cs c v
    assume cs: "bt_get (de_claims_of (d\<lparr>de_claims_of := insert_under s k (claim_value u b) (de_claims_of d)\<rparr>)) s' = Some cs"
      and v: "bt_get cs c = Some v"
    show "c \<in> set (de_person_claims (d\<lparr>de_claims_of := insert_under s k (claim_value u b) (de_claims_of d)\<rparr>)) \<and>
        (\<exists>n. v = JNumber n)"
    proof (cases "s' = s \<and> c = k")
      case True
      then show ?thesis using cs v that by (auto simp: insert_under_def bt_get_insert_fun claim_value_def)
    next
      case False
      then have "\<exists>cs'. bt_get (de_claims_of d) s' = Some cs' \<and> bt_get cs' c = Some v"
        using cs v by (auto simp: insert_under_def bt_get_insert_fun split: if_splits option.splits)
          (auto simp: bt_get_def)
      then show ?thesis using person_claims_okD [OF assms(1)] by auto
    qed
  qed
  have quotas: "person_claims_ok (d'\<lparr>de_quotas := qs\<rparr>) = person_claims_ok d'" for d' qs
    by (simp add: person_claims_ok_def)
  show ?thesis
    using assms ins by (simp add: person_quota_def Let_def quotas split: option.split)
qed

lemma app_step_claims_ok:
  assumes "person_claims_ok d"
  shows "person_claims_ok (app_step ids people a d)"
proof -
  have frame: "person_claims_ok d' \<Longrightarrow> de_claims_of d'' = de_claims_of d' \<Longrightarrow>
      de_person_claims d'' = de_person_claims d' \<Longrightarrow> person_claims_ok d''" for d' d''
    by (simp add: person_claims_ok_def)
  have folded: "person_claims_ok (fold (person_quota ids n q) ps d')"
    if "person_claims_ok d'" "\<And>c. quota_claim_of q = Some c \<Longrightarrow> qc_name c \<in> set (de_person_claims d')" for n q ps d'
    using that
  proof (induction ps arbitrary: d')
    case (Cons p ps)
    have ok: "person_claims_ok (person_quota ids n q p d')"
      "de_person_claims (person_quota ids n q p d') = de_person_claims d'"
      using person_quota_ok [OF Cons.prems] by auto
    from Cons.IH [OF ok(1)] Cons.prems(2) ok(2) show ?case by simp
  qed simp
  have more: "person_claims_ok (d'\<lparr>de_person_claims := bs_insert c (de_person_claims d')\<rparr>)"
    if "person_claims_ok d'" for c d'
    using person_claims_okD [OF that] by (auto simp: person_claims_ok_def)
  have quota: "person_claims_ok (quota_step ids people a d')" if "person_claims_ok d'" for d'
    using that more [OF that] by (auto simp: quota_step_def split: option.split intro!: folded)
  show ?thesis
  proof (cases "entry_of (in_manifest a)")
    case (Some e)
    have "person_claims_ok (claims_step ids a (door_step ids a e d))" by (rule frame [OF assms]) simp_all
    from quota [OF this] have "person_claims_ok (members_step ids people a (admins_step ids people a
        (quota_step ids people a (claims_step ids a (door_step ids a e d)))))"
      by (rule frame) simp_all
    with Some show ?thesis by (simp add: app_step_def)
  qed (simp add: app_step_def assms)
qed

lemma desired_claims_ok: "person_claims_ok (desired roles people apps)"
proof -
  have "de_claims_of (fold (person_step ids) ps d) = de_claims_of d" for ids ps d
  proof (induction ps arbitrary: d)
    case (Cons p ps)
    have "de_claims_of (person_step ids p d) = de_claims_of d"
      by (simp add: person_step_def Let_def split: option.split)
    with Cons show ?case by simp
  qed simp
  then have "person_claims_ok (nobody_reads people (people_part roles people))"
    by (simp add: person_claims_ok_def people_part_def default_desired_def bt_get_def)
  moreover have "person_claims_ok d \<Longrightarrow> person_claims_ok (fold (app_step (by_id roles) people) as d)" for as d
    by (induction as arbitrary: d) (simp_all add: app_step_claims_ok)
  ultimately show ?thesis by (simp add: desired_def)
qed

text \<open>Every claim set on a person is a number, never \<open>null\<close>: a \<open>null\<close> would fail every
  sign-in of that person. And its name is among those the result owns, so that taking it
  back later is possible.
\<close>

theorem person_claims_never_null:
  assumes "bt_get (de_claims_of (desired roles people apps)) s = Some cs" and "bt_get cs c = Some v"
  shows "v \<noteq> JNull \<and> (\<exists>n. v = JNumber n) \<and> c \<in> set (de_person_claims (desired roles people apps))"
  using person_claims_okD [OF desired_claims_ok assms] by auto


section \<open>Administrators\<close>

definition admin_tasks ::
  "(string, role_def) btree_map \<Rightarrow> sync_person list \<Rightarrow> installed \<Rightarrow> admin_task list" where
  "admin_tasks ids people a =
     (if entry_of (in_manifest a) = None then []
      else case acc_admins (access_of (in_manifest a)) of
        None \<Rightarrow> []
      | Some adm \<Rightarrow>
          if adm_apply adm = None then []
          else List.map_filter (\<lambda>p. map_option (\<lambda>sub.
                 \<lparr>at_app = app_of a, at_person = pe_name p, at_sub = sub,
                  at_admin = administers ids people a adm p\<rparr>) (pe_sub p)) people)"

lemma desired_admins: "de_admins (desired roles people apps) = concat (map (admin_tasks (by_id roles) people) apps)"
proof -
  have step: "de_admins (app_step ids people a d) = de_admins d @ admin_tasks ids people a" for ids a d
    by (simp add: app_step_def admin_tasks_def admins_step_def split: option.split)
  have "de_admins (fold (app_step ids people) as d) = de_admins d @ concat (map (admin_tasks ids people) as)" for ids as d
    by (induction as arbitrary: d) (simp_all add: step)
  moreover have "de_admins (fold (person_step ids) ps d) = de_admins d" for ids ps d
  proof (induction ps arbitrary: d)
    case (Cons p ps)
    have "de_admins (person_step ids p d) = de_admins d"
      by (simp add: person_step_def Let_def split: option.split)
    with Cons show ?case by simp
  qed simp
  ultimately show ?thesis by (simp add: desired_def people_part_def default_desired_def)
qed

lemma administers_iff:
  assumes "distinct (map rd_id roles)" and "distinct (map pe_name people)" and "p \<in> set people"
  shows "administers (by_id roles) people a adm p \<longleftrightarrow>
    (\<exists>r. admits roles a r \<and> pe_role p = Some (rd_id r) \<and> adm_level adm \<le> rd_level r)"
proof -
  have "i = p" if "i \<in> set people" "pe_name i = pe_name p" for i
    using assms(2,3) that by (auto simp: distinct_map dest: inj_onD)
  then have here: "list_ex (\<lambda>i. pe_name i = pe_name p) (inside (by_id roles) a people) \<longleftrightarrow> may_enter roles a p"
    using assms(3) inside_iff [OF assms(1)] unfolding list_ex_iff by metis
  have level: "(case Option.bind (pe_role p) (bt_get (by_id roles)) of
        None \<Rightarrow> False | Some r \<Rightarrow> adm_level adm \<le> rd_level r) \<longleftrightarrow>
      (\<exists>r \<in> set roles. pe_role p = Some (rd_id r) \<and> adm_level adm \<le> rd_level r)"
  proof (cases "pe_role p")
    case (Some i)
    show ?thesis
    proof (cases "bt_get (by_id roles) i")
      case None
      then have "i \<notin> rd_id ` set roles" by (simp only: by_id_None simp_thms)
      with None show ?thesis using \<open>pe_role p = Some i\<close> by auto
    next
      case (Some r)
      then show ?thesis
        using \<open>pe_role p = Some i\<close> by_id_distinct [OF assms(1), of i] by (metis bind.bind_lunit option.inject option.simps(5))
    qed
  qed simp
  have "r = r'" if "r \<in> set roles" "r' \<in> set roles" "rd_id r = rd_id r'" for r r'
    using assms(1) that by (auto simp: distinct_map dest: inj_onD)
  then show ?thesis
    unfolding administers_def here level may_enter_def admits_def by (metis option.inject)
qed

text \<open>In every app that is told its administrators by command, each person with an identity
  is told about exactly: as an administrator when their role is let in and reaches the
  level the app asks for, and as none otherwise, so that a role lowered or taken away takes
  the right back.
\<close>

theorem admin_tasks_exact:
  assumes "distinct (map rd_id roles)" and "distinct (map pe_name people)"
    and "a \<in> set apps" and "entry_of (in_manifest a) = Some e"
    and "acc_admins (access_of (in_manifest a)) = Some adm" and "adm_apply adm = Some how"
    and "p \<in> set people" and "pe_sub p = Some s"
  shows "\<lparr>at_app = app_of a, at_person = pe_name p, at_sub = s,
      at_admin = (\<exists>r. admits roles a r \<and> pe_role p = Some (rd_id r) \<and> adm_level adm \<le> rd_level r)\<rparr>
    \<in> set (de_admins (desired roles people apps))"
proof -
  have "\<lparr>at_app = app_of a, at_person = pe_name p, at_sub = s,
      at_admin = administers (by_id roles) people a adm p\<rparr> \<in> set (admin_tasks (by_id roles) people a)"
    using assms(4-8) by (auto simp: admin_tasks_def set_map_filter)
  then show ?thesis
    using assms(3) unfolding desired_admins administers_iff [OF assms(1,2,7), symmetric] by auto
qed


section \<open>A sample\<close>

text \<open>One role, one person holding it, and one app that lets it in.\<close>

definition wiki_access :: access where
  "wiki_access =
     \<lparr>acc_floor = Viewer,
      acc_admins = Some \<lparr>adm_level = Operator, adm_means = ''every page'',
        adm_apply = Some \<lparr>adm_service = None, adm_grant = [''grant''], adm_revoke = [''revoke'']\<rparr>\<rparr>,
      acc_claims = [(''wiki_role'', \<lparr>claim_by_level = None, claim_json = Some (JBool True)\<rparr>)],
      acc_quota = Some \<lparr>quota_claim_of = Some \<lparr>qc_name = ''wiki_quota'', qc_unit = UnitBytes\<rparr>, quota_apply_of = None\<rparr>,
      acc_members = None, acc_accounts = None, acc_nodes = None\<rparr>"

definition wiki_manifest :: manifest where
  "wiki_manifest =
     \<lparr>mf_api_version = V1, mf_kind = KindApp,
      mf_metadata = \<lparr>md_name = ''wiki'', md_hlb = None, md_criticality = None, md_display_name = None,
        md_category = None, md_homepage = None\<rparr>,
      mf_spec =
        \<lparr>sp_image = \<lparr>img_repo = ''wiki'', img_tag = ''1'', img_digest = None, img_built_here = False,
           img_signed_by = None\<rparr>,
         sp_runtime = Swarm, sp_requires = [Sso SsoNative []], sp_ingress = [], sp_swarm = default_swarm,
         sp_update = default_update, sp_companions = [], sp_env = [], sp_shared_env = [],
         sp_security = default_security, sp_files = [], sp_command = [], sp_args = [],
         sp_process = default_process, sp_assertions = [], sp_access = Some wiki_access, sp_recovery = [],
         sp_jobs = [], sp_downloads = []\<rparr>\<rparr>"

definition wiki :: installed where
  "wiki = \<lparr>in_manifest = wiki_manifest, in_allowed = [''staff'']\<rparr>"

definition staff :: role_def where
  "staff = role_new ''staff'' Operator limits_standard"

definition alice :: sync_person where
  "alice = \<lparr>pe_name = ''alice'', pe_sub = Some ''s1'', pe_email = None, pe_role = Some ''staff'',
     pe_quotas = [(''wiki'', Some 5)]\<rparr>"

lemma wiki_facts [simp]:
  "app_of wiki = ''wiki''" "entry_of (in_manifest wiki) = Some EntryClient"
  "access_of (in_manifest wiki) = wiki_access" "floor_of (in_manifest wiki) = Viewer"
  "in_allowed wiki = [''staff'']" "rd_id staff = ''staff''" "rd_name staff = ''staff''"
  "rd_level staff = Operator" "rd_quotas staff = []"
  by (simp_all add: wiki_def wiki_manifest_def entry_of_def PORTAL_SERVICE_def access_of_def floor_of_def
      wiki_access_def staff_def role_new_def List.map_filter_def)

lemma alice_facts [simp]:
  "pe_name alice = ''alice''" "pe_sub alice = Some ''s1''" "pe_email alice = None"
  "pe_role alice = Some ''staff''" "pe_quotas alice = [(''wiki'', Some 5)]"
  by (simp_all add: alice_def)

lemma staff_admitted [simp]: "admits [staff] wiki staff"
  by (simp add: admits_def less_eq_role_def)

lemma sample_ids [simp]: "bt_get (by_id [staff]) ''staff'' = Some staff"
  by (simp add: by_id_def bt_extend_def bt_get_def)

lemma sample_admitted [simp]: "admitted_of (by_id [staff]) wiki = [staff]"
  by (simp add: admitted_of_def less_role_def)

lemma sample_desired:
  "de_groups (desired [staff] [alice] [wiki]) =
     [(''hlb-staff'', \<lparr>gr_role = ''staff'', gr_friendly_name = ''staff'', gr_members = [''s1''],
        gr_claims = [(''wiki_role'', JBool True)]\<rparr>)]"
  "de_claims_of (desired [staff] [alice] [wiki]) = [(''s1'', [(''wiki_quota'', claim_value UnitBytes 5)])]"
  by (simp_all add: desired_def people_part_def role_groups_def bt_extend_def group_of_def person_step_def
      default_desired_def bt_adjust_def bs_insert_def insort_insert_key_def app_step_def claims_step_def
      role_claims_def wiki_access_def value_for_def bt_get_def sample_ids [unfolded bt_get_def] nobody_reads_def quota_step_def inside_def
      person_quota_def insert_under_def admins_step_def members_step_def door_step_def Let_def)

theorem sync_implements_policy_witness: "lets_in (desired [staff] [alice] [wiki]) ''wiki'' ''s1''"
  using sync_implements_policy [of "[staff]" "[wiki]" wiki EntryClient "[alice]" "''s1''"] staff_admitted
  by (auto simp: may_enter_def intro!: exI [of _ staff])

theorem claims_only_where_admitted_witness:
  "\<exists>a r. a \<in> set [wiki] \<and> ''wiki_role'' \<in> claim_names (in_manifest a) \<and> admits [staff] a r \<and> rd_id r = ''staff''"
  by (rule claims_only_where_admitted [of "[staff]" "[alice]" "[wiki]" "''staff''"])
    (simp_all add: sample_desired bt_get_def group_of_def, simp add: bt_keys_def)

theorem person_claims_never_null_witness:
  "claim_value UnitBytes 5 \<noteq> JNull \<and> (\<exists>n. claim_value UnitBytes 5 = JNumber n) \<and>
   ''wiki_quota'' \<in> set (de_person_claims (desired [staff] [alice] [wiki]))"
  by (rule person_claims_never_null [of "[staff]" "[alice]" "[wiki]" "''s1''" "[(''wiki_quota'', claim_value UnitBytes 5)]"])
    (simp_all add: sample_desired bt_get_def)

theorem admin_tasks_exact_witness:
  "\<lparr>at_app = ''wiki'', at_person = ''alice'', at_sub = ''s1'', at_admin = True\<rparr> \<in>
   set (de_admins (desired [staff] [alice] [wiki]))"
proof -
  have "\<exists>r. admits [staff] wiki r \<and> pe_role alice = Some (rd_id r) \<and> Operator \<le> rd_level r"
    by (intro exI [of _ staff]) simp
  with admin_tasks_exact [of "[staff]" "[alice]" wiki "[wiki]" EntryClient
      "\<lparr>adm_level = Operator, adm_means = ''every page'',
        adm_apply = Some \<lparr>adm_service = None, adm_grant = [''grant''], adm_revoke = [''revoke'']\<rparr>\<rparr>"
      "\<lparr>adm_service = None, adm_grant = [''grant''], adm_revoke = [''revoke'']\<rparr>" alice "''s1''"]
  show ?thesis by (simp add: wiki_access_def)
qed

end
