(* ===== verification/Split.thy ===== *)
theory Split
  imports Rust_Str
begin

text \<open>
  A key split among relatives (\<open>crates/hlb-secrets/src/split.rs\<close>): how a share is written,
  typed back, checked, gathered from lines, and how shares are combined. A byte is an
  \<open>8 word\<close>, the checksum a \<open>16 word\<close>. The crates \<open>age\<close>, \<open>bech32\<close>, \<open>sha2\<close> and \<open>blahaj\<close> are the
  fields of the record \<open>crypto\<close>, an argument of what uses them; the drawn randomness is an
  argument too. A copy into an array of another length panics: that is \<open>None\<close>.
\<close>

section \<open>Letters\<close>

definition MAX_SHARES :: u8 where
  "MAX_SHARES = 15"

definition VERSION :: u8 where
  "VERSION = 1"

definition MODHEX :: string where
  "MODHEX = ''cbdefghijklnrtuv''"

definition KEY_LEN :: nat where
  "KEY_LEN = 32"

definition LEN :: nat where
  "LEN = 39"

definition IDENTITY_HRP :: string where
  "IDENTITY_HRP = ''age-secret-key-''"

definition modhex :: "u8 list \<Rightarrow> string" where
  "modhex bs = concat (map (\<lambda>b. [MODHEX ! unat (drop_bit 4 b), MODHEX ! unat (b AND 0x0F)]) bs)"

text \<open>One step of the division and the eight steps of a byte.\<close>

definition crc_shift :: "u16 \<Rightarrow> u16" where
  "crc_shift c = (if c AND 0x8000 \<noteq> 0 then push_bit 1 c XOR 0x1021 else push_bit 1 c)"

definition crc_byte :: "u8 \<Rightarrow> u16 \<Rightarrow> u16" where
  "crc_byte b crc = (crc_shift ^^ 8) (crc XOR push_bit 8 (ucast b))"

definition crc16 :: "u8 list \<Rightarrow> u16" where
  "crc16 bs = fold crc_byte bs 0xFFFF"

definition to_be_bytes :: "u16 \<Rightarrow> u8 list" where
  "to_be_bytes w = [ucast (drop_bit 8 w), ucast w]"


section \<open>Shares\<close>

datatype split_error =
    Shape u8 u8
  | NoShare
  | Malformed nat string
  | Mistyped nat
  | OtherSplit nat string string
  | Twice u8 u8
  | TooFew u8 nat string
  | WrongKey string
  | SealError string
  | OpenError string

record share =
  sh_split :: "u8 list"
  sh_threshold :: u8
  sh_count :: u8
  sh_index :: u8
  sh_y :: "u8 list"

record key_split =
  ks_recipient :: string
  ks_shares :: "share list"

text \<open>The lengths of the arrays, and the four bits of the threshold and of the count.\<close>

definition share_wf :: "share \<Rightarrow> bool" where
  "share_wf s \<longleftrightarrow> length (sh_split s) = 2 \<and> sh_threshold s < 16 \<and> sh_count s < 16 \<and> length (sh_y s) = KEY_LEN"

definition share_split_id :: "share \<Rightarrow> string" where
  "share_split_id s = modhex (sh_split s)"

definition share_debug :: "share \<Rightarrow> string" where
  "share_debug s =
     ''Share('' @ show_nat (unat (sh_index s)) @ '' of '' @ show_nat (unat (sh_count s)) @ '', split '' @
     modhex (sh_split s) @ '', any '' @ show_nat (unat (sh_threshold s)) @ '')''"

definition share_body :: "share \<Rightarrow> u8 list" where
  "share_body s =
     VERSION # sh_split s @ [push_bit 4 (sh_threshold s) OR sh_count s, sh_index s] @ sh_y s"

definition share_bytes :: "share \<Rightarrow> u8 list" where
  "share_bytes s = share_body s @ to_be_bytes (crc16 (share_body s))"

definition groups :: "share \<Rightarrow> string list" where
  "groups s = chunks 6 (modhex (share_bytes s))"

definition skipped :: "char \<Rightarrow> bool" where
  "skipped c \<longleftrightarrow> is_ascii_whitespace c \<or> c = CHR ''-''"

definition letters_of :: "string \<Rightarrow> string" where
  "letters_of text = map to_ascii_lowercase (filter (\<lambda>c. \<not> skipped c) text)"

definition nibble :: "char \<Rightarrow> u8" where
  "nibble c = of_nat (length (takeWhile (\<lambda>m. m \<noteq> c) MODHEX))"

fun bytes_of_letters :: "string \<Rightarrow> u8 list" where
  "bytes_of_letters (a # b # r) = (push_bit 4 (nibble a) OR nibble b) # bytes_of_letters r"
| "bytes_of_letters _ = []"

text \<open>A byte shown as a character: one above 127 is two bytes of UTF-8.\<close>

definition byte_as_char :: "char \<Rightarrow> string" where
  "byte_as_char c =
     (let n = (of_char c :: nat) in
      if n < 128 then [c] else [char_of (192 + n div 64), char_of (128 + n mod 64)])"

definition read :: "string \<Rightarrow> nat \<Rightarrow> split_error + share" where
  "read text at =
     (let letters = letters_of text in
      case find (\<lambda>c. c \<notin> set MODHEX) letters of
        Some c \<Rightarrow>
          Inl (Malformed at ([CHR 0x22] @ byte_as_char c @ [CHR 0x22] @ '' is not one of its letters ('' @ MODHEX @ '')''))
      | None \<Rightarrow>
          if length letters \<noteq> LEN * 2
          then Inl (Malformed at (show_nat (length letters) @ '' letters, where a share has '' @ show_nat (LEN * 2)))
          else
            (let b = bytes_of_letters letters in
             if to_be_bytes (crc16 (take (LEN - 2) b)) \<noteq> drop (LEN - 2) b then Inl (Mistyped at)
             else if b ! 0 \<noteq> VERSION
             then Inl (Malformed at (''made by a newer hlb (format '' @ show_nat (unat (b ! 0)) @ '')''))
             else Inr \<lparr>sh_split = [b ! 1, b ! 2], sh_threshold = drop_bit 4 (b ! 3), sh_count = b ! 3 AND 0x0F,
                       sh_index = b ! 4, sh_y = take KEY_LEN (drop 5 b)\<rparr>))"

definition share_label :: "share \<Rightarrow> string" where
  "share_label s =
     share_split_id s @ '' ('' @ show_nat (unat (sh_threshold s)) @ '' of '' @ show_nat (unat (sh_count s)) @ '')''"

definition letter_count :: "string \<Rightarrow> nat" where
  "letter_count s = length (filter (\<lambda>c. \<not> skipped c) s)"

fun gather_from :: "string \<Rightarrow> string list \<Rightarrow> string list" where
  "gather_from current [] = (if trim current \<noteq> [] then [current] else [])"
| "gather_from current (line # rest) =
     (let current = current @ line @ '' '' in
      if LEN * 2 \<le> letter_count current then current # gather_from [] rest
      else gather_from current rest)"

definition gather :: "string list \<Rightarrow> string list" where
  "gather = gather_from []"


section \<open>Keys\<close>

text \<open>
  The crates. \<open>deal\<close> is the nth share of a dealer started on some randomness, \<open>dealt_bytes\<close>
  and \<open>dealt_of\<close> are the conversions of such a share, \<open>from_base32\<close> takes the data part of
  what \<open>bech32_decode\<close> returns.
\<close>

record ('id, 'rec, 'dealt, 'rand) crypto =
  generate :: "'rand \<Rightarrow> 'id"
  to_public :: "'id \<Rightarrow> string"
  id_to_string :: "'id \<Rightarrow> string"
  id_from_str :: "string \<Rightarrow> 'id option"
  bech32_encode :: "string \<Rightarrow> u8 list \<Rightarrow> string option"
  bech32_decode :: "string \<Rightarrow> string + u8 list"
  from_base32 :: "u8 list \<Rightarrow> string + u8 list"
  sha256 :: "string \<Rightarrow> u8 list"
  deal :: "'rand \<Rightarrow> u8 \<Rightarrow> u8 list \<Rightarrow> nat \<Rightarrow> 'dealt"
  dealt_bytes :: "'dealt \<Rightarrow> u8 list"
  dealt_of :: "u8 list \<Rightarrow> 'dealt option"
  recover :: "u8 \<Rightarrow> 'dealt list \<Rightarrow> string + u8 list"
  recipient_from_str :: "string \<Rightarrow> string + 'rec"
  encrypt_and_armor :: "'rand \<Rightarrow> 'rec \<Rightarrow> string \<Rightarrow> string + string"
  decrypt_with :: "'id \<Rightarrow> string \<Rightarrow> string + string"

definition split_id_of :: "('id, 'rec, 'dealt, 'rand) crypto \<Rightarrow> string \<Rightarrow> u8 list" where
  "split_id_of cr recipient = (let h = sha256 cr recipient in [h ! 0, h ! 1])"

definition split_id :: "('id, 'rec, 'dealt, 'rand) crypto \<Rightarrow> string \<Rightarrow> string" where
  "split_id cr recipient = modhex (split_id_of cr recipient)"

definition identity_bytes :: "('id, 'rec, 'dealt, 'rand) crypto \<Rightarrow> 'id \<Rightarrow> split_error + u8 list" where
  "identity_bytes cr i =
     (case bech32_decode cr (id_to_string cr i) of
        Inl e \<Rightarrow> Inl (SealError e)
      | Inr data \<Rightarrow>
          (case from_base32 cr data of
             Inl e \<Rightarrow> Inl (SealError e)
           | Inr bs \<Rightarrow>
               if length bs \<noteq> KEY_LEN
               then Inl (SealError (''an age key of '' @ show_nat (length bs) @ '' bytes, not '' @ show_nat KEY_LEN))
               else Inr bs))"

definition identity_from_bytes :: "('id, 'rec, 'dealt, 'rand) crypto \<Rightarrow> u8 list \<Rightarrow> 'id option" where
  "identity_from_bytes cr bs =
     (case bech32_encode cr IDENTITY_HRP bs of
        None \<Rightarrow> None
      | Some text \<Rightarrow> id_from_str cr (map to_ascii_uppercase text))"

text \<open>One dealt share: its first byte is the index, and the rest must fill the array.\<close>

definition share_of_dealt ::
  "('id, 'rec, 'dealt, 'rand) crypto \<Rightarrow> u8 list \<Rightarrow> u8 \<Rightarrow> u8 \<Rightarrow> 'dealt \<Rightarrow> share option" where
  "share_of_dealt cr i threshold count s =
     (case dealt_bytes cr s of
        [] \<Rightarrow> None
      | x # y \<Rightarrow>
          if length y \<noteq> KEY_LEN then None
          else Some \<lparr>sh_split = i, sh_threshold = threshold, sh_count = count, sh_index = x, sh_y = y\<rparr>)"

definition split ::
  "('id, 'rec, 'dealt, 'rand) crypto \<Rightarrow> 'rand \<Rightarrow> u8 \<Rightarrow> u8 \<Rightarrow> (split_error + key_split) option" where
  "split cr rand threshold count =
     (if threshold < 2 \<or> count < threshold \<or> MAX_SHARES < count then Some (Inl (Shape threshold count))
      else
        (let identity = generate cr rand; recipient = to_public cr identity;
             i = split_id_of cr recipient in
         case identity_bytes cr identity of
           Inl e \<Rightarrow> Some (Inl e)
         | Inr key \<Rightarrow>
             map_option (\<lambda>shares. Inr \<lparr>ks_recipient = recipient, ks_shares = shares\<rparr>)
               (those (map (\<lambda>n. share_of_dealt cr i threshold count (deal cr rand threshold key n))
                  [0..<unat count]))))"

text \<open>\<open>String::from_utf8\<close>: the well-formed byte sequences of Unicode.\<close>

definition byte_in :: "nat \<Rightarrow> nat \<Rightarrow> char \<Rightarrow> bool" where
  "byte_in lo hi c \<longleftrightarrow> lo \<le> (of_char c :: nat) \<and> (of_char c :: nat) \<le> hi"

definition second_byte :: "char \<Rightarrow> char \<Rightarrow> bool" where
  "second_byte a b \<longleftrightarrow>
     (if a = CHR 0xE0 then byte_in 0xA0 0xBF b
      else if a = CHR 0xED then byte_in 0x80 0x9F b
      else if a = CHR 0xF0 then byte_in 0x90 0xBF b
      else if a = CHR 0xF4 then byte_in 0x80 0x8F b
      else byte_in 0x80 0xBF b)"

fun tail_bytes :: "nat \<Rightarrow> string \<Rightarrow> bool" where
  "tail_bytes 0 s = True"
| "tail_bytes (Suc k) [] = False"
| "tail_bytes (Suc k) (c # s) \<longleftrightarrow> byte_in 0x80 0xBF c \<and> tail_bytes k s"

text \<open>How many bytes follow a first byte; none starts a sequence otherwise.\<close>

definition following :: "char \<Rightarrow> nat option" where
  "following a =
     (if byte_in 0 0x7F a then Some 0
      else if byte_in 0xC2 0xDF a then Some 1
      else if byte_in 0xE0 0xEF a then Some 2
      else if byte_in 0xF0 0xF4 a then Some 3
      else None)"

function valid_utf8 :: "string \<Rightarrow> bool" where
  "valid_utf8 [] = True"
| "valid_utf8 (a # s) =
     (case following a of
        None \<Rightarrow> False
      | Some k \<Rightarrow>
          (k = 0 \<or> s \<noteq> [] \<and> second_byte a (hd s)) \<and> tail_bytes k s \<and> valid_utf8 (drop k s))"
  by pat_completeness auto
termination
  by (relation "measure length") auto

record 'id key =
  key_identity :: 'id
  key_split_id :: string

definition key_open :: "('id, 'rec, 'dealt, 'rand) crypto \<Rightarrow> 'id key \<Rightarrow> string \<Rightarrow> split_error + string" where
  "key_open cr k sealed =
     (case decrypt_with cr (key_identity k) sealed of
        Inl e \<Rightarrow> Inl (OpenError e)
      | Inr plain \<Rightarrow> if valid_utf8 plain then Inr plain else Inl (OpenError ''not text''))"

definition seal :: "('id, 'rec, 'dealt, 'rand) crypto \<Rightarrow> 'rand \<Rightarrow> string \<Rightarrow> string \<Rightarrow> split_error + string" where
  "seal cr rand plain recipient =
     (case recipient_from_str cr recipient of
        Inl e \<Rightarrow> Inl (SealError e)
      | Inr to \<Rightarrow>
          (case encrypt_and_armor cr rand to plain of Inl e \<Rightarrow> Inl (SealError e) | Inr t \<Rightarrow> Inr t))"

fun read_all :: "nat \<Rightarrow> string list \<Rightarrow> split_error + share list" where
  "read_all at [] = Inr []"
| "read_all at (t # ts) =
     and_then (read t at) (\<lambda>s. and_then (read_all (Suc at) ts) (\<lambda>ss. Inr (s # ss)))"

text \<open>The loop over the shares: the split of the first, and no index twice.\<close>

fun check_shares :: "share \<Rightarrow> nat \<Rightarrow> share list \<Rightarrow> share list \<Rightarrow> split_error + unit" where
  "check_shares first at before [] = Inr ()"
| "check_shares first at before (s # rest) =
     (if (sh_split s, sh_threshold s, sh_count s) \<noteq> (sh_split first, sh_threshold first, sh_count first)
      then Inl (OtherSplit at (share_label s) (share_label first))
      else if list_ex (\<lambda>other. sh_index other = sh_index s) before then Inl (Twice (sh_index s) (sh_count s))
      else check_shares first (Suc at) (before @ [s]) rest)"

definition combine :: "('id, 'rec, 'dealt, 'rand) crypto \<Rightarrow> string list \<Rightarrow> split_error + 'id key" where
  "combine cr texts =
     and_then (read_all 1 texts) (\<lambda>shares.
       case shares of
         [] \<Rightarrow> Inl NoShare
       | first # _ \<Rightarrow>
           and_then (check_shares first 1 [] shares) (\<lambda>_.
             if length shares < unat (sh_threshold first)
             then Inl (TooFew (sh_threshold first) (length shares) (share_label first))
             else
               (case recover cr (sh_threshold first)
                       (List.map_filter (\<lambda>s. dealt_of cr (sh_index s # sh_y s)) shares) of
                  Inl e \<Rightarrow> Inl (WrongKey (share_split_id first @ '' ('' @ e @ '')''))
                | Inr key \<Rightarrow>
                    (case identity_from_bytes cr key of
                       Some i \<Rightarrow>
                         if split_id_of cr (to_public cr i) = sh_split first
                         then Inr \<lparr>key_identity = i, key_split_id = share_split_id first\<rparr>
                         else Inl (WrongKey (share_split_id first))
                     | None \<Rightarrow> Inl (WrongKey (share_split_id first))))))"

section \<open>Codes\<close>

definition draw_code :: "u8 list \<Rightarrow> string" where
  "draw_code random = join_with ''-'' (chunks 4 (modhex random))"

text \<open>\<open>chars().filter(..)\<close> with the white space left out; the counter skips the bytes of one.\<close>

fun without_spaces :: "nat \<Rightarrow> string \<Rightarrow> string" where
  "without_spaces k [] = []"
| "without_spaces (Suc k) (c # cs) = without_spaces k cs"
| "without_spaces 0 (c # cs) =
     (case find (\<lambda>w. prefix w (c # cs)) white_space of
        Some w \<Rightarrow> without_spaces (length w - 1) cs
      | None \<Rightarrow> c # without_spaces 0 cs)"

definition bare :: "string \<Rightarrow> string" where
  "bare s = map to_ascii_lowercase (filter (\<lambda>c. c \<noteq> CHR ''-'') (without_spaces 0 s))"

definition same_code :: "string \<Rightarrow> string \<Rightarrow> bool" where
  "same_code typed code \<longleftrightarrow> bare code \<noteq> [] \<and> bare typed = bare code"

end
