(* ===== verification/Split_Props.thy ===== *)
theory Split_Props
  imports Split
begin

text \<open>
  What \<open>Split\<close> guarantees: a share typed back is the share printed, every error within
  sixteen bits of it is caught by the checksum, and combining refuses what would rebuild a
  wrong key and rebuilds the right one.
\<close>

section \<open>Letters and bytes\<close>

lemma nibble_MODHEX: "n < 16 \<Longrightarrow> nibble (MODHEX ! n) = of_nat n"
proof -
  have "list_all (\<lambda>n. nibble (MODHEX ! n) = of_nat n) [0..<16]"
    by (simp add: upt_rec nibble_def MODHEX_def)
  then show "n < 16 \<Longrightarrow> nibble (MODHEX ! n) = of_nat n" by (simp add: list_all_iff)
qed

lemma high_nibble: "unat (drop_bit 4 (b :: u8)) < 16"
proof -
  have "unat b < 256" using unsigned_less [of b] by simp
  then have "unat b div 16 < 16" by simp
  moreover have "unat (drop_bit 4 b) = unat b div 16" by (simp add: unat_drop_bit_eq) (simp add: drop_bit_eq_div)
  ultimately show ?thesis by simp
qed

lemma low_nibble: "unat ((b :: u8) AND 0x0F) < 16"
proof -
  have "b AND 0x0F = take_bit 4 b" by (simp add: take_bit_eq_mask mask_eq_exp_minus_1)
  moreover have "unat (take_bit 4 b) = unat b mod 16" by (simp add: take_bit_eq_mod unat_mod)
  ultimately show ?thesis by simp
qed

lemma nibbles_join: "push_bit 4 (drop_bit 4 b) OR (b AND 0x0F) = (b :: u8)"
proof -
  have "b AND 0x0F = take_bit 4 b" by (simp add: take_bit_eq_mask mask_eq_exp_minus_1)
  then show ?thesis by (simp add: bit_eq_iff bit_simps) (auto simp: bit_simps)
qed

lemma bytes_of_modhex [simp]: "bytes_of_letters (modhex bs) = bs"
proof (induction bs)
  case (Cons b bs)
  have "nibble (MODHEX ! unat (drop_bit 4 b)) = drop_bit 4 b" "nibble (MODHEX ! unat (b AND 0x0F)) = b AND 0x0F"
    using nibble_MODHEX [OF high_nibble, of b] nibble_MODHEX [OF low_nibble, of b] by simp_all
  with Cons show ?case by (simp add: modhex_def nibbles_join)
qed (simp add: modhex_def)

lemma length_modhex [simp]: "length (modhex bs) = 2 * length bs"
  by (induction bs) (simp_all add: modhex_def)

lemma set_modhex: "set (modhex bs) \<subseteq> set MODHEX"
proof -
  have l: "length MODHEX = 16" by (simp add: MODHEX_def)
  show ?thesis
    using high_nibble low_nibble by (auto simp: modhex_def l intro!: nth_mem)
qed

lemma MODHEX_plain: "c \<in> set MODHEX \<Longrightarrow> \<not> skipped c \<and> to_ascii_lowercase c = c"
proof -
  have "list_all (\<lambda>c. \<not> skipped c \<and> to_ascii_lowercase c = c) MODHEX" by code_simp
  then show "c \<in> set MODHEX \<Longrightarrow> \<not> skipped c \<and> to_ascii_lowercase c = c" by (simp add: list_all_iff)
qed

lemma letters_of_plain: "set s \<subseteq> set MODHEX \<Longrightarrow> letters_of s = s"
  by (induction s) (auto simp: letters_of_def MODHEX_plain)

lemma letters_of_append [simp]: "letters_of (s @ t) = letters_of s @ letters_of t"
  by (simp add: letters_of_def)

lemma letters_of_skipped: "list_all skipped s \<Longrightarrow> letters_of s = []"
  by (auto simp: letters_of_def filter_empty_conv list_all_iff)

lemma letter_count_letters: "letter_count s = length (letters_of s)"
  by (simp add: letter_count_def letters_of_def)


section \<open>The checksum, bit by bit\<close>

text \<open>The division of a stream of bits, the most significant first.\<close>

definition crc_bit :: "bool \<Rightarrow> u16 \<Rightarrow> u16" where
  "crc_bit b s = push_bit 1 s XOR (if bit s 15 \<noteq> b then 0x1021 else 0)"

definition byte_bits :: "u8 \<Rightarrow> bool list" where
  "byte_bits b = map (\<lambda>i. bit b (7 - i)) [0..<8]"

definition crc_bits :: "bool list \<Rightarrow> u16 \<Rightarrow> u16" where
  "crc_bits bs s = fold crc_bit bs s"

lemma and_top_bit: "(c :: u16) AND 0x8000 \<noteq> 0 \<longleftrightarrow> bit c 15"
proof -
  have "(0x8000 :: u16) = 2 ^ 15" by simp
  then show ?thesis by (simp only: and_exp_eq_0_iff_not_bit not_not)
qed

lemma crc_shift_xor:
  "i < 8 \<Longrightarrow> crc_shift (s XOR push_bit (8 + i) (ucast (b :: u8))) =
     crc_bit (bit b (7 - i)) s XOR push_bit (9 + i) (ucast b)"
proof -
  assume i: "i < 8"
  let ?x = "push_bit (8 + i) (ucast b) :: u16"
  have top: "bit (s XOR ?x) 15 \<longleftrightarrow> bit s 15 \<noteq> bit b (7 - i)"
    using i by (auto simp: bit_simps)
  have sh: "push_bit 1 (s XOR ?x) = push_bit 1 s XOR push_bit (9 + i) (ucast b)"
    by (simp add: push_bit_xor)
  show ?thesis
    unfolding crc_shift_def and_top_bit top sh crc_bit_def
    by (simp add: xor.assoc xor.commute xor.left_commute)
qed

lemma crc_byte_bits: "crc_byte b s = crc_bits (byte_bits b) s"
proof -
  have step: "(crc_shift ^^ n) (s XOR push_bit 8 (ucast b)) =
      crc_bits (map (\<lambda>i. bit b (7 - i)) [0..<n]) s XOR push_bit (8 + n) (ucast b)" if "n \<le> 8" for n
    using that
  proof (induction n)
    case (Suc n)
    then show ?case using crc_shift_xor [of n] by (simp add: crc_bits_def)
  qed (simp add: crc_bits_def)
  have "push_bit 16 (ucast b) = (0 :: u16)" by (simp add: bit_eq_iff bit_simps)
  with step [of 8] show ?thesis by (simp add: crc_byte_def byte_bits_def)
qed

lemma crc16_bits: "crc16 bs = crc_bits (concat (map byte_bits bs)) 0xFFFF"
proof -
  have "fold crc_byte bs s = crc_bits (concat (map byte_bits bs)) s" for s
    by (induction bs arbitrary: s) (simp_all add: crc_byte_bits crc_bits_def)
  then show ?thesis by (simp add: crc16_def)
qed


section \<open>Errors within sixteen bits\<close>

lemma crc_bit_0: "bit (crc_bit b s) 0 \<longleftrightarrow> bit s 15 \<noteq> b"
  unfolding crc_bit_def bit_xor_iff bit_push_bit_iff by simp

lemma crc_bit_Suc:
  "Suc i < 16 \<Longrightarrow> bit (crc_bit b s) (Suc i) \<longleftrightarrow> bit s i \<noteq> ((bit s 15 \<noteq> b) \<and> bit (0x1021 :: u16) (Suc i))"
  unfolding crc_bit_def bit_xor_iff bit_push_bit_iff by simp

definition agree :: "nat \<Rightarrow> u16 \<Rightarrow> u16 \<Rightarrow> bool" where
  "agree j s t \<longleftrightarrow> (\<forall>i < j. bit s i = bit t i)"

text \<open>
  Going back one step loses one low bit of agreement: the lowest bit after the step says
  whether the divisor was subtracted.
\<close>

lemma agree_back:
  assumes "agree (Suc j) (crc_bit b s) (crc_bit c t)" and "j < 16"
  shows "(bit s 15 \<noteq> b) = (bit t 15 \<noteq> c)" and "agree j s t"
proof -
  show m: "(bit s 15 \<noteq> b) = (bit t 15 \<noteq> c)"
    using assms(1) by (auto simp: agree_def crc_bit_0 dest!: spec [of _ 0])
  show "agree j s t"
    unfolding agree_def
  proof (intro allI impI)
    fix i assume i: "i < j"
    then have "bit (crc_bit b s) (Suc i) = bit (crc_bit c t) (Suc i)"
      using assms(1) by (simp add: agree_def)
    then show "bit s i = bit t i"
      using i assms(2) m by (auto simp: crc_bit_Suc)
  qed
qed

lemma agree_back_many:
  "length us = length vs \<Longrightarrow> j + length us \<le> 16 \<Longrightarrow>
   agree (j + length us) (crc_bits us s) (crc_bits vs t) \<Longrightarrow> agree j s t"
proof (induction us vs arbitrary: s t j rule: list_induct2)
  case (Cons u us v vs)
  have "agree (Suc j) (crc_bit u s) (crc_bit v t)"
  proof (rule Cons.IH)
    show "Suc j + length us \<le> 16" using Cons.prems(1) by simp
    show "agree (Suc j + length us) (crc_bits us (crc_bit u s)) (crc_bits vs (crc_bit v t))"
      using Cons.prems(2) by (simp add: crc_bits_def)
  qed
  then show ?case by (rule agree_back(2)) (use Cons.prems(1) in simp)
qed (simp add: crc_bits_def)

text \<open>
  At most sixteen bits from one state to one state: they are the same bits. Going back from
  the end leaves at least one bit of agreement after the first step.
\<close>

lemma crc_bits_inject:
  "length us = length vs \<Longrightarrow> length us \<le> 16 \<Longrightarrow> crc_bits us s = crc_bits vs s \<Longrightarrow> us = vs"
proof (induction us vs arbitrary: s rule: list_induct2)
  case (Cons u us v vs)
  have "agree (16 - length us + length us) (crc_bits us (crc_bit u s)) (crc_bits vs (crc_bit v s))"
    using Cons.prems by (simp add: crc_bits_def agree_def)
  then have "agree (16 - length us) (crc_bit u s) (crc_bit v s)"
    by (rule agree_back_many [rotated 2]) (use Cons.hyps Cons.prems(1) in simp_all)
  moreover have "16 - length us = Suc (15 - length us)" using Cons.prems by simp
  ultimately have "agree (Suc (15 - length us)) (crc_bit u s) (crc_bit v s)" by simp
  moreover have "15 - length us < 16" by simp
  ultimately have "(bit s 15 \<noteq> u) = (bit s 15 \<noteq> v)" by (rule agree_back(1))
  then have "u = v" by auto
  moreover have "us = vs"
    using Cons.prems \<open>u = v\<close> by (intro Cons.IH [of "crc_bit u s"]) (simp_all add: crc_bits_def)
  ultimately show ?case by simp
qed simp

text \<open>Once two states differ, the same bits keep them different.\<close>

lemma crc_bit_injective: "crc_bit b s = crc_bit b t \<Longrightarrow> s = t"
proof -
  assume e: "crc_bit b s = crc_bit b t"
  then have a: "agree (Suc 15) (crc_bit b s) (crc_bit b t)" by (simp add: agree_def)
  have "bit s n = bit t n" if "n < 16" for n
  proof (cases "n = 15")
    case True
    then show ?thesis using agree_back(1) [OF a] by auto
  next
    case False
    then show ?thesis using agree_back(2) [OF a] that by (simp add: agree_def)
  qed
  then show "s = t" by (intro bit_eqI) simp
qed

lemma crc_bits_injective: "crc_bits us s = crc_bits us t \<Longrightarrow> s = t"
  by (induction us arbitrary: s t) (auto simp: crc_bits_def dest: crc_bit_injective)

lemma crc_bits_append: "crc_bits (us @ vs) s = crc_bits vs (crc_bits us s)"
  by (simp add: crc_bits_def)

text \<open>Any two streams that differ within sixteen bits end in different states.\<close>

lemma burst:
  assumes "length us = length vs" and "length us \<le> 16" and "us \<noteq> vs"
  shows "crc_bits (pre @ us @ post) s \<noteq> crc_bits (pre @ vs @ post) s"
  using assms crc_bits_inject [of us vs "crc_bits pre s"] crc_bits_injective [of post]
  by (auto simp: crc_bits_append)

text \<open>Dividing what is left by itself: a text followed by its checksum ends in zero, and only then.\<close>

definition word_bits :: "u16 \<Rightarrow> bool list" where
  "word_bits w = map (\<lambda>i. bit w (15 - i)) [0..<16]"

lemma crc_residue: "crc_bits (word_bits s) s = 0"
proof -
  have step: "crc_bits (map (\<lambda>i. bit s (15 - i)) [0..<n]) s = push_bit n s" if "n \<le> 16" for n
    using that
  proof (induction n)
    case (Suc n)
    then have "crc_bits (map (\<lambda>i. bit s (15 - i)) [0..<Suc n]) s = crc_bit (bit s (15 - n)) (push_bit n s)"
      by (simp add: crc_bits_def)
    also have "bit (push_bit n s) 15 = bit s (15 - n)" using Suc.prems by (simp add: bit_simps)
    then have "crc_bit (bit s (15 - n)) (push_bit n s) = push_bit (Suc n) s" by (simp add: crc_bit_def)
    finally show ?case .
  qed (simp add: crc_bits_def)
  have "push_bit 16 s = 0" by (simp add: bit_eq_iff bit_simps)
  then show ?thesis using step [of 16] by (simp add: word_bits_def)
qed

lemma word_bits_inject: "word_bits s = word_bits t \<Longrightarrow> s = t"
proof -
  assume "word_bits s = word_bits t"
  then have e: "bit s (15 - i) = bit t (15 - i)" if "i < 16" for i
    using that by (auto simp: word_bits_def)
  have "bit s n = bit t n" if "n < 16" for n using e [of "15 - n"] that by simp
  then show ?thesis by (intro bit_eqI) simp
qed

lemma crc_residue_iff: "crc_bits (word_bits w) s = 0 \<longleftrightarrow> w = s"
  using crc_bits_inject [of "word_bits w" "word_bits s" s] crc_residue [of s] word_bits_inject [of w s]
  by (auto simp: word_bits_def)



section \<open>Reading a share\<close>

text \<open>The bits of letters: four each. The sixteen bits of the last four are the checksum.\<close>

definition all_bits :: "u8 list \<Rightarrow> bool list" where
  "all_bits bs = concat (map byte_bits bs)"

lemma all_bits_append [simp]: "all_bits (bs @ cs) = all_bits bs @ all_bits cs"
  by (simp add: all_bits_def)

lemma length_byte_bits [simp]: "length (byte_bits b) = 8"
  by (simp add: byte_bits_def)

lemma be_bytes_bits: "all_bits (to_be_bytes w) = word_bits w"
proof (rule nth_equalityI)
  show "length (all_bits (to_be_bytes w)) = length (word_bits w)"
    by (simp add: all_bits_def to_be_bytes_def byte_bits_def word_bits_def)
  fix i assume "i < length (all_bits (to_be_bytes w))"
  then have "i < 16" by (simp add: all_bits_def to_be_bytes_def byte_bits_def)
  then show "all_bits (to_be_bytes w) ! i = word_bits w ! i"
    by (cases "i < 8") (auto simp: all_bits_def to_be_bytes_def byte_bits_def word_bits_def nth_append bit_simps
        intro!: arg_cong [where f = "bit w"])
qed

lemma byte_bits_inject: "byte_bits a = byte_bits b \<Longrightarrow> a = b"
proof -
  assume "byte_bits a = byte_bits b"
  then have e: "bit a (7 - i) = bit b (7 - i)" if "i < 8" for i using that by (auto simp: byte_bits_def)
  have "bit a n = bit b n" if "n < 8" for n using e [of "7 - n"] that by simp
  then show "a = b" by (intro bit_eqI) simp
qed

lemma to_be_bytes_of_two: "\<exists>w. to_be_bytes w = [a, b]"
proof -
  have "\<not> bit b (8 + n)" for n using bit_imp_le_length [of b "8 + n"] by auto
  then have "to_be_bytes (push_bit 8 (ucast a) OR ucast b) = [a, b]"
    unfolding to_be_bytes_def by (auto intro!: bit_eqI simp: bit_simps dest: bit_imp_le_length)
  then show ?thesis by blast
qed

text \<open>What \<open>read\<close> checks is that the whole share divides.\<close>

lemma checksum_iff:
  assumes "length b = LEN"
  shows "to_be_bytes (crc16 (take (LEN - 2) b)) = drop (LEN - 2) b \<longleftrightarrow> crc_bits (all_bits b) 0xFFFF = 0"
proof -
  obtain x y where xy: "drop (LEN - 2) b = [x, y]"
  proof -
    have "length (drop (LEN - 2) b) = 2" using assms by (simp add: LEN_def)
    then show ?thesis using that by (cases "drop (LEN - 2) b" rule: list.exhaust; cases "tl (drop (LEN - 2) b)") auto
  qed
  obtain w where w: "to_be_bytes w = [x, y]" using to_be_bytes_of_two by blast
  have "all_bits b = all_bits (take (LEN - 2) b) @ word_bits w"
    using xy w be_bytes_bits [of w] by (metis all_bits_append append_take_drop_id)
  then have "crc_bits (all_bits b) 0xFFFF = crc_bits (word_bits w) (crc16 (take (LEN - 2) b))"
    by (simp add: crc_bits_append crc16_bits all_bits_def)
  then have "crc_bits (all_bits b) 0xFFFF = 0 \<longleftrightarrow> w = crc16 (take (LEN - 2) b)"
    by (simp add: crc_residue_iff)
  moreover have "to_be_bytes v = to_be_bytes w \<longleftrightarrow> v = w" for v
    using be_bytes_bits [of v] be_bytes_bits [of w] word_bits_inject by metis
  ultimately show ?thesis using xy w by auto
qed

text \<open>The bits a letter stands for.\<close>

definition letter_bits :: "char \<Rightarrow> bool list" where
  "letter_bits c = map (\<lambda>i. bit (nibble c) (3 - i)) [0..<4]"

lemma nibble_bound: "c \<in> set MODHEX \<Longrightarrow> nibble c < 16"
proof -
  have "list_all (\<lambda>c. nibble c < 16) MODHEX" by (simp add: nibble_def MODHEX_def)
  then show "c \<in> set MODHEX \<Longrightarrow> nibble c < 16" by (simp add: list_all_iff)
qed

lemma nibble_high_bits: "c \<in> set MODHEX \<Longrightarrow> 4 \<le> n \<Longrightarrow> \<not> bit (nibble c) n"
proof -
  assume c: "c \<in> set MODHEX" and n: "4 \<le> n"
  have "take_bit 4 (nibble c) = nibble c"
    using nibble_bound [OF c] by (simp add: take_bit_eq_mod mod_word_less)
  then show ?thesis using n by (metis bit_take_bit_iff linorder_not_less)
qed

lemma pair_bits:
  assumes "a \<in> set MODHEX" and "b \<in> set MODHEX"
  shows "byte_bits (push_bit 4 (nibble a) OR nibble b) = letter_bits a @ letter_bits b"
proof (rule nth_equalityI)
  show "length (byte_bits (push_bit 4 (nibble a) OR nibble b)) = length (letter_bits a @ letter_bits b)"
    by (simp add: byte_bits_def letter_bits_def)
  fix i assume "i < length (byte_bits (push_bit 4 (nibble a) OR nibble b))"
  then have i: "i < 8" by (simp add: byte_bits_def)
  show "byte_bits (push_bit 4 (nibble a) OR nibble b) ! i = (letter_bits a @ letter_bits b) ! i"
  proof (cases "i < 4")
    case True
    then have "bit (push_bit 4 (nibble a) OR nibble b) (7 - i) = bit (nibble a) (3 - i)"
      using nibble_high_bits [OF assms(2), of "7 - i"] by (auto simp: bit_simps)
    with True i show ?thesis by (simp add: byte_bits_def letter_bits_def nth_append)
  next
    case False
    then have "bit (push_bit 4 (nibble a) OR nibble b) (7 - i) = bit (nibble b) (7 - i)"
      using i by (auto simp: bit_simps)
    moreover have "[0..<4] ! (i - 4) = i - 4" "3 - (i - 4) = 7 - i" using False i by auto
    ultimately show ?thesis using False i by (simp add: byte_bits_def letter_bits_def nth_append)
  qed
qed

lemma bits_of_letters:
  "set l \<subseteq> set MODHEX \<Longrightarrow> even (length l) \<Longrightarrow> all_bits (bytes_of_letters l) = concat (map letter_bits l)"
  by (induction l rule: bytes_of_letters.induct) (auto simp: all_bits_def pair_bits)

lemma length_bytes_of_letters: "length (bytes_of_letters l) = length l div 2"
  by (induction l rule: bytes_of_letters.induct) auto

lemma letter_bits_inject:
  assumes "a \<in> set MODHEX" and "b \<in> set MODHEX" and "letter_bits a = letter_bits b"
  shows "a = b"
proof -
  have "bit (nibble a) n = bit (nibble b) n" for n
  proof (cases "n < 4")
    case True
    have "letter_bits a ! (3 - n) = letter_bits b ! (3 - n)" using assms(3) by simp
    with True show ?thesis by (auto simp: letter_bits_def)
  next
    case False
    then show ?thesis using nibble_high_bits assms(1,2) by simp
  qed
  then have "nibble a = nibble b" by (intro bit_eqI)
  moreover have "MODHEX ! unat (nibble c) = c" if "c \<in> set MODHEX" for c
  proof -
    have "list_all (\<lambda>c. MODHEX ! unat (nibble c) = c) MODHEX" by code_simp
    then show ?thesis using that by (simp add: list_all_iff)
  qed
  ultimately show ?thesis using assms(1,2) by metis
qed


lemma letters_bits_inject:
  "length l = length l' \<Longrightarrow> set l \<subseteq> set MODHEX \<Longrightarrow> set l' \<subseteq> set MODHEX \<Longrightarrow>
   concat (map letter_bits l) = concat (map letter_bits l') \<Longrightarrow> l = l'"
proof (induction l l' rule: list_induct2)
  case (Cons a l b l')
  have "length (letter_bits a) = length (letter_bits b)" by (simp add: letter_bits_def)
  with Cons.prems have "letter_bits a = letter_bits b" "concat (map letter_bits l) = concat (map letter_bits l')"
    by simp_all
  with Cons letter_bits_inject show ?case by simp
qed simp

text \<open>What \<open>read\<close> answers, by the letters of the text alone.\<close>

lemma read_checked:
  assumes "set (letters_of t) \<subseteq> set MODHEX" and "length (letters_of t) = LEN * 2"
  shows "read t at = Inl (Mistyped at) \<longleftrightarrow> crc_bits (concat (map letter_bits (letters_of t))) 0xFFFF \<noteq> 0"
proof -
  let ?b = "bytes_of_letters (letters_of t)"
  have "length ?b = LEN" using assms(2) by (simp add: length_bytes_of_letters)
  note sum = checksum_iff [OF this]
  have "find (\<lambda>c. c \<notin> set MODHEX) (letters_of t) = None" using assms(1) by (auto simp: find_None_iff)
  then have "read t at = Inl (Mistyped at) \<longleftrightarrow> to_be_bytes (crc16 (take (LEN - 2) ?b)) \<noteq> drop (LEN - 2) ?b"
    using assms(2) by (simp add: read_def Let_def)
  then show ?thesis using sum bits_of_letters [OF assms(1)] assms(2) by simp
qed

lemma read_Inr_letters:
  assumes "read t at = Inr s"
  shows "set (letters_of t) \<subseteq> set MODHEX \<and> length (letters_of t) = LEN * 2"
proof -
  have "find (\<lambda>c. c \<notin> set MODHEX) (letters_of t) = None"
    using assms by (auto simp: read_def Let_def split: option.splits)
  moreover from this have "length (letters_of t) = LEN * 2"
    using assms by (auto simp: read_def Let_def split: if_splits)
  ultimately show ?thesis by (auto simp: find_None_iff)
qed

text \<open>C11: A share typed with an error of up to four letters next to each other, that is sixteen
  bits, is always refused as mistyped: if a text reads as a share, a text whose letters
  differ from it only there (one letter wrong, two neighbours swapped) never does, wherever
  the error is, the checksum included.
\<close>

theorem mistyping_detected:
  assumes "read t at = Inr s"
    and "letters_of t = pre @ w @ post" and "letters_of t' = pre @ w' @ post"
    and "length w' = length w" and "length w \<le> 4" and "w' \<noteq> w" and "set w' \<subseteq> set MODHEX"
  shows "read t' at' = Inl (Mistyped at')"
proof -
  let ?bits = "\<lambda>l. concat (map letter_bits l)"
  have t: "set (letters_of t) \<subseteq> set MODHEX" "length (letters_of t) = LEN * 2"
    using read_Inr_letters [OF assms(1)] by auto
  have t': "set (letters_of t') \<subseteq> set MODHEX" "length (letters_of t') = LEN * 2"
    using t assms(2-4,7) by auto
  have zero: "crc_bits (?bits (pre @ w @ post)) 0xFFFF = 0"
    using read_checked [OF t, of at] assms(1,2) by auto
  have len: "length (?bits l) = 4 * length l" for l by (induction l) (simp_all add: letter_bits_def)
  have "?bits w \<noteq> ?bits w'"
    using letters_bits_inject [of w w'] assms(2,4,6,7) t(1) by auto
  then have "crc_bits (?bits pre @ ?bits w @ ?bits post) 0xFFFF \<noteq> crc_bits (?bits pre @ ?bits w' @ ?bits post) 0xFFFF"
    using assms(4,5) by (intro burst) (simp_all add: len)
  then show ?thesis using zero read_checked [OF t'] assms(3) by simp
qed

section \<open>Writing and reading\<close>

lemma letters_of_joined:
  "list_all skipped sep \<Longrightarrow> letters_of (join_with sep ws) = letters_of (concat ws)"
proof (induction ws)
  case (Cons w ws)
  then show ?case by (cases ws) (simp_all add: letters_of_skipped)
qed simp

lemma length_share_bytes: "share_wf s \<Longrightarrow> length (share_bytes s) = LEN"
  by (simp add: share_wf_def share_bytes_def share_body_def to_be_bytes_def LEN_def KEY_LEN_def)

lemma nibble_pair:
  assumes "t < 16" and "c < (16 :: u8)"
  shows "drop_bit 4 (push_bit 4 t OR c) = t" and "(push_bit 4 t OR c) AND 0x0F = c"
proof -
  have t: "take_bit 4 t = t" "take_bit 4 c = c" using assms by (simp_all add: take_bit_eq_mod mod_word_less)
  have hi: "bit t n \<Longrightarrow> n < 4" "bit c n \<Longrightarrow> n < 4" for n
    using t by (metis bit_take_bit_iff)+
  show "drop_bit 4 (push_bit 4 t OR c) = t"
    by (rule bit_eqI) (auto simp: bit_simps dest: hi)
  have "(push_bit 4 t OR c) AND mask 4 = c"
    by (rule bit_eqI) (auto simp: bit_simps dest: hi)
  then show "(push_bit 4 t OR c) AND 0x0F = c" by (simp add: mask_eq_exp_minus_1)
qed

lemma read_letters:
  assumes "share_wf s" and "letters_of t = modhex (share_bytes s)"
  shows "read t at = Inr s"
proof -
  let ?b = "share_bytes s"
  have none: "find (\<lambda>c. c \<notin> set MODHEX) (modhex ?b) = None"
    using set_modhex by (auto simp: find_None_iff)
  have len: "length ?b = LEN" by (rule length_share_bytes [OF assms(1)])
  have bl: "length (share_body s) = LEN - 2"
    using assms(1) by (simp add: share_wf_def share_body_def LEN_def KEY_LEN_def)
  obtain x y where xy: "sh_split s = [x, y]"
    using assms(1) by (auto simp: share_wf_def length_Suc_conv numeral_2_eq_2)
  have sum: "to_be_bytes (crc16 (take (LEN - 2) ?b)) = drop (LEN - 2) ?b"
    using bl by (simp add: share_bytes_def)
  have b: "?b = VERSION # x # y # (push_bit 4 (sh_threshold s) OR sh_count s) # sh_index s # sh_y s @
      to_be_bytes (crc16 (share_body s))"
    by (simp add: share_bytes_def) (simp add: share_body_def xy)
  have "read t at = Inr \<lparr>sh_split = [?b ! 1, ?b ! 2], sh_threshold = drop_bit 4 (?b ! 3),
      sh_count = ?b ! 3 AND 0x0F, sh_index = ?b ! 4, sh_y = take KEY_LEN (drop 5 ?b)\<rparr>"
    unfolding read_def assms(2) using none len sum by (simp add: Let_def) (simp add: b)
  also have "\<dots> = Inr s"
    using assms(1) nibble_pair [of "sh_threshold s" "sh_count s"] by (simp add: b xy share_wf_def)
  finally show ?thesis .
qed

lemma read_groups:
  assumes "share_wf s" and "list_all skipped sep"
  shows "read (join_with sep (groups s)) at = Inr s"
  by (rule read_letters [OF assms(1)])
    (simp add: letters_of_joined [OF assms(2)] groups_def concat_chunks letters_of_plain set_modhex)

text \<open>A share typed back as it was printed is the same share: its groups joined by any
  spaces and dashes read back to it, whatever its place.
\<close>

theorem share_roundtrip:
  assumes "share_wf s" and "list_all skipped sep"
  shows "read (join_with sep (groups s)) at = Inr s"
  by (rule read_groups [OF assms])


section \<open>Combining\<close>

lemma read_all_texts: "list_all2 (\<lambda>t s. \<forall>at. read t at = Inr s) ts ss \<Longrightarrow> read_all at ts = Inr ss"
  by (induction arbitrary: at rule: list_all2_induct) auto

lemma read_all_Inr: "read_all at ts = Inr ss \<Longrightarrow> length ss = length ts"
  by (induction ts arbitrary: at ss) (auto simp: and_then_Inr_conv)

definition same_split :: "share \<Rightarrow> share \<Rightarrow> bool" where
  "same_split a b \<longleftrightarrow> sh_split a = sh_split b \<and> sh_threshold a = sh_threshold b \<and> sh_count a = sh_count b"

lemma check_shares_Cons:
  "check_shares first at before (s # rest) = Inr () \<longleftrightarrow>
     same_split s first \<and> sh_index s \<notin> sh_index ` set before \<and>
     check_shares first (Suc at) (before @ [s]) rest = Inr ()"
proof -
  have "list_ex (\<lambda>other. sh_index other = sh_index s) before \<longleftrightarrow> sh_index s \<in> sh_index ` set before"
    unfolding list_ex_iff image_iff by metis
  then show ?thesis by (auto simp: same_split_def)
qed

lemma check_shares_Inr:
  "check_shares first at before shares = Inr () \<longleftrightarrow>
     list_all (\<lambda>s. same_split s first) shares \<and> sh_index ` set before \<inter> sh_index ` set shares = {} \<and>
     distinct (map sh_index shares)"
proof (induction shares arbitrary: at before)
  case (Cons s shares)
  show ?case unfolding check_shares_Cons Cons.IH by auto
qed simp

lemma combine_checked:
  assumes "read_all 1 texts = Inr (first # rest)" and "check_shares first 1 [] (first # rest) = Inr ()"
    and "unat (sh_threshold first) \<le> length (first # rest)"
  shows "combine cr texts =
    (case recover cr (sh_threshold first) (List.map_filter (\<lambda>s. dealt_of cr (sh_index s # sh_y s)) (first # rest)) of
       Inl e \<Rightarrow> Inl (WrongKey (share_split_id first @ '' ('' @ e @ '')''))
     | Inr key \<Rightarrow>
         (case identity_from_bytes cr key of
            Some i \<Rightarrow>
              if split_id_of cr (to_public cr i) = sh_split first
              then Inr \<lparr>key_identity = i, key_split_id = share_split_id first\<rparr>
              else Inl (WrongKey (share_split_id first))
          | None \<Rightarrow> Inl (WrongKey (share_split_id first))))"
proof -
  have "\<not> length (first # rest) < unat (sh_threshold first)" using assms(3) by simp
  then show ?thesis
    unfolding combine_def assms(1) and_then_simps list.case assms(2) by (simp only: if_False)
qed

lemma combine_Inr:
  assumes "combine cr texts = Inr k"
  obtains first rest i where "read_all 1 texts = Inr (first # rest)"
    "check_shares first 1 [] (first # rest) = Inr ()"
    "unat (sh_threshold first) \<le> length (first # rest)"
    "split_id_of cr (to_public cr i) = sh_split first"
    "k = \<lparr>key_identity = i, key_split_id = share_split_id first\<rparr>"
proof -
  obtain shares where sh: "read_all 1 texts = Inr shares"
    using assms by (cases "read_all 1 texts") (simp_all add: combine_def)
  obtain first rest where f: "shares = first # rest"
    using assms sh by (cases shares) (simp_all add: combine_def)
  have chk: "check_shares first 1 [] (first # rest) = Inr ()"
    using assms unfolding combine_def sh f and_then_simps list.case
    by (cases "check_shares first 1 [] (first # rest)") simp_all
  have long: "unat (sh_threshold first) \<le> length (first # rest)"
    using assms unfolding combine_def sh f and_then_simps list.case chk
    by (cases "length (first # rest) < unat (sh_threshold first)") (simp_all only: if_True if_False, simp_all)
  note sh' = sh [unfolded f]
  have "\<exists>i. split_id_of cr (to_public cr i) = sh_split first \<and>
      k = \<lparr>key_identity = i, key_split_id = share_split_id first\<rparr>"
    using assms unfolding combine_checked [OF sh' chk long]
    by (auto split: sum.splits option.splits if_splits)
  then show ?thesis using that [OF sh' chk long] by blast
qed

text \<open>C13: A key is only ever rebuilt from shares that all read, all belong to one split with one
  threshold, have distinct indices and reach that threshold; and the key's public half has
  the identifier printed on the shares.
\<close>

theorem combine_sound:
  assumes "combine cr texts = Inr k"
  shows "\<exists>shares first rest. read_all 1 texts = Inr shares \<and> shares = first # rest \<and>
    length shares = length texts \<and> unat (sh_threshold first) \<le> length texts \<and>
    distinct (map sh_index shares) \<and>
    sh_split ` set shares = {sh_split first} \<and> sh_threshold ` set shares = {sh_threshold first} \<and>
    split_id_of cr (to_public cr (key_identity k)) = sh_split first \<and>
    key_split_id k = split_id cr (to_public cr (key_identity k))"
proof -
  obtain first rest i where c: "read_all 1 texts = Inr (first # rest)"
      "check_shares first 1 [] (first # rest) = Inr ()"
      "unat (sh_threshold first) \<le> length (first # rest)"
      "split_id_of cr (to_public cr i) = sh_split first"
      "k = \<lparr>key_identity = i, key_split_id = share_split_id first\<rparr>"
    using combine_Inr [OF assms] by blast
  have all: "list_all (\<lambda>s. same_split s first) (first # rest)" "distinct (map sh_index (first # rest))"
    using c(2) unfolding check_shares_Inr by blast+
  have "sh_split ` set (first # rest) = {sh_split first}" "sh_threshold ` set (first # rest) = {sh_threshold first}"
    using all(1) by (auto simp: list_all_iff same_split_def)
  with c all(2) read_all_Inr [OF c(1)] show ?thesis
    by (intro exI [of _ "first # rest"] exI [of _ first] exI [of _ rest]) (simp add: share_split_id_def split_id_def)
qed


section \<open>Splitting and combining\<close>

text \<open>
  What the crates document. \<open>blahaj\<close>: a dealer's shares have distinct indices, are one byte
  longer than the secret, are read back from their bytes, and any of them that are enough
  recover the secret. \<open>age\<close>: an identity is the upper-case bech32 of 32 bytes under its
  prefix, and is read back from it.
\<close>

definition sharing_ok :: "('id, 'rec, 'dealt, 'rand) crypto \<Rightarrow> bool" where
  "sharing_ok cr \<longleftrightarrow>
     (\<forall>r t key. 2 \<le> t \<longrightarrow> inj_on (\<lambda>n. hd (dealt_bytes cr (deal cr r t key n))) {..<255} \<and>
        (\<forall>n < 255. length (dealt_bytes cr (deal cr r t key n)) = 1 + length key \<and>
           dealt_of cr (dealt_bytes cr (deal cr r t key n)) = Some (deal cr r t key n)) \<and>
        (\<forall>ns. distinct ns \<longrightarrow> set ns \<subseteq> {..<255} \<longrightarrow> unat t \<le> length ns \<longrightarrow>
           recover cr t (map (deal cr r t key) ns) = Inr key))"

definition identities_ok :: "('id, 'rec, 'dealt, 'rand) crypto \<Rightarrow> bool" where
  "identities_ok cr \<longleftrightarrow>
     (\<forall>i. id_from_str cr (id_to_string cr i) = Some i \<and>
        (\<exists>data bs text. bech32_decode cr (id_to_string cr i) = Inr data \<and> from_base32 cr data = Inr bs \<and>
           length bs = KEY_LEN \<and> bech32_encode cr IDENTITY_HRP bs = Some text \<and>
           map to_ascii_uppercase text = id_to_string cr i))"

lemma identity_back:
  assumes "identities_ok cr"
  obtains key where "identity_bytes cr i = Inr key" "length key = KEY_LEN" "identity_from_bytes cr key = Some i"
proof -
  obtain data bs written where i: "bech32_decode cr (id_to_string cr i) = Inr data" "from_base32 cr data = Inr bs"
      "length bs = KEY_LEN" "bech32_encode cr IDENTITY_HRP bs = Some written"
      "map to_ascii_uppercase written = id_to_string cr i" "id_from_str cr (id_to_string cr i) = Some i"
    using assms unfolding identities_ok_def by blast
  show ?thesis by (rule that [of bs]) (simp_all add: identity_bytes_def identity_from_bytes_def i)
qed

lemma split_shares:
  assumes "sharing_ok cr" and "identities_ok cr"
    and "2 \<le> t" and "t \<le> n" and "n \<le> MAX_SHARES"
  obtains key where "identity_from_bytes cr key = Some (generate cr rand)" "length key = KEY_LEN"
    "split cr rand t n = Some (Inr \<lparr>ks_recipient = to_public cr (generate cr rand),
       ks_shares = map (\<lambda>m. \<lparr>sh_split = split_id_of cr (to_public cr (generate cr rand)),
         sh_threshold = t, sh_count = n, sh_index = hd (dealt_bytes cr (deal cr rand t key m)),
         sh_y = tl (dealt_bytes cr (deal cr rand t key m))\<rparr>) [0..<unat n]\<rparr>)"
proof -
  obtain key where key: "identity_bytes cr (generate cr rand) = Inr key" "length key = KEY_LEN"
      "identity_from_bytes cr key = Some (generate cr rand)"
    using identity_back [OF assms(2)] by blast
  let ?i = "split_id_of cr (to_public cr (generate cr rand))"
  have n: "unat n < 255" using assms(5) by (simp add: MAX_SHARES_def word_le_nat_alt)
  have one: "share_of_dealt cr ?i t n (deal cr rand t key m) =
      Some \<lparr>sh_split = ?i, sh_threshold = t, sh_count = n, sh_index = hd (dealt_bytes cr (deal cr rand t key m)),
         sh_y = tl (dealt_bytes cr (deal cr rand t key m))\<rparr>" if "m < unat n" for m
  proof -
    have "length (dealt_bytes cr (deal cr rand t key m)) = 1 + KEY_LEN"
      using assms(1,3) that n key(2) unfolding sharing_ok_def by simp
    then show ?thesis by (cases "dealt_bytes cr (deal cr rand t key m)") (simp_all add: share_of_dealt_def)
  qed
  have some: "those (map (\<lambda>m. Some (f m)) xs) = Some (map f xs)" for f :: "nat \<Rightarrow> share" and xs
    by (induction xs) simp_all
  have "those (map (\<lambda>m. share_of_dealt cr ?i t n (deal cr rand t key m)) [0..<unat n]) =
      those (map (\<lambda>m. Some \<lparr>sh_split = ?i, sh_threshold = t, sh_count = n,
         sh_index = hd (dealt_bytes cr (deal cr rand t key m)),
         sh_y = tl (dealt_bytes cr (deal cr rand t key m))\<rparr>) [0..<unat n])"
    by (rule arg_cong [where f = those], rule map_cong) (simp_all add: one)
  note dealt = this [unfolded some]
  have "\<not> (t < 2 \<or> n < t \<or> MAX_SHARES < n)" using assms(3-5) by auto
  then have "split cr rand t n = Some (Inr \<lparr>ks_recipient = to_public cr (generate cr rand),
       ks_shares = map (\<lambda>m. \<lparr>sh_split = ?i,
         sh_threshold = t, sh_count = n, sh_index = hd (dealt_bytes cr (deal cr rand t key m)),
         sh_y = tl (dealt_bytes cr (deal cr rand t key m))\<rparr>) [0..<unat n]\<rparr>)"
    unfolding split_def Let_def key(1) sum.case dealt by simp
  then show ?thesis by (rule that [OF key(3,2)])
qed

lemma combine_split:
  assumes "sharing_ok cr" and "identities_ok cr"
    and "2 \<le> t" and "t \<le> n" and "n \<le> MAX_SHARES"
    and "split cr rand t n = Some (Inr ks)"
    and "distinct ps" and "set ps \<subseteq> {..<unat n}" and "unat t \<le> length ps" and "list_all skipped sep"
  shows "combine cr (map (\<lambda>p. join_with sep (groups (ks_shares ks ! p))) ps) =
    Inr \<lparr>key_identity = generate cr rand, key_split_id = split_id cr (ks_recipient ks)\<rparr>"
proof -
  obtain key where key: "identity_from_bytes cr key = Some (generate cr rand)" "length key = KEY_LEN"
    and s: "split cr rand t n = Some (Inr \<lparr>ks_recipient = to_public cr (generate cr rand),
       ks_shares = map (\<lambda>m. \<lparr>sh_split = split_id_of cr (to_public cr (generate cr rand)),
         sh_threshold = t, sh_count = n, sh_index = hd (dealt_bytes cr (deal cr rand t key m)),
         sh_y = tl (dealt_bytes cr (deal cr rand t key m))\<rparr>) [0..<unat n]\<rparr>)"
    by (rule split_shares [OF assms(1-5)])
  define sh where "sh m = \<lparr>sh_split = split_id_of cr (to_public cr (generate cr rand)),
         sh_threshold = t, sh_count = n, sh_index = hd (dealt_bytes cr (deal cr rand t key m)),
         sh_y = tl (dealt_bytes cr (deal cr rand t key m))\<rparr>" for m
  have ks: "ks_recipient ks = to_public cr (generate cr rand)" "ks_shares ks = map sh [0..<unat n]"
    using assms(6) s by (auto simp: sh_def)
  have n: "unat n < 16" "unat n < 255" using assms(5) by (simp_all add: MAX_SHARES_def word_le_nat_alt)
  have len: "length (dealt_bytes cr (deal cr rand t key m)) = 1 + KEY_LEN" if "m < unat n" for m
    using assms(1,3) that n(2) key(2) unfolding sharing_ok_def by simp
  have wf: "share_wf (sh m)" if "m < unat n" for m
    using len [OF that] n(1) assms(4)
    by (simp add: share_wf_def sh_def split_id_of_def Let_def word_less_nat_alt word_le_nat_alt)
  have whole: "sh_index (sh m) # sh_y (sh m) = dealt_bytes cr (deal cr rand t key m)" if "m < unat n" for m
    using len [OF that] by (cases "dealt_bytes cr (deal cr rand t key m)") (simp_all add: sh_def)
  have "list_all2 (\<lambda>u s. \<forall>at. read u at = Inr s) (map (\<lambda>p. join_with sep (groups (ks_shares ks ! p))) ps) (map sh ps)"
    unfolding list_all2_map1 list_all2_map2
  proof (rule list.rel_refl_strong)
    fix p assume "p \<in> set ps"
    then have p: "p < unat n" using assms(8) by auto
    then have "ks_shares ks ! p = sh p" by (simp add: ks(2))
    then show "\<forall>at. read (join_with sep (groups (ks_shares ks ! p))) at = Inr (sh p)"
      using read_groups [OF wf [OF p] assms(10)] by simp
  qed
  then have all: "read_all 1 (map (\<lambda>p. join_with sep (groups (ks_shares ks ! p))) ps) = Inr (map sh ps)"
    by (rule read_all_texts)
  have "2 \<le> unat t" using assms(3) by (simp add: word_le_nat_alt)
  then obtain q qs where ps: "ps = q # qs" using assms(9) by (cases ps) auto
  have "inj_on (\<lambda>m. hd (dealt_bytes cr (deal cr rand t key m))) {..<255}"
    using assms(1,3) unfolding sharing_ok_def by blast
  then have "inj_on (\<lambda>m. hd (dealt_bytes cr (deal cr rand t key m))) (set ps)"
    by (rule inj_on_subset) (use assms(8) n(2) in auto)
  then have idx: "distinct (map sh_index (map sh ps))"
    using assms(7) by (simp add: distinct_map sh_def comp_def)
  have chk: "check_shares (sh q) 1 [] (sh q # map sh qs) = Inr ()"
    using idx unfolding check_shares_Inr by (simp add: ps list_all_iff same_split_def sh_def)
  have dealt: "List.map_filter (\<lambda>s. dealt_of cr (sh_index s # sh_y s)) (map sh ps) = map (deal cr rand t key) ps"
  proof -
    have "dealt_of cr (sh_index (sh p) # sh_y (sh p)) = Some (deal cr rand t key p)" if "p \<in> set ps" for p
      using that assms(1,3,8) n(2) whole [of p] unfolding sharing_ok_def by (auto simp: subset_iff)
    then show ?thesis by (induction ps) (simp_all add: List.map_filter_simps)
  qed
  have rec: "recover cr t (map (deal cr rand t key) ps) = Inr key"
  proof -
    have "set ps \<subseteq> {..<255}" using assms(8) n(2) by auto
    then show ?thesis using assms(1,3,7,9) unfolding sharing_ok_def by blast
  qed
  have long: "unat (sh_threshold (sh q)) \<le> length (sh q # map sh qs)"
    using assms(9) by (simp add: ps sh_def)
  have "combine cr (map (\<lambda>p. join_with sep (groups (ks_shares ks ! p))) ps) =
      (case recover cr t (map (deal cr rand t key) ps) of
         Inl e \<Rightarrow> Inl (WrongKey (share_split_id (sh q) @ '' ('' @ e @ '')''))
       | Inr key \<Rightarrow>
           (case identity_from_bytes cr key of
              Some i \<Rightarrow>
                if split_id_of cr (to_public cr i) = sh_split (sh q)
                then Inr \<lparr>key_identity = i, key_split_id = share_split_id (sh q)\<rparr>
                else Inl (WrongKey (share_split_id (sh q)))
            | None \<Rightarrow> Inl (WrongKey (share_split_id (sh q)))))"
    using combine_checked [OF _ chk long, of "map (\<lambda>p. join_with sep (groups (ks_shares ks ! p))) ps" cr] all dealt
    by (simp add: ps sh_def)
  then show ?thesis by (simp add: rec key(1) ks(1) sh_def share_split_id_def split_id_def)
qed


text \<open>C12: What is cut can be put back together: for crates that behave as documented, any
  threshold of the printed shares or more, in any order and typed with any spaces and
  dashes, rebuild the identity that was drawn, and the key carries the split's identifier.
\<close>

theorem split_then_combine:
  assumes "sharing_ok cr" and "identities_ok cr"
    and "2 \<le> t" and "t \<le> n" and "n \<le> MAX_SHARES"
    and "split cr rand t n = Some (Inr ks)"
    and "distinct ps" and "set ps \<subseteq> {..<unat n}" and "unat t \<le> length ps" and "list_all skipped sep"
  shows "combine cr (map (\<lambda>p. join_with sep (groups (ks_shares ks ! p))) ps) =
    Inr \<lparr>key_identity = generate cr rand, key_split_id = split_id cr (ks_recipient ks)\<rparr>"
  by (rule combine_split [OF assms])


section \<open>Lines\<close>

definition joined :: "string list \<Rightarrow> string" where
  "joined ls = concat (map (\<lambda>l. l @ '' '') ls)"

lemma joined_append [simp]: "joined (a @ b) = joined a @ joined b"
  by (simp add: joined_def)

lemma letters_of_Nil [simp]: "letters_of [] = []"
  by (simp add: letters_of_def)

lemma letters_of_space [simp]: "letters_of (CHR '' '' # s) = letters_of s"
  by (simp add: letters_of_def skipped_def is_ascii_whitespace_def)

lemma letters_of_lines: "letters_of (joined ls) = letters_of (concat ls)"
  by (induction ls) (simp_all add: joined_def)

text \<open>
  A share's lines: what they spell, and that the last has a letter. Until the last line the
  letters are too few.
\<close>

definition printed_as :: "share \<Rightarrow> string list \<Rightarrow> bool" where
  "printed_as s ls \<longleftrightarrow>
     share_wf s \<and> letters_of (concat ls) = modhex (share_bytes s) \<and> ls \<noteq> [] \<and> letters_of (last ls) \<noteq> []"

lemma gather_lines:
  assumes "letter_count (joined (before @ ls)) = LEN * 2" and "ls \<noteq> []" and "letters_of (last ls) \<noteq> []"
  shows "gather_from (joined before) (ls @ rest) = joined (before @ ls) # gather_from [] rest"
  using assms
proof (induction ls arbitrary: before)
  case (Cons l ls)
  have cur: "joined before @ l @ '' '' = joined (before @ [l])" by (simp add: joined_def)
  show ?case
  proof (cases "ls = []")
    case True
    then show ?thesis using Cons.prems by (simp add: cur del: joined_append)
  next
    case False
    have "letters_of (last ls) \<noteq> []" using Cons.prems(3) False by simp
    then have "0 < letter_count (joined ls)"
      using False by (induction ls) (auto simp: letter_count_letters joined_def split: if_splits)
    moreover have "letter_count (joined (before @ [l])) + letter_count (joined ls) = LEN * 2"
      using Cons.prems(1) by (simp add: letter_count_letters joined_def)
    ultimately have few: "\<not> LEN * 2 \<le> letter_count (joined (before @ [l]))" by simp
    have "gather_from (joined (before @ [l])) (ls @ rest) = joined ((before @ [l]) @ ls) # gather_from [] rest"
      by (rule Cons.IH) (use Cons.prems False \<open>letters_of (last ls) \<noteq> []\<close> in simp_all)
    then show ?thesis using few by (simp add: cur Let_def del: joined_append)
  qed
qed simp

lemma gather_printed_lines:
  "list_all2 printed_as ss lss \<Longrightarrow> gather (concat lss) = map joined lss"
proof (induction rule: list_all2_induct)
  case (Cons s ss ls lss)
  have "letter_count (joined ls) = LEN * 2"
    using Cons(1) length_share_bytes by (simp add: printed_as_def letter_count_letters letters_of_lines)
  then have "gather_from (joined []) (ls @ concat lss) = joined ([] @ ls) # gather_from [] (concat lss)"
    by (intro gather_lines) (use Cons(1) in \<open>simp_all add: printed_as_def\<close>)
  then show ?case using Cons.IH by (simp add: gather_def joined_def)
qed (simp add: gather_def, code_simp)

text \<open>Shares typed line by line as they were printed, each over as many lines as one likes,
  are gathered into exactly those shares: each text gathered reads back to its share.
\<close>

theorem gathered_lines_read:
  assumes "list_all2 printed_as ss lss"
  shows "read_all 1 (gather (concat lss)) = Inr ss"
proof -
  have "list_all2 (\<lambda>t s. \<forall>at. read t at = Inr s) (map joined lss) ss"
    using assms
    by (induction rule: list_all2_induct) (auto simp: printed_as_def letters_of_lines intro: read_letters)
  then show ?thesis by (simp add: gather_printed_lines [OF assms] read_all_texts)
qed


section \<open>A sample\<close>

definition sample_share :: share where
  "sample_share = \<lparr>sh_split = [7, 9], sh_threshold = 2, sh_count = 3, sh_index = 1, sh_y = replicate 32 5\<rparr>"

lemma sample_share_wf: "share_wf sample_share"
  by (simp add: share_wf_def sample_share_def KEY_LEN_def)

lemma sample_letters: "modhex (share_bytes sample_share) = ''c'' @ tl (modhex (share_bytes sample_share))"
  by (simp add: share_bytes_def share_body_def modhex_def VERSION_def MODHEX_def)

lemma plain_letters: "letters_of (modhex bs) = modhex bs"
  using letters_of_plain [OF set_modhex] .

theorem mistyping_detected_witness:
  "read (''v'' @ tl (modhex (share_bytes sample_share))) 7 = Inl (Mistyped 7)"
proof (rule mistyping_detected)
  let ?m = "modhex (share_bytes sample_share)"
  show "read ?m 1 = Inr sample_share" by (rule read_letters [OF sample_share_wf plain_letters])
  show "letters_of ?m = [] @ ''c'' @ tl ?m" using plain_letters sample_letters by simp
  have "set (tl ?m) \<subseteq> set MODHEX" using set_modhex by (meson order_trans set_mono_suffix suffix_tl)
  then show "letters_of (''v'' @ tl ?m) = [] @ ''v'' @ tl ?m"
    by (subst letters_of_plain) (auto simp: MODHEX_def)
qed (simp_all add: MODHEX_def)

theorem share_roundtrip_witness: "read (join_with '' '' (groups sample_share)) 1 = Inr sample_share"
  by (rule share_roundtrip [OF sample_share_wf]) (simp add: skipped_def is_ascii_whitespace_def)

theorem gathered_lines_read_witness:
  "read_all 1 (gather (concat [[modhex (share_bytes sample_share)]])) = Inr [sample_share]"
proof (rule gathered_lines_read)
  have "printed_as sample_share [modhex (share_bytes sample_share)]"
    using sample_share_wf plain_letters sample_letters by (simp add: printed_as_def) (metis list.distinct(1) append_Cons)
  then show "list_all2 printed_as [sample_share] [[modhex (share_bytes sample_share)]]" by simp
qed

text \<open>Every share a copy of the key: enough to see that the hypotheses can hold.\<close>

definition copying :: "(unit, unit, u8 list, unit) crypto" where
  "copying =
     \<lparr>generate = (\<lambda>_. ()), to_public = (\<lambda>_. ''age1''), id_to_string = (\<lambda>_. ''AGE-SECRET-KEY-''),
      id_from_str = (\<lambda>t. if t = ''AGE-SECRET-KEY-'' then Some () else None),
      bech32_encode = (\<lambda>hrp bs. Some hrp), bech32_decode = (\<lambda>t. Inr []),
      from_base32 = (\<lambda>d. Inr (replicate 32 4)), sha256 = (\<lambda>_. replicate 32 6),
      deal = (\<lambda>r t key n. of_nat (n + 1) # key), dealt_bytes = id, dealt_of = Some,
      recover = (\<lambda>t ds. if length ds < unat t then Inl ''not enough'' else Inr (tl (hd ds))),
      recipient_from_str = (\<lambda>_. Inr ()), encrypt_and_armor = (\<lambda>_ _ t. Inr t), decrypt_with = (\<lambda>_ t. Inr t)\<rparr>"

lemma copying_sharing: "sharing_ok copying"
proof -
  have "inj_on (\<lambda>n. of_nat (n + 1) :: u8) {..<255}"
    by (rule inj_onI) (simp only: word_unat_eq_iff unat_of_nat, simp)
  moreover have "recover copying t (map (deal copying r t key) ns) = Inr key"
    if t: "2 \<le> t" "unat t \<le> length ns" for r t key ns
  proof -
    have "2 \<le> unat t" using t(1) by (simp add: word_le_nat_alt)
    then obtain a as where "ns = a # as" using t(2) by (cases ns) auto
    then show ?thesis using t(2) by (simp add: copying_def)
  qed
  ultimately show ?thesis by (auto simp: sharing_ok_def) (simp_all add: copying_def)
qed

lemma copying_identities: "identities_ok copying"
proof -
  have "map to_ascii_uppercase ''age-secret-key-'' = ''AGE-SECRET-KEY-''" by code_simp
  then show ?thesis by (simp add: identities_ok_def copying_def KEY_LEN_def IDENTITY_HRP_def)
qed

theorem split_then_combine_witness:
  "\<exists>ks. split copying () 2 3 = Some (Inr ks) \<and>
     combine copying (map (\<lambda>p. join_with ''-'' (groups (ks_shares ks ! p))) [2, 0]) =
     Inr \<lparr>key_identity = (), key_split_id = split_id copying (ks_recipient ks)\<rparr>"
proof -
  obtain ks where ks: "split copying () 2 3 = Some (Inr ks)"
    by (rule split_shares [OF copying_sharing copying_identities, of 2 3 "()"]) (simp_all add: MAX_SHARES_def)
  have "combine copying (map (\<lambda>p. join_with ''-'' (groups (ks_shares ks ! p))) [2, 0]) =
      Inr \<lparr>key_identity = generate copying (), key_split_id = split_id copying (ks_recipient ks)\<rparr>"
    by (rule split_then_combine [OF copying_sharing copying_identities _ _ _ ks])
      (simp_all add: MAX_SHARES_def skipped_def)
  with ks show ?thesis by auto
qed

theorem combine_sound_witness:
  "\<exists>ks shares first rest. split copying () 2 3 = Some (Inr ks) \<and>
     read_all 1 (map (\<lambda>p. join_with ''-'' (groups (ks_shares ks ! p))) [2, 0]) = Inr shares \<and>
     shares = first # rest \<and> length shares = 2 \<and> unat (sh_threshold first) \<le> 2 \<and> distinct (map sh_index shares)"
proof -
  obtain ks where ks: "split copying () 2 3 = Some (Inr ks)"
    by (rule split_shares [OF copying_sharing copying_identities, of 2 3 "()"]) (simp_all add: MAX_SHARES_def)
  have "combine copying (map (\<lambda>p. join_with ''-'' (groups (ks_shares ks ! p))) [2, 0]) =
      Inr \<lparr>key_identity = generate copying (), key_split_id = split_id copying (ks_recipient ks)\<rparr>"
    by (rule combine_split [OF copying_sharing copying_identities _ _ _ ks])
      (simp_all add: MAX_SHARES_def skipped_def)
  from combine_sound [OF this] ks show ?thesis by auto
qed

end
