(* ===== verification/Token.thy ===== *)
theory Token
  imports Rbac
begin

text \<open>
  Access tokens and the encodings written by hand beside them
  (\<open>crates/hlb-types/src/token.rs\<close>): SHA-256, base64url, standard base64, base32, the
  comparison in constant time, and a stored token. A byte is an \<open>8 word\<close>; the 32-bit
  accumulators keep their width, so what is shifted out is lost as in the source.
\<close>

section \<open>Bytes\<close>

type_synonym bytes = "u8 list"

text \<open>\<open>as_bytes\<close>.\<close>

definition as_bytes :: "string \<Rightarrow> bytes" where
  "as_bytes s = map (\<lambda>c. of_nat (of_char c)) s"

definition byte_char :: "u8 \<Rightarrow> char" where
  "byte_char b = char_of (unat b)"

text \<open>\<open>to_be_bytes\<close> of a number of \<open>n\<close> bytes.\<close>

definition be_bytes :: "nat \<Rightarrow> 'a::len word \<Rightarrow> bytes" where
  "be_bytes n w = map (\<lambda>i. ucast (drop_bit (8 * (n - 1 - i)) w)) [0..<n]"

definition from_be_bytes4 :: "bytes \<Rightarrow> u32" where
  "from_be_bytes4 c =
     push_bit 24 (ucast (c ! 0)) OR push_bit 16 (ucast (c ! 1)) OR push_bit 8 (ucast (c ! 2)) OR ucast (c ! 3)"

definition hex_digit :: "nat \<Rightarrow> char" where
  "hex_digit d = ''0123456789abcdef'' ! d"

text \<open>\<open>{b:02x}\<close> of each byte.\<close>

definition hex :: "bytes \<Rightarrow> string" where
  "hex bs = concat (map (\<lambda>b. [hex_digit (unat b div 16), hex_digit (unat b mod 16)]) bs)"


section \<open>SHA-256\<close>

definition SHA_K :: "u32 list" where
  "SHA_K =
     [0x428A2F98, 0x71374491, 0xB5C0FBCF, 0xE9B5DBA5, 0x3956C25B, 0x59F111F1, 0x923F82A4, 0xAB1C5ED5,
      0xD807AA98, 0x12835B01, 0x243185BE, 0x550C7DC3, 0x72BE5D74, 0x80DEB1FE, 0x9BDC06A7, 0xC19BF174,
      0xE49B69C1, 0xEFBE4786, 0x0FC19DC6, 0x240CA1CC, 0x2DE92C6F, 0x4A7484AA, 0x5CB0A9DC, 0x76F988DA,
      0x983E5152, 0xA831C66D, 0xB00327C8, 0xBF597FC7, 0xC6E00BF3, 0xD5A79147, 0x06CA6351, 0x14292967,
      0x27B70A85, 0x2E1B2138, 0x4D2C6DFC, 0x53380D13, 0x650A7354, 0x766A0ABB, 0x81C2C92E, 0x92722C85,
      0xA2BFE8A1, 0xA81A664B, 0xC24B8B70, 0xC76C51A3, 0xD192E819, 0xD6990624, 0xF40E3585, 0x106AA070,
      0x19A4C116, 0x1E376C08, 0x2748774C, 0x34B0BCB5, 0x391C0CB3, 0x4ED8AA4A, 0x5B9CCA4F, 0x682E6FF3,
      0x748F82EE, 0x78A5636F, 0x84C87814, 0x8CC70208, 0x90BEFFFA, 0xA4506CEB, 0xBEF9A3F7, 0xC67178F2]"

definition SHA_H :: "u32 list" where
  "SHA_H =
     [0x6A09E667, 0xBB67AE85, 0x3C6EF372, 0xA54FF53A, 0x510E527F, 0x9B05688C, 0x1F83D9AB, 0x5BE0CD19]"

text \<open>The loop that pads with zeros until eight bytes are missing to a whole block.\<close>

function pad_zeros :: "bytes \<Rightarrow> bytes" where
  "pad_zeros m = (if length m mod 64 = 56 then m else pad_zeros (m @ [0]))"
  by pat_completeness auto
termination
proof (relation "measure (\<lambda>m. if length m mod 64 \<le> 56 then 56 - length m mod 64 else 120 - length m mod 64)")
  fix m :: bytes assume ne: "length m mod 64 \<noteq> 56"
  have r: "length (m @ [0]) mod 64 = (if length m mod 64 = 63 then 0 else Suc (length m mod 64))"
    by (simp add: mod_Suc)
  moreover have "length m mod 64 < 64" by simp
  ultimately show "(m @ [0], m) \<in> measure (\<lambda>m. if length m mod 64 \<le> 56 then 56 - length m mod 64 else 120 - length m mod 64)"
    using ne unfolding in_measure r by (cases "length m mod 64 < 56"; cases "length m mod 64 = 63") simp_all
qed simp

declare pad_zeros.simps [simp del]

definition sha_pad :: "bytes \<Rightarrow> bytes" where
  "sha_pad message =
     pad_zeros (message @ [0x80]) @ be_bytes 8 (of_nat (length message) * 8 :: u64)"

definition sha_schedule :: "bytes \<Rightarrow> u32 list" where
  "sha_schedule block =
     fold (\<lambda>i w.
         (let s0 = word_rotr 7 (w ! (i - 15)) XOR word_rotr 18 (w ! (i - 15)) XOR drop_bit 3 (w ! (i - 15));
              s1 = word_rotr 17 (w ! (i - 2)) XOR word_rotr 19 (w ! (i - 2)) XOR drop_bit 10 (w ! (i - 2)) in
          w[i := w ! (i - 16) + s0 + w ! (i - 7) + s1]))
       [16..<64] (map from_be_bytes4 (chunks 4 block) @ replicate 48 0)"

type_synonym sha_state = "u32 \<times> u32 \<times> u32 \<times> u32 \<times> u32 \<times> u32 \<times> u32 \<times> u32"

definition sha_round :: "u32 list \<Rightarrow> nat \<Rightarrow> sha_state \<Rightarrow> sha_state" where
  "sha_round w i = (\<lambda>(a, b, c, d, e, f, g, hh).
     (let s1 = word_rotr 6 e XOR word_rotr 11 e XOR word_rotr 25 e;
          ch = (e AND f) XOR (NOT e AND g);
          t1 = hh + s1 + ch + SHA_K ! i + w ! i;
          s0 = word_rotr 2 a XOR word_rotr 13 a XOR word_rotr 22 a;
          upper = (a AND b) XOR (a AND c) XOR (b AND c);
          t2 = s0 + upper in
      (t1 + t2, a, b, c, d + t1, e, f, g)))"

definition sha_block :: "bytes \<Rightarrow> u32 list \<Rightarrow> u32 list" where
  "sha_block block h =
     (case fold (sha_round (sha_schedule block)) [0..<64]
             (h ! 0, h ! 1, h ! 2, h ! 3, h ! 4, h ! 5, h ! 6, h ! 7) of
        (a, b, c, d, e, f, g, hh) \<Rightarrow> map2 (+) h [a, b, c, d, e, f, g, hh])"

definition sha256 :: "bytes \<Rightarrow> bytes" where
  "sha256 message = concat (map (be_bytes 4) (fold sha_block (chunks 64 (sha_pad message)) SHA_H))"

definition sha256_hex :: "bytes \<Rightarrow> string" where
  "sha256_hex bs = hex (sha256 bs)"

definition sha256_bytes :: "bytes \<Rightarrow> bytes" where
  "sha256_bytes bs = sha256 bs"


section \<open>Base64\<close>

definition BASE64URL :: string where
  "BASE64URL = ''ABCDEFGHIJKLMNOPQRSTUVWXYZabcdefghijklmnopqrstuvwxyz0123456789-_''"

text \<open>The 24 bits of a block, a missing byte as zero.\<close>

definition block_bits :: "bytes \<Rightarrow> u32" where
  "block_bits block =
     (let b = (\<lambda>i. if i < length block then block ! i else 0) in
      push_bit 16 (ucast (b 0)) OR push_bit 8 (ucast (b 1)) OR ucast (b 2))"

definition block_letters :: "bytes \<Rightarrow> string" where
  "block_letters block =
     map (\<lambda>i. BASE64URL ! unat (drop_bit (18 - 6 * i) (block_bits block) AND 0x3F)) [0..<length block + 1]"

definition base64url :: "bytes \<Rightarrow> string" where
  "base64url bs = concat (map block_letters (chunks 3 bs))"

definition base64_standard :: "bytes \<Rightarrow> string" where
  "base64_standard bs =
     (let out = str_replace (str_replace (base64url bs) ''-'' ''+'') ''_'' ''/'' in
      out @ replicate ((4 - length out mod 4) mod 4) CHR ''='')"

definition letter_value :: "char \<Rightarrow> u8 option" where
  "letter_value c =
     (let n = (of_char c :: nat) in
      if is_ascii_uppercase c then Some (of_nat (n - 65))
      else if is_ascii_lowercase c then Some (of_nat (n - 97) + 26)
      else if is_ascii_digit c then Some (of_nat (n - 48) + 52)
      else if c = CHR ''-'' then Some 62
      else if c = CHR ''_'' then Some 63
      else None)"

text \<open>The loop: the accumulator, how many of its bits are pending, and the bytes pushed.\<close>

fun decode_from :: "u32 \<Rightarrow> nat \<Rightarrow> string \<Rightarrow> bytes option" where
  "decode_from acc bits [] = Some []"
| "decode_from acc bits (c # s) =
     (if c = CHR ''='' then Some []
      else case letter_value c of
        None \<Rightarrow> None
      | Some v \<Rightarrow>
          (let acc = push_bit 6 acc OR ucast v; bits = bits + 6 in
           if 8 \<le> bits
           then map_option ((#) (ucast (drop_bit (bits - 8) acc AND 0xFF))) (decode_from acc (bits - 8) s)
           else decode_from acc bits s))"

definition base64url_decode :: "string \<Rightarrow> bytes option" where
  "base64url_decode s = decode_from 0 0 s"


section \<open>Base32\<close>

definition BASE32 :: string where
  "BASE32 = ''ABCDEFGHIJKLMNOPQRSTUVWXYZ234567''"

fun flush5 :: "u32 \<Rightarrow> nat \<Rightarrow> string" where
  "flush5 buffer bits =
     (if 5 \<le> bits then BASE32 ! unat (drop_bit (bits - 5) buffer AND 0x1F) # flush5 buffer (bits - 5) else [])"

declare flush5.simps [simp del]

fun base32_from :: "u32 \<Rightarrow> nat \<Rightarrow> bytes \<Rightarrow> string" where
  "base32_from buffer bits [] =
     (if 0 < bits then [BASE32 ! unat (push_bit (5 - bits) buffer AND 0x1F)] else [])"
| "base32_from buffer bits (b # bs) =
     (let buffer = push_bit 8 buffer OR ucast b in
      flush5 buffer (bits + 8) @ base32_from buffer ((bits + 8) mod 5) bs)"

definition base32 :: "bytes \<Rightarrow> string" where
  "base32 bs = base32_from 0 0 bs"


section \<open>Tokens\<close>

definition constant_eq :: "string \<Rightarrow> string \<Rightarrow> bool" where
  "constant_eq a b \<longleftrightarrow>
     (if length a \<noteq> length b then False
      else foldl (\<lambda>acc (x, y). acc OR (x XOR y)) 0 (zip (as_bytes a) (as_bytes b)) = (0 :: u8))"

definition TOKEN_BYTES :: nat where
  "TOKEN_BYTES = 32"

record stored_token =
  tk_name :: string
  tk_role :: role
  tk_fingerprint :: string

definition fingerprint :: "string \<Rightarrow> string" where
  "fingerprint token = hex (sha256 (as_bytes token))"

definition fingerprint_of :: "string \<Rightarrow> string" where
  "fingerprint_of token = fingerprint token"

definition token_matches :: "stored_token \<Rightarrow> string \<Rightarrow> bool" where
  "token_matches t presented = constant_eq (fingerprint presented) (tk_fingerprint t)"

definition generate_token :: "string \<Rightarrow> role \<Rightarrow> bytes \<Rightarrow> string \<times> stored_token" where
  "generate_token name r random =
     (let val = base32 random in
      (val, \<lparr>tk_name = name, tk_role = r, tk_fingerprint = fingerprint val\<rparr>))"

end
