(* ===== verification/Oidc.thy ===== *)
theory Oidc
  imports Token Access
begin

text \<open>
  Signing in through the identity provider (\<open>crates/hlb-identity/src/oidc.rs\<close>): the request
  that is remembered, the address the browser is sent to, and how a code is exchanged. The
  provider is the record \<open>idp\<close>, an argument: what it answers to the form of the token
  endpoint and to a bearer token, already read within the size bound, and how its JSON reads.
  Times are \<open>i64\<close> seconds, \<open>int\<close> here with the saturation written out.
\<close>

section \<open>Requests\<close>

definition REQUEST_TIMEOUT_S :: int where
  "REQUEST_TIMEOUT_S = 600"

definition CONFIRMATION_MAX_AGE_S :: int where
  "CONFIRMATION_MAX_AGE_S = 300"

text \<open>\<open>i64::saturating_sub\<close>.\<close>

definition saturating_sub :: "int \<Rightarrow> int \<Rightarrow> int" where
  "saturating_sub a b = max (- (2 ^ 63)) (min (2 ^ 63 - 1) (a - b))"

record pending_request =
  pr_state :: string
  pr_check :: string
  pr_nonce :: string
  pr_created_at :: int
  pr_return_to :: "string option"

definition is_expired :: "pending_request \<Rightarrow> int \<Rightarrow> bool" where
  "is_expired r now \<longleftrightarrow> REQUEST_TIMEOUT_S < saturating_sub now (pr_created_at r)"

text \<open>
  \<open>char::is_control\<close>: the bytes below the space and 7F, and the two-byte encodings of the
  controls from 80 to 9F.
\<close>

definition control_char :: "char \<Rightarrow> bool" where
  "control_char c \<longleftrightarrow> (of_char c :: nat) < 32 \<or> c = CHR 0x7F"

fun has_c1_control :: "string \<Rightarrow> bool" where
  "has_c1_control (a # b # s) \<longleftrightarrow>
     a = CHR 0xC2 \<and> 128 \<le> (of_char b :: nat) \<and> (of_char b :: nat) \<le> 159 \<or> has_c1_control (b # s)"
| "has_c1_control _ \<longleftrightarrow> False"

definition plain_path :: "string \<Rightarrow> bool" where
  "plain_path r \<longleftrightarrow>
     CHR 0x5C \<notin> set r \<and> \<not> list_ex (str_contains r) white_space \<and>
     \<not> list_ex control_char r \<and> \<not> has_c1_control r"

definition return_onto :: "pending_request \<Rightarrow> string" where
  "return_onto p =
     (case pr_return_to p of
        Some r \<Rightarrow> if starts_with r ''/'' \<and> \<not> starts_with r ''//'' \<and> plain_path r then r else ''/''
      | None \<Rightarrow> ''/'')"

record identity =
  id_sub :: string
  id_preferred_username :: "string option"
  id_email :: "string option"
  id_name :: "string option"
  id_groups :: "string list"

definition account_name :: "identity \<Rightarrow> string" where
  "account_name i = (case id_preferred_username i of Some n \<Rightarrow> n | None \<Rightarrow> id_sub i)"

definition display_name :: "identity \<Rightarrow> string" where
  "display_name i = (case id_name i of Some n \<Rightarrow> n | None \<Rightarrow> account_name i)"

record confirmation =
  cf_identity :: identity
  cf_auth_time :: int

record endpoints =
  ep_issuer :: string
  ep_authorization :: string
  ep_token :: string
  ep_userinfo :: string
  ep_end_session :: "string option"

record token_response =
  tr_access_token :: string
  tr_id_token :: "string option"

record oidc =
  oi_endpoints :: endpoints
  oi_client_id :: string
  oi_client_secret :: string
  oi_redirect_uri :: string


section \<open>The address\<close>

definition unreserved :: "char \<Rightarrow> bool" where
  "unreserved c \<longleftrightarrow>
     is_ascii_uppercase c \<or> is_ascii_lowercase c \<or> is_ascii_digit c \<or>
     c = CHR ''-'' \<or> c = CHR ''.'' \<or> c = CHR ''_'' \<or> c = CHR ''~''"

definition HEX_UPPER :: string where
  "HEX_UPPER = ''0123456789ABCDEF''"

definition percent_encode :: "string \<Rightarrow> string" where
  "percent_encode s =
     concat (map (\<lambda>c. if unreserved c then [c]
                      else [CHR ''%'', HEX_UPPER ! ((of_char c :: nat) div 16), HEX_UPPER ! ((of_char c :: nat) mod 16)]) s)"

definition authorize_url :: "oidc \<Rightarrow> string \<Rightarrow> string \<Rightarrow> string \<Rightarrow> string \<Rightarrow> string \<Rightarrow> string" where
  "authorize_url o1 state check nonce scope extra =
     (let challenge = base64url (sha256_bytes (as_bytes check));
          endpoint = ep_authorization (oi_endpoints o1);
          sep = (if CHR ''?'' \<in> set endpoint then ''&'' else ''?'') in
      endpoint @ sep @ ''response_type=code&client_id='' @ percent_encode (oi_client_id o1) @
      ''&redirect_uri='' @ percent_encode (oi_redirect_uri o1) @
      ''&scope='' @ percent_encode scope @ ''&state='' @ percent_encode state @
      ''&nonce='' @ percent_encode nonce @ ''&code_challenge='' @ percent_encode challenge @
      ''&code_challenge_method=S256'' @ extra)"

definition start :: "oidc \<Rightarrow> bytes \<Rightarrow> string option \<Rightarrow> int \<Rightarrow> string \<times> pending_request" where
  "start o1 entropy return_to now =
     (let state = base64url (take 32 entropy);
          check = base64url (take 32 (drop 32 entropy));
          nonce = base64url (take 32 (drop 64 entropy)) in
      (authorize_url o1 state check nonce ''openid profile email groups'' [],
       \<lparr>pr_state = state, pr_check = check, pr_nonce = nonce, pr_created_at = now, pr_return_to = return_to\<rparr>))"

definition start_confirming :: "oidc \<Rightarrow> bytes \<Rightarrow> string \<Rightarrow> int \<Rightarrow> string \<times> pending_request" where
  "start_confirming o1 entropy nonce now =
     (let state = base64url (take 32 entropy);
          check = base64url (take 32 (drop 32 entropy)) in
      (authorize_url o1 state check nonce ''openid'' (''&prompt=login&max_age='' @ show_nat (nat CONFIRMATION_MAX_AGE_S)),
       \<lparr>pr_state = state, pr_check = check, pr_nonce = nonce, pr_created_at = now, pr_return_to = None\<rparr>))"


section \<open>The exchange\<close>

datatype identity_error =
    HttpError string
  | ApiError nat string
  | Unauthorized
  | Unexpected string

text \<open>An answer: its status, its body as JSON would be read from it and as a refusal shows it.\<close>

datatype http_answer = Unsent | Answered (an_status: nat) (an_body: "string + bytes") (an_text: string)

record idp =
  idp_token :: "(string \<times> string) list \<Rightarrow> http_answer"
  idp_userinfo :: "string \<Rightarrow> http_answer"
  parse_token :: "bytes \<Rightarrow> string + token_response"
  parse_identity :: "bytes \<Rightarrow> string + identity"
  parse_claims :: "bytes \<Rightarrow> json option"
  number_i64 :: "string \<Rightarrow> int option"

definition is_success :: "nat \<Rightarrow> bool" where
  "is_success s \<longleftrightarrow> 200 \<le> s \<and> s < 300"

definition read_json :: "(bytes \<Rightarrow> string + 'a) \<Rightarrow> string + bytes \<Rightarrow> string \<Rightarrow> identity_error + 'a" where
  "read_json parse body what =
     (case body of
        Inl e \<Rightarrow> Inl (Unexpected (what @ '': '' @ e))
      | Inr b \<Rightarrow>
          (case parse b of
             Inl e \<Rightarrow> Inl (Unexpected (''unreadable '' @ what @ '': '' @ e))
           | Inr v \<Rightarrow> Inr v))"

definition exchange_form :: "oidc \<Rightarrow> pending_request \<Rightarrow> string \<Rightarrow> (string \<times> string) list" where
  "exchange_form o1 r code =
     [(''grant_type'', ''authorization_code''), (''code'', code), (''redirect_uri'', oi_redirect_uri o1),
      (''client_id'', oi_client_id o1), (''client_secret'', oi_client_secret o1), (''code_verifier'', pr_check r)]"

definition token_of :: "idp \<Rightarrow> http_answer \<Rightarrow> identity_error + token_response" where
  "token_of p a =
     (case a of
        Unsent \<Rightarrow> Inl (HttpError ''authorisation code exchange'')
      | Answered status body text \<Rightarrow>
          if status = 401 then Inl Unauthorized
          else if \<not> is_success status then Inl (ApiError status (''code exchange refused: '' @ text))
          else read_json (parse_token p) body (''the token endpoint'' @ [CHR 0x27] @ ''s response''))"

definition identity_of :: "idp \<Rightarrow> http_answer \<Rightarrow> identity_error + identity" where
  "identity_of p a =
     (case a of
        Unsent \<Rightarrow> Inl (HttpError ''reading userinfo'')
      | Answered status body text \<Rightarrow>
          if \<not> is_success status then Inl (ApiError status (''userinfo refused: '' @ text))
          else and_then (read_json (parse_identity p) body ''userinfo'') (\<lambda>i.
            if id_sub i = []
            then Inl (Unexpected (''userinfo with no '' @ [CHR 0x22] @ ''sub'' @ [CHR 0x22] @
                        '': an account cannot be linked to an identity stable''))
            else Inr i))"

definition exchange ::
  "idp \<Rightarrow> oidc \<Rightarrow> pending_request \<Rightarrow> string \<Rightarrow> string \<Rightarrow> int \<Rightarrow> identity_error + (string option \<times> identity)" where
  "exchange p o1 r received_state code now =
     (if \<not> constant_eq (pr_state r) received_state
      then Inl (Unexpected (''invalid sign-in state: the response does not match a request started here '' @
                            ''(a forged request, or a sign-in begun in another tab)''))
      else if is_expired r now
      then Inl (Unexpected (''sign-in request expired (beyond '' @ show_nat (nat REQUEST_TIMEOUT_S) @ '' s) - start again''))
      else and_then (token_of p (idp_token p (exchange_form o1 r code))) (\<lambda>token.
        and_then (identity_of p (idp_userinfo p (tr_access_token token))) (\<lambda>i.
          Inr (tr_id_token token, i))))"

fun json_get :: "json \<Rightarrow> string \<Rightarrow> json option" where
  "json_get (JObject ms) k = map_of ms k"
| "json_get _ k = None"

fun json_str :: "json \<Rightarrow> string option" where
  "json_str (JString s) = Some s"
| "json_str _ = None"

definition json_i64 :: "idp \<Rightarrow> json \<Rightarrow> int option" where
  "json_i64 p j = (case j of JNumber n \<Rightarrow> number_i64 p n | _ \<Rightarrow> None)"

definition claims_of :: "idp \<Rightarrow> string \<Rightarrow> json option" where
  "claims_of p jwt =
     (case split_char CHR ''.'' jwt of
        _ # load # _ \<Rightarrow> Option.bind (base64url_decode load) (parse_claims p)
      | _ \<Rightarrow> None)"

definition nonce_of :: "idp \<Rightarrow> string \<Rightarrow> string option" where
  "nonce_of p jwt = Option.bind (Option.bind (claims_of p jwt) (\<lambda>c. json_get c ''nonce'')) json_str"

definition finish ::
  "idp \<Rightarrow> oidc \<Rightarrow> pending_request \<Rightarrow> string \<Rightarrow> string \<Rightarrow> int \<Rightarrow> identity_error + identity" where
  "finish p o1 r received_state code now =
     and_then (exchange p o1 r received_state code now) (\<lambda>(id_token, i).
       case Option.bind id_token (nonce_of p) of
         Some n \<Rightarrow>
           if constant_eq (pr_nonce r) n then Inr i
           else Inl (Unexpected ''the id_token nonce does not match: replayed response'')
       | None \<Rightarrow> Inr i)"

definition finish_confirming ::
  "idp \<Rightarrow> oidc \<Rightarrow> pending_request \<Rightarrow> string \<Rightarrow> string \<Rightarrow> int \<Rightarrow> identity_error + confirmation" where
  "finish_confirming p o1 r received_state code now =
     and_then (exchange p o1 r received_state code now) (\<lambda>(id_token, i).
       case Option.bind id_token (claims_of p) of
         None \<Rightarrow> Inl (Unexpected ''a confirmation answered with no readable id_token'')
       | Some claims \<Rightarrow>
           (case Option.bind (json_get claims ''nonce'') json_str of
              Some n \<Rightarrow>
                if constant_eq (pr_nonce r) n
                then (case Option.bind (json_get claims ''auth_time'') (json_i64 p) of
                        Some t \<Rightarrow> Inr \<lparr>cf_identity = i, cf_auth_time = t\<rparr>
                      | None \<Rightarrow> Inl (Unexpected ''the id_token does not say when the passkey was used''))
                else Inl (Unexpected (''the passkey confirmed something else: the id_token'' @ [CHR 0x27] @
                                      ''s nonce is not this action'' @ [CHR 0x27] @ ''s''))
            | None \<Rightarrow> Inl (Unexpected (''the passkey confirmed something else: the id_token'' @ [CHR 0x27] @
                                      ''s nonce is not this action'' @ [CHR 0x27] @ ''s''))))"


section \<open>Where a person is sent back\<close>

lemma return_onto_shape:
  "\<exists>r. return_onto p = CHR ''/'' # r \<and> \<not> prefix ''/'' r \<and> CHR 0x5C \<notin> set r \<and>
     CHR 0x09 \<notin> set r \<and> CHR 0x0A \<notin> set r \<and> CHR 0x0D \<notin> set r \<and> CHR '' '' \<notin> set r"
proof -
  have visible: "CHR 0x09 \<notin> set r \<and> CHR 0x0A \<notin> set r \<and> CHR 0x0D \<notin> set r \<and> CHR '' '' \<notin> set r" if "plain_path r" for r
  proof -
    have "\<not> sublist [c] r" if "[c] \<in> set white_space" for c
      using \<open>plain_path r\<close> that by (auto simp: plain_path_def list_ex_iff str_contains_sublist)
    then have "c \<notin> set r" if "[c] \<in> set white_space" for c
      using that by (metis in_set_conv_decomp sublist_appendI append_Cons append_Nil)
    then show ?thesis by (simp add: white_space_def)
  qed
  show ?thesis
  proof (cases "\<exists>r. pr_return_to p = Some r \<and> starts_with r ''/'' \<and> \<not> starts_with r ''//'' \<and> plain_path r")
    case True
    then obtain r where r: "pr_return_to p = Some r" "starts_with r ''/''" "\<not> starts_with r ''//''" "plain_path r" by blast
    then obtain t where t: "r = CHR ''/'' # t" by (cases r) (auto simp: starts_with_def)
    show ?thesis
      using r visible [OF r(4)] by (intro exI [of _ t]) (auto simp: return_onto_def t starts_with_def plain_path_def)
  next
    case False
    then have "return_onto p = ''/''" by (auto simp: return_onto_def split: option.splits)
    then show ?thesis by simp
  qed
qed

end
