(* ===== verification/Confirm.thy ===== *)
theory Confirm
  imports Oidc
begin

text \<open>
  The passkey a destruction takes (\<open>crates/hlb-privd/src/confirm.rs\<close>, the intents of
  \<open>crates/hlb-api/src/intent\<close>, and \<open>answer\<close> of \<open>crates/hlb-privd/src/lib.rs\<close>). The table of
  confirmations begun is a hash map: an association list in its iteration order. What
  surrounds the daemon is an argument: the clock, the randomness drawn, the sign-in client,
  the identity provider, the accounts and their roles, and how an intent is written on the
  wire. \<open>consume\<close> holds the table only at its start and at its end; it is cut there, so that
  other requests can come in between.
\<close>

section \<open>Intents\<close>

record passkey_proof =
  pf_state :: string
  pf_code :: string

record remove_intent =
  rm_app :: string
  rm_confirmed :: "string option"
  rm_apply :: bool

record node_availability =
  na_node :: string
  na_availability :: string
  na_confirmed :: "string option"
  na_apply :: bool

record add_device =
  dv_account :: "string option"
  dv_name :: string
  dv_mailbox :: "string option"
  dv_apply :: bool

text \<open>
  Every other intent takes no passkey, and no decision here looks at its fields: it is the tag
  it travels with and contents of a type of their own, as are the two that are decided by
  their kind alone.
\<close>

datatype (plugins only: code) 'p intent =
    IRemove remove_intent
  | INodeAvailability node_availability
  | IDeleteRole 'p
  | ISetUserRole 'p
  | IAddDevice add_device
  | IConfirmed passkey_proof "'p intent"
  | IBeginConfirmation "'p intent list"
  | IOther string 'p

definition OTHER_TAGS :: "string list" where
  "OTHER_TAGS =
     [''scale'', ''nodes'', ''swarm'', ''install'', ''upgrade'',
      ''catalog-changes'', ''attest-guide'', ''back-up'', ''purge-alias'', ''kit-fingerprint'',
      ''sign-in-client'', ''alerts'', ''drifts'', ''fleet'', ''my-identity'',
      ''rename'', ''default-mailbox'', ''create-alias'', ''create-mailbox'', ''devices'',
      ''revoke-device'', ''sign-up'', ''sync-roles'', ''portal-roles'', ''audit'',
      ''open-session'', ''touch-session'', ''close-session'', ''close-session-by-reference'', ''bind-identity'',
      ''touch-token'', ''issue-alias-token'', ''put-role'', ''set-role-quota'', ''allow-role'',
      ''deny-role'', ''set-person-quota'', ''create-invitation'', ''revoke-invitation'', ''set-destination-classes'',
      ''set-alias-folder'', ''save-named-plan'', ''attest-breakglass'', ''set-theme'', ''set-density'',
      ''set-home'', ''publish-announcement'', ''follow-announcement'', ''remove-announcement'', ''set-brand'',
      ''set-aside'', ''bring-back'', ''mute-alert'', ''unmute-alert'', ''set-logo'',
      ''record-history'']"

fun passkey :: "'p intent \<Rightarrow> rbac_action option" where
  "passkey (IRemove i) = (if rm_apply i then Some Destroy else None)"
| "passkey (INodeAvailability i) =
     (if na_apply i \<and> na_availability i \<noteq> ''active'' then Some Operate else None)"
| "passkey (IDeleteRole _) = Some ManageAccounts"
| "passkey (ISetUserRole _) = Some ManageAccounts"
| "passkey (IAddDevice i) = (if dv_apply i then Some ActOnSelf else None)"
| "passkey _ = None"


text \<open>
  The digest of an intent as it travels, and of a list of them. How they are written on the
  wire is an argument.
\<close>

record 'p wire =
  wire_one :: "'p intent \<Rightarrow> bytes"
  wire_many :: "'p intent list \<Rightarrow> bytes"

definition digest :: "'p wire \<Rightarrow> 'p intent \<Rightarrow> string" where
  "digest w i = base64url (sha256_bytes (wire_one w i))"

definition nonce :: "'p wire \<Rightarrow> 'p intent list \<Rightarrow> string" where
  "nonce w is = base64url (sha256_bytes (wire_many w is))"


section \<open>The table\<close>

definition MAX_OPEN :: nat where
  "MAX_OPEN = 64"

record granted =
  gr_code :: string
  gr_account :: string
  gr_auth_time :: int

record open_confirmation =
  oc_request :: pending_request
  oc_left :: "string list"
  oc_granted :: "granted option"

type_synonym conf_table = "(string \<times> open_confirmation) list"

definition table_remove :: "string \<Rightarrow> conf_table \<Rightarrow> conf_table" where
  "table_remove k t = filter (\<lambda>(k', _). k' \<noteq> k) t"

text \<open>\<open>insert\<close>: in the place of what was under the key, or anywhere when nothing was.\<close>

definition table_insert :: "string \<Rightarrow> open_confirmation \<Rightarrow> conf_table \<Rightarrow> conf_table" where
  "table_insert k v t = (k, v) # table_remove k t"

text \<open>\<open>min_by_key\<close>: the first of the oldest.\<close>

fun oldest :: "conf_table \<Rightarrow> string option" where
  "oldest [] = None"
| "oldest ((k, c) # t) =
     (if list_all (\<lambda>(_, c'). pr_created_at (oc_request c) \<le> pr_created_at (oc_request c')) t
      then Some k else oldest t)"

definition drop_oldest :: "conf_table \<Rightarrow> conf_table" where
  "drop_oldest t = (case oldest t of Some k \<Rightarrow> table_remove k t | None \<Rightarrow> t)"


section \<open>Surroundings\<close>

record oidc_client =
  cl_issuer :: string
  cl_id :: string
  cl_secret :: string

text \<open>
  What the daemon finds around it at one moment: the issuer given to it, its sign-in client
  and trusted root, the public host, what discovery at an issuer answers, the provider, and
  the accounts.
\<close>

record surroundings =
  su_issuer :: "oidc option"
  su_client :: "oidc_client option"
  su_trusted_root :: "string option"
  su_host :: "string + string option"
  su_discover :: "string \<Rightarrow> string \<Rightarrow> string \<Rightarrow> string \<Rightarrow> string option \<Rightarrow> string + oidc"
  su_idp :: idp
  su_user_by_pocket_id :: "string \<Rightarrow> string + string option"
  su_user_role :: "string \<Rightarrow> string + role"
  su_error_text :: "identity_error \<Rightarrow> string"

definition CALLBACK :: string where
  "CALLBACK = ''/auth/confirmed''"

definition required :: "surroundings \<Rightarrow> bool" where
  "required su \<longleftrightarrow> su_issuer su \<noteq> None \<or> su_client su \<noteq> None"

text \<open>Telling the provider the return address is left out: its failure is only logged.\<close>

definition client :: "surroundings \<Rightarrow> string + oidc option" where
  "client su =
     (case su_issuer su of
        Some o1 \<Rightarrow> Inr (Some o1)
      | None \<Rightarrow>
          (case su_client su of
             None \<Rightarrow> Inr None
           | Some c \<Rightarrow>
               and_then (su_host su) (\<lambda>h.
                 case h of
                   None \<Rightarrow> Inl ''no public address is configured: PocketID could not send the passkey back''
                 | Some host \<Rightarrow>
                     (case su_discover su (cl_issuer c) (cl_id c) (cl_secret c)
                             (''https://'' @ host @ CALLBACK) (su_trusted_root su) of
                        Inl e \<Rightarrow> Inl (''PocketID cannot be reached to confirm with a passkey: '' @ e)
                      | Inr o1 \<Rightarrow> Inr (Some o1)))))"


section \<open>Beginning\<close>

definition begin_entry :: "'p wire \<Rightarrow> pending_request \<Rightarrow> 'p intent list \<Rightarrow> int \<Rightarrow> conf_table \<Rightarrow> conf_table" where
  "begin_entry w r intents now t =
     (let t = filter (\<lambda>(_, c). \<not> is_expired (oc_request c) now) t;
          t = (if MAX_OPEN \<le> length t then drop_oldest t else t) in
      table_insert (pr_state r)
        \<lparr>oc_request = r, oc_left = map (digest w) intents, oc_granted = None\<rparr> t)"

definition begin_confirming ::
  "'p wire \<Rightarrow> surroundings \<Rightarrow> bytes \<Rightarrow> int \<Rightarrow> 'p intent list \<Rightarrow> conf_table \<Rightarrow>
   (string + string option) \<times> conf_table" where
  "begin_confirming w su entropy now intents t =
     (if intents = [] \<or> list_ex (\<lambda>i. passkey i = None) intents
      then (Inl ''a passkey confirms an action that destroys, and only one'', t)
      else case client su of
        Inl e \<Rightarrow> (Inl e, t)
      | Inr None \<Rightarrow> (Inr None, t)
      | Inr (Some o1) \<Rightarrow>
          (case start_confirming o1 entropy (nonce w intents) now of
             (url, r) \<Rightarrow> (Inr (Some url), begin_entry w r intents now t)))"


section \<open>Consuming\<close>

text \<open>What a call holds once it has taken a confirmation out of the table.\<close>

record 'p consuming =
  cn_proof :: passkey_proof
  cn_asked :: "'p intent"
  cn_action :: rbac_action
  cn_open :: open_confirmation
  cn_now :: int

definition consume_take ::
  "'p wire \<Rightarrow> passkey_proof \<Rightarrow> 'p intent \<Rightarrow> int \<Rightarrow> conf_table \<Rightarrow> (string + 'p consuming) \<times> conf_table" where
  "consume_take w pf asked now t =
     (case passkey asked of
        None \<Rightarrow> (Inl ''a passkey confirms an action that destroys, and this is not one'', t)
      | Some action \<Rightarrow>
          (case map_of t (pf_state pf) of
             None \<Rightarrow>
               (Inl (''no confirmation is waiting under that state: it expired (after '' @
                     show_nat (nat REQUEST_TIMEOUT_S) @ '' s), was used, or the daemon restarted '' @
                     [CHR 0xE2, CHR 0x80, CHR 0x94] @ '' confirm again''), t)
           | Some c \<Rightarrow>
               (if digest w asked \<notin> set (oc_left c)
                then Inl ''the passkey confirmed another action than this one''
                else Inr \<lparr>cn_proof = pf, cn_asked = asked, cn_action = action, cn_open = c, cn_now = now\<rparr>,
                table_remove (pf_state pf) t)))"

text \<open>Whose passkey it is: the one already exchanged under the same code, or exchanged now.\<close>

definition consume_grant :: "surroundings \<Rightarrow> 'p consuming \<Rightarrow> string + granted" where
  "consume_grant su n =
     (case oc_granted (cn_open n) of
        Some g \<Rightarrow>
          if constant_eq (gr_code g) (pf_code (cn_proof n)) then Inr g
          else Inl (''the confirmation'' @ [CHR 0x27] @ ''s code is not the one exchanged'')
      | None \<Rightarrow>
          and_then (client su) (\<lambda>o2. case o2 of
            None \<Rightarrow> Inl ''nothing signs in by passkey here any more''
          | Some o1 \<Rightarrow>
              (case finish_confirming (su_idp su) o1 (oc_request (cn_open n)) (pf_state (cn_proof n))
                      (pf_code (cn_proof n)) (cn_now n) of
                 Inl e \<Rightarrow> Inl (su_error_text su e)
               | Inr c \<Rightarrow>
                   and_then (su_user_by_pocket_id su (id_sub (cf_identity c))) (\<lambda>who. case who of
                     None \<Rightarrow> Inl (''the passkey is '' @ account_name (cf_identity c) @ [CHR 0x27] @
                                  ''s, whom no account here is bound to'')
                   | Some account \<Rightarrow>
                       Inr \<lparr>gr_code = pf_code (cn_proof n), gr_account = account, gr_auth_time = cf_auth_time c\<rparr>))))"

fun device_for_another :: "'p intent \<Rightarrow> string \<Rightarrow> bool" where
  "device_for_another (IAddDevice i) account \<longleftrightarrow> dv_account i \<noteq> Some account"
| "device_for_another _ account \<longleftrightarrow> False"

definition consume_allow :: "surroundings \<Rightarrow> 'p consuming \<Rightarrow> granted \<Rightarrow> string + unit" where
  "consume_allow su n g =
     (if CONFIRMATION_MAX_AGE_S < saturating_sub (cn_now n) (gr_auth_time g)
      then Inl (''the passkey was presented more than '' @ show_nat (nat (CONFIRMATION_MAX_AGE_S div 60)) @
                '' minutes ago '' @ [CHR 0xE2, CHR 0x80, CHR 0x94] @ '' confirm again'')
      else and_then (su_user_role su (gr_account g)) (\<lambda>r.
        if \<not> allows r (cn_action n)
        then Inl (gr_account g @ '' confirmed, and their role may not '' @ action_describe (cn_action n))
        else if device_for_another (cn_asked n) (gr_account g)
        then Inl (gr_account g @ '' confirmed, and the device would sign in to another person'' @ [CHR 0x27] @ ''s mail'')
        else Inr ()))"

definition consume_finish :: "'p wire \<Rightarrow> 'p consuming \<Rightarrow> granted \<Rightarrow> conf_table \<Rightarrow> conf_table" where
  "consume_finish w n g t =
     (let left = filter (\<lambda>d. d \<noteq> digest w (cn_asked n)) (oc_left (cn_open n)) in
      if left = [] then t
      else table_insert (pf_state (cn_proof n))
             ((cn_open n)\<lparr>oc_left := left, oc_granted := Some g\<rparr>) t)"

text \<open>The whole call, when nothing comes in between.\<close>

definition consume ::
  "'p wire \<Rightarrow> surroundings \<Rightarrow> passkey_proof \<Rightarrow> 'p intent \<Rightarrow> int \<Rightarrow> conf_table \<Rightarrow>
   (string + string) \<times> conf_table" where
  "consume w su pf asked now t =
     (case consume_take w pf asked now t of
        (Inl e, t') \<Rightarrow> (Inl e, t')
      | (Inr n, t') \<Rightarrow>
          (case consume_grant su n of
             Inl e \<Rightarrow> (Inl e, t')
           | Inr g \<Rightarrow>
               (case consume_allow su n g of
                  Inl e \<Rightarrow> (Inl e, t')
                | Inr _ \<Rightarrow> (Inr (gr_account g), consume_finish w n g t'))))"


section \<open>Answering\<close>

text \<open>What is done of an intent: refused, a confirmation begun, or acted on.\<close>

datatype 'p answered = Refused string | Begun "string + string option" | ActOn "'p intent"

definition answer ::
  "'p wire \<Rightarrow> surroundings \<Rightarrow> bytes \<Rightarrow> int \<Rightarrow> 'p intent \<Rightarrow> conf_table \<Rightarrow> 'p answered \<times> conf_table" where
  "answer w su entropy now i t =
     (case i of
        IConfirmed pf asked \<Rightarrow>
          (case consume w su pf asked now t of
             (Inl e, t') \<Rightarrow> (Refused e, t')
           | (Inr account, t') \<Rightarrow> (ActOn asked, t'))
      | IBeginConfirmation is \<Rightarrow>
          (case begin_confirming w su entropy now is t of (a, t') \<Rightarrow> (Begun a, t'))
      | other \<Rightarrow>
          if passkey other \<noteq> None \<and> required su
          then (Refused (''this destroys, and only a passkey presented for it now allows it: confirm it in the '' @
                         ''interface, or run its command as root''), t)
          else (ActOn other, t))"

end
