(* ===== verification/Sha_Vectors.thy ===== *)
theory Sha_Vectors
  imports Token
begin

text \<open>
  The digest of \<open>Token\<close> on two texts of one block, the ones \<open>crates/hlb-types/src/token.rs\<close> tests:
  computed by the definitions, padding, schedule and each quarter of the rounds in turn, and equal
  to what FIPS 180-4 publishes.
\<close>

lemma upt_quarters: "[0..<64] = [0..<16] @ [16..<32] @ [32..<48] @ [48..<64]"
  by (simp add: upt_add_eq_append [symmetric] upt_rec)


section \<open>Three letters\<close>

definition abc_words :: "u32 list" where
  "abc_words =
     [0x61626380, 0x00000000, 0x00000000, 0x00000000, 0x00000000, 0x00000000, 0x00000000, 0x00000000,
      0x00000000, 0x00000000, 0x00000000, 0x00000000, 0x00000000, 0x00000000, 0x00000000, 0x00000018,
      0x61626380, 0x000F0000, 0x7DA86405, 0x600003C6, 0x3E9D7B78, 0x0183FC00, 0x12DCBFDB, 0xE2E2C38E,
      0xC8215C1A, 0xB73679A2, 0xE5BC3909, 0x32663C5B, 0x9D209D67, 0xEC8726CB, 0x702138A4, 0xD3B7973B,
      0x93F5997F, 0x3B68BA73, 0xAFF4FFC1, 0xF10A5C62, 0x0A8B3996, 0x72AF830A, 0x9409E33E, 0x24641522,
      0x9F47BF94, 0xF0A64F5A, 0x3E246A79, 0x27333BA3, 0x0C4763F2, 0x840ABF27, 0x7A290D5D, 0x065C43DA,
      0xFB3E89CB, 0xCC7617DB, 0xB9E66C34, 0xA9993667, 0x84BADEDD, 0xC21462BC, 0x1487472C, 0xB20F7A99,
      0xEF57B9CD, 0xEBE6B238, 0x9FE3095E, 0x78BC8D4B, 0xA43FCF15, 0x668B2FF8, 0xEEABA2CC, 0x12B1EDEB]"

lemma abc_padded: "sha_pad (as_bytes ''abc'') = [0x61, 0x62, 0x63, 0x80] @ replicate 59 0 @ [0x18]"
  by code_simp

lemma abc_schedule: "sha_schedule ([0x61, 0x62, 0x63, 0x80] @ replicate 59 0 @ [0x18]) = abc_words"
  by code_simp

lemma abc_rounds_1:
  "fold (sha_round abc_words) [0..<16]
    (0x6A09E667, 0xBB67AE85, 0x3C6EF372, 0xA54FF53A, 0x510E527F, 0x9B05688C, 0x1F83D9AB, 0x5BE0CD19) =
    (0xB0FA238E, 0xC0645FDE, 0xD932EB16, 0x87912990, 0x07590DCD, 0x0B92F20C, 0x745A48DE, 0x1E578218)"
  by code_simp

lemma abc_rounds_2:
  "fold (sha_round abc_words) [16..<32]
    (0xB0FA238E, 0xC0645FDE, 0xD932EB16, 0x87912990, 0x07590DCD, 0x0B92F20C, 0x745A48DE, 0x1E578218) =
    (0x73B33BF5, 0xEA992A22, 0xA0060B30, 0x363482C9, 0xBA591112, 0x0109AB3A, 0xADE79437, 0x6112A3B7)"
  by code_simp

lemma abc_rounds_3:
  "fold (sha_round abc_words) [32..<48]
    (0x73B33BF5, 0xEA992A22, 0xA0060B30, 0x363482C9, 0xBA591112, 0x0109AB3A, 0xADE79437, 0x6112A3B7) =
    (0x4172328D, 0xA14C14B0, 0x72AB4B91, 0x26628815, 0xFECF0BC6, 0xD57B94A9, 0xB7755DA1, 0xA80F11F0)"
  by code_simp

lemma abc_rounds_4:
  "fold (sha_round abc_words) [48..<64]
    (0x4172328D, 0xA14C14B0, 0x72AB4B91, 0x26628815, 0xFECF0BC6, 0xD57B94A9, 0xB7755DA1, 0xA80F11F0) =
    (0x506E3058, 0xD39A2165, 0x04D24D6C, 0xB85E2CE9, 0x5EF50F24, 0xFB121210, 0x948D25B6, 0x961F4894)"
  by code_simp

lemmas abc_rounds = abc_rounds_1 abc_rounds_2 abc_rounds_3 abc_rounds_4

lemma sha256_abc: "sha256_hex (as_bytes ''abc'') = ''ba7816bf8f01cfea414140de5dae2223b00361a396177a9cb410ff61f20015ad''"
proof -
  have "fold (sha_round abc_words) [0..<64] (0x6A09E667, 0xBB67AE85, 0x3C6EF372, 0xA54FF53A, 0x510E527F, 0x9B05688C, 0x1F83D9AB, 0x5BE0CD19) =
      (0x506E3058, 0xD39A2165, 0x04D24D6C, 0xB85E2CE9, 0x5EF50F24, 0xFB121210, 0x948D25B6, 0x961F4894)"
    unfolding upt_quarters fold_append o_apply abc_rounds ..
  moreover have "chunks 64 ([0x61, 0x62, 0x63, 0x80] @ replicate 59 0 @ [0x18] :: bytes) = [[0x61, 0x62, 0x63, 0x80] @ replicate 59 0 @ [0x18]]" by code_simp
  moreover have "hex (concat (map (be_bytes 4) (map2 (+) SHA_H [0x506E3058, 0xD39A2165, 0x04D24D6C, 0xB85E2CE9, 0x5EF50F24, 0xFB121210, 0x948D25B6, 0x961F4894]))) =
      ''ba7816bf8f01cfea414140de5dae2223b00361a396177a9cb410ff61f20015ad''"
    by code_simp
  moreover have "(SHA_H ! 0, SHA_H ! 1, SHA_H ! 2, SHA_H ! 3, SHA_H ! 4, SHA_H ! 5, SHA_H ! 6, SHA_H ! 7) =
      (0x6A09E667, 0xBB67AE85, 0x3C6EF372, 0xA54FF53A, 0x510E527F, 0x9B05688C, 0x1F83D9AB, 0x5BE0CD19)"
    by (simp add: SHA_H_def)
  ultimately show ?thesis
    unfolding sha256_hex_def sha256_def abc_padded
    by (simp only: list.map fold_simps sha_block_def abc_schedule prod.case)
qed

section \<open>The empty text\<close>

definition empty_words :: "u32 list" where
  "empty_words =
     [0x80000000, 0x00000000, 0x00000000, 0x00000000, 0x00000000, 0x00000000, 0x00000000, 0x00000000,
      0x00000000, 0x00000000, 0x00000000, 0x00000000, 0x00000000, 0x00000000, 0x00000000, 0x00000000,
      0x80000000, 0x00000000, 0x00205000, 0x00000000, 0x22000800, 0x00000000, 0x05089542, 0x80000000,
      0x58080000, 0x0040A000, 0x00162505, 0x66001800, 0xD6222580, 0x14225508, 0xD645F95C, 0xC9282000,
      0xC3F10094, 0x284CA766, 0x06886DC6, 0xA37BF116, 0x717CBE96, 0xFEC2D74A, 0xA7B67F00, 0x811596A2,
      0x98A6E768, 0x03B20C82, 0x5D1DA7C9, 0xB156B935, 0xC3DDCA11, 0x249C107F, 0xC48D24EF, 0x5DE54C30,
      0xDEFECE65, 0x2CA1480D, 0x3C15332C, 0x01CEC9AD, 0x160CCCD0, 0x0BACDA98, 0x361B8FE0, 0xD2320BA6,
      0x029B7007, 0x7546587C, 0x07F54F39, 0xF808DDC3, 0xDCCA7608, 0x5E427188, 0x44BCEC5D, 0x3B5EC49B]"

lemma empty_padded: "sha_pad (as_bytes []) = [0x80] @ replicate 62 0 @ [0x00]"
  by code_simp

lemma empty_schedule: "sha_schedule ([0x80] @ replicate 62 0 @ [0x00]) = empty_words"
  by code_simp

lemma empty_rounds_1:
  "fold (sha_round empty_words) [0..<16]
    (0x6A09E667, 0xBB67AE85, 0x3C6EF372, 0xA54FF53A, 0x510E527F, 0x9B05688C, 0x1F83D9AB, 0x5BE0CD19) =
    (0xB40085B5, 0xB88AFDDB, 0x45C013A7, 0x2102D2CD, 0x5CB8E863, 0x1CCFAC39, 0x2B427296, 0xCDFDFE52)"
  by code_simp

lemma empty_rounds_2:
  "fold (sha_round empty_words) [16..<32]
    (0xB40085B5, 0xB88AFDDB, 0x45C013A7, 0x2102D2CD, 0x5CB8E863, 0x1CCFAC39, 0x2B427296, 0xCDFDFE52) =
    (0x11E7025F, 0xA0BB0CDF, 0x72D3A00D, 0x64BC9E1C, 0xBBD7846C, 0x564A6626, 0xB04AB22D, 0x95696B75)"
  by code_simp

lemma empty_rounds_3:
  "fold (sha_round empty_words) [32..<48]
    (0x11E7025F, 0xA0BB0CDF, 0x72D3A00D, 0x64BC9E1C, 0xBBD7846C, 0x564A6626, 0xB04AB22D, 0x95696B75) =
    (0x365A34CD, 0x54982D6C, 0x32FA442B, 0xA40972D4, 0xCBB3F8EB, 0x8A6A82B2, 0xD285C679, 0xAA2C1810)"
  by code_simp

lemma empty_rounds_4:
  "fold (sha_round empty_words) [48..<64]
    (0x365A34CD, 0x54982D6C, 0x32FA442B, 0xA40972D4, 0xCBB3F8EB, 0x8A6A82B2, 0xD285C679, 0xAA2C1810) =
    (0x79A6DDDB, 0xDD946D8F, 0x5E8D0156, 0xF41FC3EA, 0xD69FEF65, 0xC9962AC0, 0x8511BF70, 0x1C71EB3C)"
  by code_simp

lemmas empty_rounds = empty_rounds_1 empty_rounds_2 empty_rounds_3 empty_rounds_4

lemma sha256_empty: "sha256_hex (as_bytes []) = ''e3b0c44298fc1c149afbf4c8996fb92427ae41e4649b934ca495991b7852b855''"
proof -
  have "fold (sha_round empty_words) [0..<64] (0x6A09E667, 0xBB67AE85, 0x3C6EF372, 0xA54FF53A, 0x510E527F, 0x9B05688C, 0x1F83D9AB, 0x5BE0CD19) =
      (0x79A6DDDB, 0xDD946D8F, 0x5E8D0156, 0xF41FC3EA, 0xD69FEF65, 0xC9962AC0, 0x8511BF70, 0x1C71EB3C)"
    unfolding upt_quarters fold_append o_apply empty_rounds ..
  moreover have "chunks 64 ([0x80] @ replicate 62 0 @ [0x00] :: bytes) = [[0x80] @ replicate 62 0 @ [0x00]]" by code_simp
  moreover have "hex (concat (map (be_bytes 4) (map2 (+) SHA_H [0x79A6DDDB, 0xDD946D8F, 0x5E8D0156, 0xF41FC3EA, 0xD69FEF65, 0xC9962AC0, 0x8511BF70, 0x1C71EB3C]))) =
      ''e3b0c44298fc1c149afbf4c8996fb92427ae41e4649b934ca495991b7852b855''"
    by code_simp
  moreover have "(SHA_H ! 0, SHA_H ! 1, SHA_H ! 2, SHA_H ! 3, SHA_H ! 4, SHA_H ! 5, SHA_H ! 6, SHA_H ! 7) =
      (0x6A09E667, 0xBB67AE85, 0x3C6EF372, 0xA54FF53A, 0x510E527F, 0x9B05688C, 0x1F83D9AB, 0x5BE0CD19)"
    by (simp add: SHA_H_def)
  ultimately show ?thesis
    unfolding sha256_hex_def sha256_def empty_padded
    by (simp only: list.map fold_simps sha_block_def empty_schedule prod.case)
qed

end
