(* ===== verification/Token_Props.thy ===== *)
theory Token_Props
  imports Token Sha_Vectors
begin

text \<open>
  What \<open>Token\<close> guarantees: the comparison in constant time is equality, base64url reads back
  what it wrote, and a token and its stored fingerprint spell their bytes.
\<close>

section \<open>Comparison in constant time\<close>

lemma as_bytes_inject: "as_bytes a = as_bytes b \<longleftrightarrow> a = b"
proof -
  have "inj (\<lambda>c :: char. of_nat (of_char c) :: u8)"
  proof (rule injI)
    fix c d :: char
    have b: "(of_char c :: nat) < 256" "(of_char d :: nat) < 256" by simp_all
    assume "(of_nat (of_char c) :: u8) = of_nat (of_char d)"
    then have "unat (of_nat (of_char c) :: u8) = unat (of_nat (of_char d) :: u8)" by simp
    then have "(of_char c :: nat) = of_char d" using b by (simp only: unat_of_nat) simp
    then show "c = d" by simp
  qed
  then show ?thesis unfolding as_bytes_def by (simp add: inj_map_eq_map)
qed

lemma or_fold_zero:
  "foldl (\<lambda>acc (x, y). acc OR (x XOR y)) (n :: u8) ps = 0 \<longleftrightarrow> n = 0 \<and> (\<forall>(x, y) \<in> set ps. x = y)"
proof (induction ps arbitrary: n)
  case (Cons p ps)
  obtain x y where p: "p = (x, y)" by (cases p)
  have "x XOR y = 0 \<longleftrightarrow> x = y"
    by (metis xor.assoc xor.left_neutral xor_self_eq)
  then have "n OR (x XOR y) = 0 \<longleftrightarrow> n = 0 \<and> x = y" by (simp add: or_eq_0_iff)
  then show ?case using Cons by (auto simp: p)
qed simp

lemma zip_diagonal: "length xs = length ys \<Longrightarrow> (\<forall>(x, y) \<in> set (zip xs ys). x = y) \<longleftrightarrow> xs = ys"
  by (induction xs ys rule: list_induct2) auto

lemma constant_eq_refl: "constant_eq a a"
  by (simp add: constant_eq_def or_fold_zero zip_diagonal)

lemma constant_eq_iff: "constant_eq a b \<longleftrightarrow> a = b"
proof (cases "length a = length b")
  case True
  then have "length (as_bytes a) = length (as_bytes b)" by (simp add: as_bytes_def)
  with True show ?thesis
    by (simp add: constant_eq_def or_fold_zero zip_diagonal as_bytes_inject)
qed (auto simp: constant_eq_def)

text \<open>
  C19: The comparison in constant time is equality: it looks at every byte and still answers
  yes exactly on equal texts.
\<close>

theorem constant_eq_is_equality: "constant_eq a b \<longleftrightarrow> a = b"
  by (rule constant_eq_iff)


section \<open>Base64\<close>

lemma letter_value_BASE64URL: "n < 64 \<Longrightarrow> letter_value (BASE64URL ! n) = Some (of_nat n) \<and> BASE64URL ! n \<noteq> CHR ''=''"
proof -
  have "list_all (\<lambda>n. letter_value (BASE64URL ! n) = Some (of_nat n) \<and> BASE64URL ! n \<noteq> CHR ''='') [0..<64]"
    by (simp add: upt_rec BASE64URL_def letter_value_def is_ascii_uppercase_def is_ascii_lowercase_def is_ascii_digit_def)
  then show "n < 64 \<Longrightarrow> letter_value (BASE64URL ! n) = Some (of_nat n) \<and> BASE64URL ! n \<noteq> CHR ''=''"
    by (simp add: list_all_iff)
qed

definition six :: "u32 \<Rightarrow> nat \<Rightarrow> u32" where
  "six n i = drop_bit (18 - 6 * i) n AND 0x3F"

lemma six_bound: "unat (six n i) < 64"
proof -
  have "six n i = take_bit 6 (drop_bit (18 - 6 * i) n)"
    by (simp add: six_def take_bit_eq_mask mask_eq_exp_minus_1)
  then have "unat (six n i) = unat (drop_bit (18 - 6 * i) n) mod 64"
    by (simp add: take_bit_eq_mod unat_mod)
  then show ?thesis by simp
qed

lemma bit_six: "bit (six n i) k \<longleftrightarrow> k < 6 \<and> bit n (18 - 6 * i + k)"
proof -
  have "six n i = take_bit 6 (drop_bit (18 - 6 * i) n)"
    by (simp add: six_def take_bit_eq_mask mask_eq_exp_minus_1)
  then show ?thesis by (simp add: bit_simps)
qed

text \<open>One letter read: its six bits pushed, and the byte taken out once there are eight.\<close>

definition push6 :: "u32 \<Rightarrow> u32 \<Rightarrow> u32" where
  "push6 acc v = push_bit 6 acc OR v"

definition byte_at :: "nat \<Rightarrow> u32 \<Rightarrow> u8" where
  "byte_at k acc = ucast (drop_bit k acc AND 0xFF)"

lemma decode_letter:
  "decode_from acc bits (BASE64URL ! unat (six n i) # s) =
     (if 8 \<le> bits + 6
      then map_option ((#) (byte_at (bits + 6 - 8) (push6 acc (six n i))))
             (decode_from (push6 acc (six n i)) (bits + 6 - 8) s)
      else decode_from (push6 acc (six n i)) (bits + 6) s)"
proof -
  have "ucast (of_nat (unat (six n i)) :: u8) = six n i"
    unfolding of_nat_unat by (rule bit_eqI) (auto simp: bit_simps bit_six)
  then show ?thesis using letter_value_BASE64URL [OF six_bound, of n i] by (simp add: Let_def push6_def byte_at_def)
qed

lemma low_byte: "ucast (w AND 0xFF) = (ucast w :: u8)" for w :: u32
proof -
  have "w AND 0xFF = take_bit 8 w" by (simp add: take_bit_eq_mask mask_eq_exp_minus_1)
  then show ?thesis by (simp add: bit_eq_iff bit_simps)
qed

text \<open>The three bytes come back, the first from two letters, the second from three, the third from four.\<close>

lemma first_byte: "byte_at 4 (push6 (push6 acc (six n 0)) (six n 1)) = ucast (drop_bit 16 n)"
  unfolding byte_at_def low_byte push6_def by (rule bit_eqI) (auto simp: bit_simps bit_six)

lemma second_byte: "byte_at 2 (push6 (push6 acc (six n 1)) (six n 2)) = ucast (drop_bit 8 n)"
  unfolding byte_at_def low_byte push6_def by (rule bit_eqI) (auto simp: bit_simps bit_six)

lemma third_byte: "byte_at 0 (push6 (push6 acc (six n 2)) (six n 3)) = ucast n"
  unfolding byte_at_def low_byte push6_def by (rule bit_eqI) (auto simp: bit_simps bit_six)

lemma block_bytes:
  "ucast (drop_bit 16 (block_bits (a # r))) = a"
  "ucast (drop_bit 8 (block_bits (a # b # r))) = b"
  "ucast (block_bits (a # b # [c])) = c"
  unfolding block_bits_def Let_def
  by (rule bit_eqI, auto simp: bit_simps dest: bit_imp_le_length)+

lemma block_letters_six: "block_letters bs = map (\<lambda>i. BASE64URL ! unat (six (block_bits bs) i)) [0..<length bs + 1]"
  by (simp add: block_letters_def six_def)

lemma decode_block:
  "\<exists>acc'. decode_from acc 0 (block_letters [a, b, c] @ s) = map_option (\<lambda>r. a # b # c # r) (decode_from acc' 0 s)"
proof -
  let ?n = "block_bits [a, b, c]"
  have l: "block_letters [a, b, c] = map (\<lambda>i. BASE64URL ! unat (six ?n i)) [0, 1, 2, 3]"
    by (simp add: block_letters_six upt_rec numeral_2_eq_2 numeral_3_eq_3)
  show ?thesis
    unfolding l list.map append_Cons append_Nil decode_letter
    using first_byte [of acc ?n] second_byte [of "push6 acc (six ?n 0)" ?n]
      third_byte [of "push6 (push6 acc (six ?n 0)) (six ?n 1)" ?n]
    by (intro exI [of _ "push6 (push6 (push6 (push6 acc (six ?n 0)) (six ?n 1)) (six ?n 2)) (six ?n 3)"])
      (simp add: block_bytes option.map_comp comp_def)
qed

lemma decode_last:
  "decode_from acc 0 (block_letters [a]) = Some [a]"
  "decode_from acc 0 (block_letters [a, b]) = Some [a, b]"
proof -
  have l: "block_letters [a] = map (\<lambda>i. BASE64URL ! unat (six (block_bits [a]) i)) [0, 1]"
    "block_letters [a, b] = map (\<lambda>i. BASE64URL ! unat (six (block_bits [a, b]) i)) [0, 1, 2]"
    by (simp_all add: block_letters_six upt_rec numeral_2_eq_2)
  show "decode_from acc 0 (block_letters [a]) = Some [a]"
    unfolding l list.map decode_letter using first_byte [of acc "block_bits [a]"] by (simp add: block_bytes)
  show "decode_from acc 0 (block_letters [a, b]) = Some [a, b]"
    unfolding l list.map decode_letter
    using first_byte [of acc "block_bits [a, b]"] second_byte [of "push6 acc (six (block_bits [a, b]) 0)" "block_bits [a, b]"]
    by (simp add: block_bytes)
qed

lemma base64url_Cons3: "base64url (a # b # c # r) = block_letters [a, b, c] @ base64url r"
  by (simp add: base64url_def chunks.simps [of 3 "a # b # c # r"])

lemma decode_from_encoded: "decode_from acc 0 (base64url bs) = Some bs"
proof (induction "length bs" arbitrary: bs acc rule: less_induct)
  case less
  consider "bs = []" | a where "bs = [a]" | a b where "bs = [a, b]" | a b c r where "bs = a # b # c # r"
    by (metis list.exhaust)
  then show ?case
  proof cases
    case 1
    then show ?thesis by (simp add: base64url_def chunks.simps [of 3 "[]"])
  next
    case (2 a)
    then show ?thesis by (simp add: base64url_def chunks.simps [of 3 "[a]"] chunks.simps [of 3 "[]"] decode_last)
  next
    case (3 a b)
    then show ?thesis by (simp add: base64url_def chunks.simps [of 3 "[a, b]"] chunks.simps [of 3 "[]"] decode_last)
  next
    case (4 a b c r)
    obtain acc' where "decode_from acc 0 (block_letters [a, b, c] @ base64url r) =
        map_option (\<lambda>r. a # b # c # r) (decode_from acc' 0 (base64url r))"
      using decode_block by blast
    then show ?thesis using less [of r acc'] by (simp add: 4 base64url_Cons3)
  qed
qed

text \<open>
  base64url reads back every sequence of bytes it wrote, of any length: what a block of
  one or two bytes leaves pending in the accumulator is dropped, and the bits shifted out of
  its 32 never matter.
\<close>

theorem base64url_roundtrip: "base64url_decode (base64url bs) = Some bs"
  by (simp add: base64url_decode_def decode_from_encoded)


section \<open>Lengths\<close>

lemma pad_zeros_length: "length (pad_zeros m) mod 64 = 56"
proof (induction m rule: pad_zeros.induct)
  case (1 m)
  then show ?case by (cases "length m mod 64 = 56") (simp_all add: pad_zeros.simps [of m])
qed

lemma length_be_bytes [simp]: "length (be_bytes n w) = n"
  by (simp add: be_bytes_def)

lemma sha_pad_whole: "length (sha_pad m) mod 64 = 0"
proof -
  have "length (sha_pad m) mod 64 = (length (pad_zeros (m @ [0x80])) mod 64 + 8) mod 64"
    by (simp add: sha_pad_def mod_add_left_eq)
  then show ?thesis by (simp add: pad_zeros_length)
qed

lemma length_sha_block: "length h = 8 \<Longrightarrow> length (sha_block block h) = 8"
  by (simp add: sha_block_def split: prod.split)

lemma length_sha_fold: "length h = 8 \<Longrightarrow> length (fold sha_block bs h) = 8"
  by (induction bs arbitrary: h) (simp_all add: length_sha_block)

lemma length_sha256: "length (sha256 m) = 32"
proof -
  have "length (concat (map (be_bytes 4) ws)) = 4 * length ws" for ws :: "u32 list"
    by (induction ws) simp_all
  moreover have "length (fold sha_block (chunks 64 (sha_pad m)) SHA_H) = 8"
    by (rule length_sha_fold) (simp add: SHA_H_def)
  ultimately show ?thesis by (simp add: sha256_def)
qed

lemma length_hex: "length (hex bs) = 2 * length bs"
  by (induction bs) (simp_all add: hex_def)

lemma length_flush5: "length (flush5 w n) = n div 5"
proof (induction w n rule: flush5.induct)
  case (1 w n)
  show ?case
  proof (cases "5 \<le> n")
    case True
    then have "length (flush5 w n) = Suc ((n - 5) div 5)" using 1 by (simp add: flush5.simps [of w n])
    also have "\<dots> = n div 5" using True by (subst le_div_geq) simp_all
    finally show ?thesis .
  qed (simp add: flush5.simps [of w n])
qed

lemma length_base32_from: "n < 5 \<Longrightarrow> length (base32_from w n bs) = (n + 8 * length bs + 4) div 5"
proof (induction w n bs rule: base32_from.induct)
  case (2 w n b bs)
  have "length (base32_from w n (b # bs)) = (n + 8) div 5 + ((n + 8) mod 5 + 8 * length bs + 4) div 5"
    using 2 by (simp add: Let_def length_flush5)
  also have "\<dots> = (5 * ((n + 8) div 5) + ((n + 8) mod 5 + 8 * length bs + 4)) div 5"
    by (subst div_mult_self4) simp_all
  also have "5 * ((n + 8) div 5) + ((n + 8) mod 5 + 8 * length bs + 4) = n + 8 * length (b # bs) + 4"
    using mult_div_mod_eq [of 5 "n + 8"] by simp
  finally show ?case .
qed auto

section \<open>What a token and a fingerprint spell\<close>

text \<open>The low bits of a word, most significant first; a sequence of bytes as its bits.\<close>

definition low_bits :: "nat \<Rightarrow> 'a::len word \<Rightarrow> bool list" where
  "low_bits n w = map (bit w) (rev [0..<n])"

definition bits_of_bytes :: "bytes \<Rightarrow> bool list" where
  "bits_of_bytes bs = concat (map (low_bits 8) bs)"

text \<open>Base 32 as RFC 4648 reads it, five bits a letter; a hexadecimal digit, four.\<close>

definition base32_value :: "char \<Rightarrow> u32" where
  "base32_value c =
     (let n = (of_char c :: nat) in if is_ascii_uppercase c then of_nat (n - 65) else of_nat (n - 50 + 26))"

definition is_base32_letter :: "char \<Rightarrow> bool" where
  "is_base32_letter c \<longleftrightarrow> is_ascii_uppercase c \<or> c \<in> set ''234567''"

definition hex_value :: "char \<Rightarrow> u8" where
  "hex_value c = (let n = (of_char c :: nat) in if is_ascii_digit c then of_nat (n - 48) else of_nat (n - 97 + 10))"

definition spelled_base32 :: "string \<Rightarrow> bool list" where
  "spelled_base32 s = concat (map (\<lambda>c. low_bits 5 (base32_value c)) s)"

definition spelled_hex :: "string \<Rightarrow> bool list" where
  "spelled_hex s = concat (map (\<lambda>c. low_bits 4 (hex_value c)) s)"

lemma spelled_base32_simps [simp]:
  "spelled_base32 [] = []" "spelled_base32 (c # s) = low_bits 5 (base32_value c) @ spelled_base32 s"
  "spelled_base32 (s @ s') = spelled_base32 s @ spelled_base32 s'"
  by (simp_all add: spelled_base32_def)

lemma BASE32_letter: "n < 32 \<Longrightarrow> base32_value (BASE32 ! n) = of_nat n \<and> is_base32_letter (BASE32 ! n)"
proof -
  have "list_all (\<lambda>n. base32_value (BASE32 ! n) = of_nat n \<and> is_base32_letter (BASE32 ! n)) [0..<32]"
    by (simp add: upt_rec BASE32_def base32_value_def is_base32_letter_def is_ascii_uppercase_def)
  then show "n < 32 \<Longrightarrow> base32_value (BASE32 ! n) = of_nat n \<and> is_base32_letter (BASE32 ! n)"
    by (simp add: list_all_iff)
qed

lemma low5: "w AND 0x1F = take_bit 5 w" for w :: u32
  by (simp add: take_bit_eq_mask mask_eq_exp_minus_1)

lemma letter_of_five: "base32_value (BASE32 ! unat (w AND 0x1F)) = take_bit 5 w \<and> is_base32_letter (BASE32 ! unat (w AND 0x1F))"
proof -
  have "unat (take_bit 5 w) = unat w mod 32" by (simp add: take_bit_eq_mod unat_mod)
  then have "unat (w AND 0x1F) < 32" unfolding low5 by simp
  from BASE32_letter [OF this] show ?thesis by (simp add: low5)
qed

lemma low_bits_split: "m \<le> n \<Longrightarrow> low_bits n w = low_bits (n - m) (drop_bit m w) @ low_bits m w"
proof (intro nth_equalityI)
  fix i assume "m \<le> n" "i < length (low_bits n w)"
  then show "low_bits n w ! i = (low_bits (n - m) (drop_bit m w) @ low_bits m w) ! i"
    by (auto simp: low_bits_def rev_nth nth_append bit_drop_bit_eq intro!: arg_cong [of _ _ "bit w"])
qed (simp add: low_bits_def)

lemma low_bits_take: "n \<le> m \<Longrightarrow> low_bits n (take_bit m w) = low_bits n w"
  by (auto simp: low_bits_def bit_take_bit_iff)

lemma spelled_flush5:
  "spelled_base32 (flush5 w n) @ low_bits (n mod 5) w = low_bits n w \<and> list_all is_base32_letter (flush5 w n)"
proof (induction w n rule: flush5.induct)
  case (1 w n)
  show ?case
  proof (cases "5 \<le> n")
    case True
    let ?v = "drop_bit (n - 5) w"
    have "low_bits n w = low_bits 5 ?v @ low_bits (n - 5) w" using low_bits_split [of "n - 5" n w] True by simp
    moreover have "(n - 5) mod 5 = n mod 5" using True by (simp add: le_mod_geq)
    ultimately show ?thesis
      using 1 True letter_of_five [of ?v] by (simp add: flush5.simps [of w n] low_bits_take)
  qed (simp add: flush5.simps [of w n])
qed

lemma low_bits_push: "n + 8 \<le> 32 \<Longrightarrow> low_bits (n + 8) (push_bit 8 w OR ucast b) = low_bits n w @ low_bits 8 b"
  for w :: u32 and b :: u8
proof -
  assume n: "n + 8 \<le> 32"
  have "low_bits n (drop_bit 8 (push_bit 8 w OR ucast b)) = low_bits n w"
    using n by (auto simp: low_bits_def bit_simps dest: bit_imp_le_length)
  moreover have "low_bits 8 (push_bit 8 w OR ucast b) = low_bits 8 b"
    by (auto simp: low_bits_def bit_simps)
  ultimately show ?thesis using low_bits_split [of 8 "n + 8" "push_bit 8 w OR ucast b"] by simp
qed

lemma spelled_base32_from:
  "n < 5 \<Longrightarrow> spelled_base32 (base32_from w n bs) =
     low_bits n w @ bits_of_bytes bs @ replicate ((5 - (n + 8 * length bs) mod 5) mod 5) False \<and>
   list_all is_base32_letter (base32_from w n bs)"
proof (induction w n bs rule: base32_from.induct)
  case (1 w n)
  have "low_bits 5 (push_bit (5 - n) w) = low_bits n w @ replicate (5 - n) False"
  proof -
    have "low_bits n (drop_bit (5 - n) (push_bit (5 - n) w)) = low_bits n w"
      using 1 by (auto simp: low_bits_def bit_simps dest: bit_imp_le_length)
    moreover have "low_bits (5 - n) (push_bit (5 - n) w) = replicate (5 - n) False"
      by (intro nth_equalityI) (auto simp: low_bits_def bit_simps rev_nth)
    ultimately show ?thesis using low_bits_split [of "5 - n" 5 "push_bit (5 - n) w"] 1 by simp
  qed
  then show ?case
    using 1 letter_of_five [of "push_bit (5 - n) w"]
    by (cases "n = 0") (simp_all add: low_bits_take bits_of_bytes_def low_bits_def [of 0])
next
  case (2 w n b bs)
  let ?w = "push_bit 8 w OR ucast b"
  have ih: "spelled_base32 (base32_from ?w ((n + 8) mod 5) bs) =
      low_bits ((n + 8) mod 5) ?w @ bits_of_bytes bs @ replicate ((5 - ((n + 8) mod 5 + 8 * length bs) mod 5) mod 5) False"
    "list_all is_base32_letter (base32_from ?w ((n + 8) mod 5) bs)"
    using 2 by simp_all
  have "((n + 8) mod 5 + 8 * length bs) mod 5 = (n + 8 * length (b # bs)) mod 5"
    using mod_add_left_eq [of "n + 8" 5 "8 * length bs"] by (simp add: ac_simps)
  then show ?case
    using ih spelled_flush5 [of ?w "n + 8"] low_bits_push [of n w b] 2(2)
    by (simp add: Let_def bits_of_bytes_def)
qed

lemma spelled_hex_bytes: "spelled_hex (hex bs) = bits_of_bytes bs \<and> set (hex bs) \<subseteq> set ''0123456789abcdef''"
proof (induction bs)
  case (Cons b bs)
  have digit: "low_bits 4 (hex_value (hex_digit d)) = low_bits 4 (of_nat d :: u8) \<and> hex_digit d \<in> set ''0123456789abcdef''"
    if "d < 16" for d
  proof -
    have "list_all (\<lambda>d. hex_value (hex_digit d) = of_nat d \<and> hex_digit d \<in> set ''0123456789abcdef'') [0..<16]"
      by (simp add: upt_rec hex_digit_def hex_value_def is_ascii_digit_def)
    with that show ?thesis by (simp add: list_all_iff)
  qed
  have "unat b < 256" using unsigned_less [of b] by simp
  then have d: "unat b div 16 < 16" "unat b mod 16 < 16" by auto
  have "(of_nat (unat b div 16) :: u8) = drop_bit 4 b"
    by (simp add: drop_bit_eq_div word_arith_nat_div)
  moreover have "(of_nat (unat b mod 16) :: u8) = take_bit 4 b"
    by (simp add: take_bit_eq_mod word_arith_nat_mod)
  ultimately have "low_bits 4 (of_nat (unat b div 16) :: u8) @ low_bits 4 (of_nat (unat b mod 16) :: u8) = low_bits 8 b"
    using low_bits_split [of 4 8 b] by (simp add: low_bits_take)
  then show ?case
    using Cons digit [OF d(1)] digit [OF d(2)] by (simp add: hex_def spelled_hex_def bits_of_bytes_def)
qed (simp add: hex_def spelled_hex_def bits_of_bytes_def)

text \<open>
  C20: A fresh token is 52 letters of the base-32 alphabet that spell the 32 random bytes, bit after
  bit, and four zero bits; what is stored of it is 64 lower-case hexadecimal digits that spell the
  32 bytes of its SHA-256, and nothing else of it but the name and the role. The digest is the one
  FIPS 180-4 publishes for \<open>abc\<close>.
\<close>

theorem token_is_its_bytes:
  assumes "length random = TOKEN_BYTES" "generate_token name r random = (token, stored)"
  shows "length token = 52 \<and> list_all is_base32_letter token \<and>
    spelled_base32 token = bits_of_bytes random @ replicate 4 False \<and>
    length (tk_fingerprint stored) = 64 \<and> set (tk_fingerprint stored) \<subseteq> set ''0123456789abcdef'' \<and>
    spelled_hex (tk_fingerprint stored) = bits_of_bytes (sha256 (as_bytes token)) \<and>
    length (sha256 (as_bytes token)) = 32 \<and> tk_name stored = name \<and> tk_role stored = r \<and>
    sha256_hex (as_bytes ''abc'') = ''ba7816bf8f01cfea414140de5dae2223b00361a396177a9cb410ff61f20015ad''"
proof -
  have t: "token = base32_from 0 0 random"
    "stored = \<lparr>tk_name = name, tk_role = r, tk_fingerprint = hex (sha256 (as_bytes token))\<rparr>"
    using assms(2) by (auto simp: generate_token_def Let_def base32_def fingerprint_def)
  have "length token = 52" using assms(1) by (simp add: t(1) length_base32_from TOKEN_BYTES_def)
  moreover have "list_all is_base32_letter token"
    "spelled_base32 token = bits_of_bytes random @ replicate 4 False"
    using spelled_base32_from [of 0 0 random] assms(1) by (simp_all add: t(1) low_bits_def TOKEN_BYTES_def)
  ultimately show ?thesis
    using spelled_hex_bytes [of "sha256 (as_bytes token)"] by (simp add: t(2) length_hex length_sha256 sha256_abc)
qed

theorem token_is_its_bytes_witness:
  "\<exists>token stored. generate_token ''ci'' Viewer (replicate 32 0) = (token, stored) \<and> length token = 52 \<and>
     spelled_base32 token = replicate 260 False"
proof -
  obtain token stored where g: "generate_token ''ci'' Viewer (replicate 32 0) = (token, stored)" by fastforce
  have "bits_of_bytes (replicate n 0) = replicate (8 * n) False" for n
  proof (induction n)
    case (Suc n)
    have "low_bits 8 (0 :: u8) = replicate 8 False"
      by (intro nth_equalityI) (simp_all add: low_bits_def rev_nth)
    with Suc show ?case by (simp add: bits_of_bytes_def replicate_add)
  qed (simp add: bits_of_bytes_def)
  with token_is_its_bytes [OF _ g] g show ?thesis by (simp add: TOKEN_BYTES_def replicate_add [symmetric])
qed

text \<open>A token matches the form stored when it was made.\<close>

lemma generated_token_matches:
  "token_matches (snd (generate_token name r random)) (fst (generate_token name r random))"
  by (simp add: token_matches_def generate_token_def Let_def constant_eq_def or_fold_zero zip_diagonal)

end
