(* ===== verification/Confirm_Props.thy ===== *)
theory Confirm_Props
  imports Confirm Token_Props "HOL-Library.Multiset"
begin

text \<open>
  The confirmations as a state machine. Any number of calls run at once: each step is one of
  the places where a call holds the table, and what the surroundings answered in between is
  free. The trace records what was begun and what was acted on. What is shown holds in every
  reachable state, whatever the order of the steps.
\<close>

section \<open>Steps\<close>

datatype 'p conf_event =
    EvBegun (ev_state: string) (ev_intents: "'p intent list")
  | EvActed (ev_state: string) (ev_digest: string) (ev_asked: "'p intent") (ev_granted: granted) (ev_role: role) (ev_now: int)

record 'p conf_sys =
  cs_table :: conf_table
  cs_running :: "'p consuming list"
  cs_trace :: "'p conf_event list"

definition begun_states :: "'p conf_event list \<Rightarrow> string set" where
  "begun_states tr = {k. \<exists>is. EvBegun k is \<in> set tr}"

text \<open>
  A state drawn is fresh: 32 random bytes. A hash map may list its entries in another order at
  any time. A running call fails or finishes on whatever the surroundings answered it.
\<close>

inductive conf_step :: "'p wire \<Rightarrow> 'p conf_sys \<Rightarrow> 'p conf_sys \<Rightarrow> bool" for w where
  Begin: "begin_confirming w su entropy now intents (cs_table s) = (Inr (Some url), t') \<Longrightarrow>
     base64url (take 32 entropy) \<notin> begun_states (cs_trace s) \<Longrightarrow>
     conf_step w s (s\<lparr>cs_table := t', cs_trace := EvBegun (base64url (take 32 entropy)) intents # cs_trace s\<rparr>)"
| Take: "consume_take w pf asked now (cs_table s) = (Inr n, t') \<Longrightarrow>
     conf_step w s (s\<lparr>cs_table := t', cs_running := n # cs_running s\<rparr>)"
| TakeRefused: "consume_take w pf asked now (cs_table s) = (Inl e, t') \<Longrightarrow>
     conf_step w s (s\<lparr>cs_table := t'\<rparr>)"
| Finish: "cs_running s = before @ n # after \<Longrightarrow> consume_grant su n = Inr g \<Longrightarrow>
     consume_allow su' n g = Inr () \<Longrightarrow> su_user_role su' (gr_account g) = Inr r \<Longrightarrow>
     conf_step w s (s\<lparr>cs_table := consume_finish w n g (cs_table s), cs_running := before @ after,
       cs_trace := EvActed (pf_state (cn_proof n)) (digest w (cn_asked n)) (cn_asked n) g r (cn_now n) # cs_trace s\<rparr>)"
| Fail: "cs_running s = before @ n # after \<Longrightarrow> conf_step w s (s\<lparr>cs_running := before @ after\<rparr>)"
| Reorder: "mset t' = mset (cs_table s) \<Longrightarrow> conf_step w s (s\<lparr>cs_table := t'\<rparr>)"

definition conf_start :: "'p conf_sys" where
  "conf_start = \<lparr>cs_table = [], cs_running = [], cs_trace = []\<rparr>"

inductive conf_reachable :: "'p wire \<Rightarrow> 'p conf_sys \<Rightarrow> bool" for w where
  start: "conf_reachable w conf_start"
| step: "conf_reachable w s \<Longrightarrow> conf_step w s s' \<Longrightarrow> conf_reachable w s'"


section \<open>The table\<close>

lemma set_table_remove: "set (table_remove k t) = {e \<in> set t. fst e \<noteq> k}"
  by (auto simp: table_remove_def)

lemma distinct_table_remove: "distinct (map fst t) \<Longrightarrow> distinct (map fst (table_remove k t))"
  by (simp add: table_remove_def distinct_map_filter)

lemma length_table_remove: "length (table_remove k t) \<le> length t"
  by (simp add: table_remove_def)

lemma table_insert_new: "k \<notin> fst ` set t \<Longrightarrow> table_insert k v t = (k, v) # t"
  by (auto simp: table_insert_def table_remove_def filter_id_conv image_iff)

lemma oldest_in: "t \<noteq> [] \<Longrightarrow> \<exists>k. oldest t = Some k \<and> k \<in> fst ` set t"
proof (induction t rule: oldest.induct)
  case (2 k c t)
  then show ?case by (cases "t = []") auto
qed simp

lemma set_drop_oldest: "set (drop_oldest t) \<subseteq> set t"
  by (auto simp: drop_oldest_def set_table_remove split: option.split)

lemma distinct_drop_oldest: "distinct (map fst t) \<Longrightarrow> distinct (map fst (drop_oldest t))"
  by (auto simp: drop_oldest_def distinct_table_remove split: option.split)

lemma length_drop_oldest: "t \<noteq> [] \<Longrightarrow> length (drop_oldest t) < length t"
proof -
  assume "t \<noteq> []"
  then obtain k where k: "oldest t = Some k" "k \<in> fst ` set t" using oldest_in by blast
  then obtain c where "(k, c) \<in> set t" by auto
  then have "length (table_remove k t) < length t"
    unfolding table_remove_def by (intro length_filter_less [of "(k, c)"]) auto
  then show ?thesis using k by (simp add: drop_oldest_def)
qed

lemma keys_subset: "k \<notin> fst ` A \<Longrightarrow> B \<subseteq> A \<Longrightarrow> k \<notin> fst ` B"
  by auto

lemma distinct_keys_if:
  "k \<notin> fst ` set t \<Longrightarrow> distinct (map fst t) \<Longrightarrow> distinct (map fst ((if b then [] else [(k, c)]) @ t))"
  by simp

text \<open>What is kept of a table when a confirmation begins.\<close>

definition pruned :: "int \<Rightarrow> conf_table \<Rightarrow> conf_table" where
  "pruned now t =
     (let t = filter (\<lambda>(_, c). \<not> is_expired (oc_request c) now) t in
      if MAX_OPEN \<le> length t then drop_oldest t else t)"

lemma begin_entry_pruned:
  "begin_entry w r intents now t =
     table_insert (pr_state r) \<lparr>oc_request = r, oc_left = map (digest w) intents, oc_granted = None\<rparr> (pruned now t)"
  by (simp add: begin_entry_def pruned_def Let_def)

lemma set_pruned: "set (pruned now t) \<subseteq> set t"
proof -
  have "set (drop_oldest (filter P t)) \<subseteq> set t" for P
    by (rule order_trans [OF set_drop_oldest]) simp
  then show ?thesis by (auto simp: pruned_def Let_def)
qed

lemma distinct_pruned: "distinct (map fst t) \<Longrightarrow> distinct (map fst (pruned now t))"
  by (simp add: pruned_def Let_def distinct_drop_oldest distinct_map_filter)

lemma length_pruned: "length (pruned now t) < MAX_OPEN \<or> length (pruned now t) < length t"
proof -
  let ?f = "filter (\<lambda>(_, c). \<not> is_expired (oc_request c) now) t"
  show ?thesis
  proof (cases "MAX_OPEN \<le> length ?f")
    case True
    then have "?f \<noteq> []" by (auto simp: MAX_OPEN_def)
    from length_drop_oldest [OF this] have "length (drop_oldest ?f) < length t"
      by (rule order_less_le_trans) (rule length_filter_le)
    with True show ?thesis by (simp add: pruned_def Let_def)
  next
    case False
    then show ?thesis by (simp add: pruned_def Let_def)
  qed
qed

lemma begin_confirming_Some:
  assumes "begin_confirming w su entropy now intents t = (Inr (Some url), t')"
  obtains r where "t' = begin_entry w r intents now t" "pr_state r = base64url (take 32 entropy)"
    "pr_created_at r = now" "pr_nonce r = nonce w intents"
    "intents \<noteq> []" "\<And>i. i \<in> set intents \<Longrightarrow> passkey i \<noteq> None"
proof -
  have ok: "intents \<noteq> []" "\<not> list_ex (\<lambda>i. passkey i = None) intents"
    using assms by (auto simp: begin_confirming_def split: if_splits)
  then obtain o1 where o1: "client su = Inr (Some o1)"
    using assms by (auto simp: begin_confirming_def split: sum.splits option.splits)
  have "t' = begin_entry w (snd (start_confirming o1 entropy (nonce w intents) now)) intents now t"
    using assms ok o1 by (auto simp: begin_confirming_def split: prod.splits)
  then show ?thesis
    by (rule that) (use ok in \<open>auto simp: start_confirming_def Let_def list_ex_iff\<close>)
qed

lemma consume_take_Inr:
  assumes "consume_take w pf asked now t = (Inr n, t')"
  shows "\<exists>c a. map_of t (pf_state pf) = Some c \<and> passkey asked = Some a \<and> digest w asked \<in> set (oc_left c) \<and>
    n = \<lparr>cn_proof = pf, cn_asked = asked, cn_action = a, cn_open = c, cn_now = now\<rparr> \<and>
    t' = table_remove (pf_state pf) t"
  using assms by (auto simp: consume_take_def split: option.splits if_splits)

lemma consume_take_Inl:
  assumes "consume_take w pf asked now t = (Inl e, t')"
  shows "t' = t \<or> t' = table_remove (pf_state pf) t"
  using assms by (auto simp: consume_take_def split: option.splits if_splits)


section \<open>The invariant\<close>

text \<open>Every confirmation somewhere: in the table, or in the hands of a running call.\<close>

definition held :: "'p conf_sys \<Rightarrow> conf_table" where
  "held s = cs_table s @ map (\<lambda>n. (pf_state (cn_proof n), cn_open n)) (cs_running s)"

definition acted_pairs :: "'p conf_event list \<Rightarrow> (string \<times> string) list" where
  "acted_pairs tr =
     List.map_filter (\<lambda>e. case e of EvActed k d _ _ _ _ \<Rightarrow> Some (k, d) | _ \<Rightarrow> None) tr"

definition entry_ok :: "'p wire \<Rightarrow> 'p conf_event list \<Rightarrow> string \<Rightarrow> open_confirmation \<Rightarrow> bool" where
  "entry_ok w tr k c \<longleftrightarrow>
     (\<exists>is. EvBegun k is \<in> set tr \<and> set (oc_left c) \<subseteq> digest w ` set is) \<and>
     (\<forall>d \<in> set (oc_left c). (k, d) \<notin> set (acted_pairs tr)) \<and>
     (\<forall>d a g r now. EvActed k d a g r now \<in> set tr \<longrightarrow> oc_granted c = Some g)"

definition acted_ok :: "'p wire \<Rightarrow> 'p conf_event list \<Rightarrow> string \<Rightarrow> string \<Rightarrow> 'p intent \<Rightarrow> granted \<Rightarrow> role \<Rightarrow> int \<Rightarrow> bool" where
  "acted_ok w tr k d a g r now \<longleftrightarrow>
     (\<exists>is. EvBegun k is \<in> set tr \<and> d \<in> digest w ` set is) \<and> d = digest w a \<and>
     (\<exists>act. passkey a = Some act \<and> allows r act) \<and>
     saturating_sub now (gr_auth_time g) \<le> CONFIRMATION_MAX_AGE_S \<and> \<not> device_for_another a (gr_account g)"

definition trace_ok :: "'p wire \<Rightarrow> 'p conf_event list \<Rightarrow> bool" where
  "trace_ok w tr \<longleftrightarrow>
     distinct (acted_pairs tr) \<and>
     (\<forall>k d a g r now. EvActed k d a g r now \<in> set tr \<longrightarrow> acted_ok w tr k d a g r now) \<and>
     (\<forall>k d a g r now d' a' g' r' now'. EvActed k d a g r now \<in> set tr \<longrightarrow>
        EvActed k d' a' g' r' now' \<in> set tr \<longrightarrow> g = g')"

definition running_ok :: "'p wire \<Rightarrow> 'p consuming \<Rightarrow> bool" where
  "running_ok w n \<longleftrightarrow>
     digest w (cn_asked n) \<in> set (oc_left (cn_open n)) \<and> passkey (cn_asked n) = Some (cn_action n)"

definition conf_inv :: "'p wire \<Rightarrow> 'p conf_sys \<Rightarrow> bool" where
  "conf_inv w s \<longleftrightarrow>
     distinct (map fst (held s)) \<and> (\<forall>(k, c) \<in> set (held s). entry_ok w (cs_trace s) k c) \<and>
     (\<forall>n \<in> set (cs_running s). running_ok w n) \<and> trace_ok w (cs_trace s)"

lemma conf_invD:
  assumes "conf_inv w s"
  shows "distinct (map fst (held s))" "(k, c) \<in> set (held s) \<Longrightarrow> entry_ok w (cs_trace s) k c"
    "n \<in> set (cs_running s) \<Longrightarrow> running_ok w n" "trace_ok w (cs_trace s)"
  using assms unfolding conf_inv_def by auto

lemma conf_invI:
  assumes "distinct (map fst (held s))" "\<And>k c. (k, c) \<in> set (held s) \<Longrightarrow> entry_ok w (cs_trace s) k c"
    "\<And>n. n \<in> set (cs_running s) \<Longrightarrow> running_ok w n" "trace_ok w (cs_trace s)"
  shows "conf_inv w s"
  using assms unfolding conf_inv_def by auto

lemma acted_pairs_simps [simp]:
  "acted_pairs [] = []"
  "acted_pairs (EvBegun k is # tr) = acted_pairs tr"
  "acted_pairs (EvActed k d a g r now # tr) = (k, d) # acted_pairs tr"
  by (simp_all add: acted_pairs_def List.map_filter_simps)

lemma entry_begun: "entry_ok w tr k c \<Longrightarrow> k \<in> begun_states tr"
  by (auto simp: entry_ok_def begun_states_def)

lemma entry_ok_begun_more: "entry_ok w tr k c \<Longrightarrow> entry_ok w (EvBegun k' is # tr) k c"
  by (auto simp: entry_ok_def)

lemma entry_ok_acted_more:
  "entry_ok w tr k c \<Longrightarrow> k \<noteq> k' \<Longrightarrow> entry_ok w (EvActed k' d a g r now # tr) k c"
  by (auto simp: entry_ok_def)

lemma acted_ok_more: "acted_ok w tr k d a g r now \<Longrightarrow> acted_ok w (e # tr) k d a g r now"
  by (auto simp: acted_ok_def)

lemma trace_ok_begun: "trace_ok w tr \<Longrightarrow> trace_ok w (EvBegun k is # tr)"
  unfolding trace_ok_def by (simp add: acted_ok_more)

lemma acted_pairs_iff: "(k, d) \<in> set (acted_pairs tr) \<longleftrightarrow> (\<exists>a g r now. EvActed k d a g r now \<in> set tr)"
  by (induction tr) (auto simp: acted_pairs_def List.map_filter_simps split: conf_event.splits)

lemma not_acted_before_begun:
  assumes "trace_ok w tr" "k \<notin> begun_states tr"
  shows "EvActed k d a g r now \<notin> set tr"
  using assms unfolding trace_ok_def acted_ok_def begun_states_def by blast

text \<open>Fewer confirmations held, the same trace: nothing to show again.\<close>

lemma inv_fewer:
  assumes inv: "conf_inv w s" and tr: "cs_trace s' = cs_trace s"
    and sub: "set (held s') \<subseteq> set (held s)" and dis: "distinct (map fst (held s'))"
    and run: "\<And>n. n \<in> set (cs_running s') \<Longrightarrow> running_ok w n"
  shows "conf_inv w s'"
proof (rule conf_invI [OF dis _ run])
  show "entry_ok w (cs_trace s') k c" if "(k, c) \<in> set (held s')" for k c
    using conf_invD(2) [OF inv] that sub tr by (metis subsetD)
  show "trace_ok w (cs_trace s')" using conf_invD(4) [OF inv] tr by simp
qed

lemma inv_begin:
  assumes inv: "conf_inv w s" and "begin_confirming w su entropy now intents (cs_table s) = (Inr (Some url), t')"
    and fresh: "base64url (take 32 entropy) \<notin> begun_states (cs_trace s)"
  shows "conf_inv w (s\<lparr>cs_table := t', cs_trace := EvBegun (base64url (take 32 entropy)) intents # cs_trace s\<rparr>)"
    (is "conf_inv w ?s")
proof -
  let ?k = "base64url (take 32 entropy)"
  obtain r where t': "t' = begin_entry w r intents now (cs_table s)" and k: "pr_state r = ?k"
    using begin_confirming_Some [OF assms(2)] by metis
  let ?c = "\<lparr>oc_request = r, oc_left = map (digest w) intents, oc_granted = None\<rparr>"
  have notin: "?k \<notin> fst ` set (held s)" using conf_invD(2) [OF inv] entry_begun fresh by fastforce
  then have "?k \<notin> fst ` set (pruned now (cs_table s))" using set_pruned by (fastforce simp: held_def)
  then have h: "held ?s = (?k, ?c) # pruned now (cs_table s) @ map (\<lambda>n. (pf_state (cn_proof n), cn_open n)) (cs_running s)"
    by (simp add: held_def t' begin_entry_pruned k table_insert_new)
  have sub: "set (held ?s) \<subseteq> insert (?k, ?c) (set (held s))" unfolding h using set_pruned [of now "cs_table s"] by (auto simp: held_def)
  have new: "entry_ok w (cs_trace ?s) ?k ?c"
  proof -
    note none = not_acted_before_begun [OF conf_invD(4) [OF inv] fresh]
    have "(?k, d) \<notin> set (acted_pairs (cs_trace s))" for d using none unfolding acted_pairs_iff by blast
    then show ?thesis using none by (auto simp: entry_ok_def)
  qed
  show ?thesis
  proof (rule conf_invI)
    have "distinct (map fst (pruned now (cs_table s) @ map (\<lambda>n. (pf_state (cn_proof n), cn_open n)) (cs_running s)))"
      using conf_invD(1) [OF inv] set_pruned [of now "cs_table s"] distinct_pruned [of "cs_table s" now]
      by (fastforce simp: held_def)
    moreover have "set (pruned now (cs_table s) @ map (\<lambda>n. (pf_state (cn_proof n), cn_open n)) (cs_running s)) \<subseteq> set (held s)"
      using set_pruned [of now "cs_table s"] by (auto simp: held_def)
    then have "?k \<notin> set (map fst (pruned now (cs_table s) @ map (\<lambda>n. (pf_state (cn_proof n), cn_open n)) (cs_running s)))"
      unfolding set_map by (rule keys_subset [OF notin])
    ultimately show "distinct (map fst (held ?s))" unfolding h by (simp only: list.map fst_conv distinct.simps not_False_eq_True simp_thms)
    show "entry_ok w (cs_trace ?s) k' c'" if "(k', c') \<in> set (held ?s)" for k' c'
      using that sub new conf_invD(2) [OF inv, of k' c'] entry_ok_begun_more [of w "cs_trace s" k' c'] by auto
    show "trace_ok w (cs_trace ?s)" using conf_invD(4) [OF inv] by (simp add: trace_ok_begun)
    show "running_ok w n" if "n \<in> set (cs_running ?s)" for n using that conf_invD(3) [OF inv] by simp
  qed
qed

lemma map_of_split:
  "map_of t k = Some c \<Longrightarrow> distinct (map fst t) \<Longrightarrow> mset t = add_mset (k, c) (mset (table_remove k t))"
proof (induction t)
  case (Cons e t)
  show ?case
  proof (cases "fst e = k")
    case True
    then have "k \<notin> fst ` set t" using Cons.prems(2) by auto
    then have "table_remove k t = t" by (auto simp: table_remove_def filter_id_conv image_iff)
    then show ?thesis using True Cons.prems(1) by (cases e) (auto simp: table_remove_def)
  next
    case False
    then show ?thesis using Cons by (cases e) (auto simp: table_remove_def)
  qed
qed simp

text \<open>Whatever holds the confirmations: that they are the same ones is all that counts.\<close>

lemma inv_same:
  assumes inv: "conf_inv w s" and "cs_trace s' = cs_trace s" and h: "mset (held s') = mset (held s)"
    and "\<And>n. n \<in> set (cs_running s') \<Longrightarrow> running_ok w n"
  shows "conf_inv w s'"
proof (rule inv_fewer [OF inv])
  have "mset (map fst (held s')) = mset (map fst (held s))" by (simp add: h)
  then show "distinct (map fst (held s'))" using conf_invD(1) [OF inv] by (metis mset_eq_imp_distinct_iff)
  show "set (held s') \<subseteq> set (held s)" using mset_eq_setD [OF h] by simp
qed (fact assms)+

lemma inv_take:
  assumes inv: "conf_inv w s" and "consume_take w pf asked now (cs_table s) = (Inr n, t')"
  shows "conf_inv w (s\<lparr>cs_table := t', cs_running := n # cs_running s\<rparr>)"
proof -
  obtain c a where c: "map_of (cs_table s) (pf_state pf) = Some c" "passkey asked = Some a" "digest w asked \<in> set (oc_left c)"
    and n: "n = \<lparr>cn_proof = pf, cn_asked = asked, cn_action = a, cn_open = c, cn_now = now\<rparr>"
    and t': "t' = table_remove (pf_state pf) (cs_table s)"
    using consume_take_Inr [OF assms(2)] by blast
  have "distinct (map fst (cs_table s))" using conf_invD(1) [OF inv] by (simp add: held_def)
  note split = map_of_split [OF c(1) this]
  show ?thesis
  proof (rule inv_same [OF inv])
    show "mset (held (s\<lparr>cs_table := t', cs_running := n # cs_running s\<rparr>)) = mset (held s)"
      by (simp add: held_def t' n split)
    show "running_ok w m" if "m \<in> set (cs_running (s\<lparr>cs_table := t', cs_running := n # cs_running s\<rparr>))" for m
      using that c conf_invD(3) [OF inv] by (auto simp: running_ok_def n)
  qed simp
qed

lemma inv_table_remove:
  assumes inv: "conf_inv w s"
  shows "conf_inv w (s\<lparr>cs_table := table_remove k (cs_table s)\<rparr>)"
proof (rule inv_fewer [OF inv])
  show "set (held (s\<lparr>cs_table := table_remove k (cs_table s)\<rparr>)) \<subseteq> set (held s)"
    by (auto simp: held_def set_table_remove)
  show "distinct (map fst (held (s\<lparr>cs_table := table_remove k (cs_table s)\<rparr>)))"
    using conf_invD(1) [OF inv] distinct_table_remove [of "cs_table s" k] by (auto simp: held_def set_table_remove)
qed (use conf_invD(3) [OF inv] in auto)

lemma inv_fail:
  assumes inv: "conf_inv w s" and run: "cs_running s = before @ n # after"
  shows "conf_inv w (s\<lparr>cs_running := before @ after\<rparr>)"
proof (rule inv_fewer [OF inv])
  show "distinct (map fst (held (s\<lparr>cs_running := before @ after\<rparr>)))"
    using conf_invD(1) [OF inv] by (auto simp: held_def run)
qed (use conf_invD(3) [OF inv] in \<open>auto simp: held_def run\<close>)

lemma inv_reorder:
  assumes inv: "conf_inv w s" and t': "mset t' = mset (cs_table s)"
  shows "conf_inv w (s\<lparr>cs_table := t'\<rparr>)"
  by (rule inv_same [OF inv]) (use conf_invD(3) [OF inv] t' in \<open>auto simp: held_def\<close>)

lemma consume_grant_kept: "consume_grant su n = Inr g \<Longrightarrow> oc_granted (cn_open n) = Some g' \<Longrightarrow> g = g'"
  by (auto simp: consume_grant_def split: if_splits)

lemma consume_allow_Inr:
  assumes "consume_allow su n g = Inr ()" "su_user_role su (gr_account g) = Inr r"
  shows "saturating_sub (cn_now n) (gr_auth_time g) \<le> CONFIRMATION_MAX_AGE_S" "allows r (cn_action n)"
    "\<not> device_for_another (cn_asked n) (gr_account g)"
  using assms by (auto simp: consume_allow_def and_then_def split: if_splits)

lemma trace_ok_acted:
  assumes tr: "trace_ok w tr" and "(k, d) \<notin> set (acted_pairs tr)" "acted_ok w tr k d a g r now"
    and one: "\<And>d a g' r now. EvActed k d a g' r now \<in> set tr \<Longrightarrow> g' = g"
  shows "trace_ok w (EvActed k d a g r now # tr)"
  unfolding trace_ok_def
proof (intro conjI allI impI)
  show "distinct (acted_pairs (EvActed k d a g r now # tr))" using assms(2) tr by (simp add: trace_ok_def)
  show "acted_ok w (EvActed k d a g r now # tr) k' d' a' g' r' now'"
    if "EvActed k' d' a' g' r' now' \<in> set (EvActed k d a g r now # tr)" for k' d' a' g' r' now'
    using that tr assms(3) unfolding trace_ok_def by (auto intro: acted_ok_more)
  show "g1 = g2" if "EvActed k' d1 a1 g1 r1 now1 \<in> set (EvActed k d a g r now # tr)"
    "EvActed k' d2 a2 g2 r2 now2 \<in> set (EvActed k d a g r now # tr)" for k' d1 a1 g1 r1 now1 d2 a2 g2 r2 now2
    using that tr one unfolding trace_ok_def by (simp; metis)
qed

lemma entry_ok_finished:
  assumes "entry_ok w tr k c" "oc_granted c = None \<or> oc_granted c = Some g"
  shows "entry_ok w (EvActed k d a g r now # tr) k
           (c\<lparr>oc_left := filter (\<lambda>d'. d' \<noteq> d) (oc_left c), oc_granted := Some g\<rparr>)"
  using assms by (fastforce simp: entry_ok_def)

lemma inv_finish:
  assumes inv: "conf_inv w s" and run: "cs_running s = before @ n # after" and gr: "consume_grant su n = Inr g"
    and "consume_allow su' n g = Inr ()" "su_user_role su' (gr_account g) = Inr r"
  shows "conf_inv w (s\<lparr>cs_table := consume_finish w n g (cs_table s), cs_running := before @ after,
       cs_trace := EvActed (pf_state (cn_proof n)) (digest w (cn_asked n)) (cn_asked n) g r (cn_now n) # cs_trace s\<rparr>)"
    (is "conf_inv w ?s")
proof -
  let ?k = "pf_state (cn_proof n)" and ?d = "digest w (cn_asked n)" and ?c = "cn_open n"
  let ?left = "filter (\<lambda>d. d \<noteq> ?d) (oc_left ?c)"
  let ?c' = "?c\<lparr>oc_left := ?left, oc_granted := Some g\<rparr>"
  let ?rest = "cs_table s @ map (\<lambda>n. (pf_state (cn_proof n), cn_open n)) (before @ after)"
  have dis: "?k \<notin> fst ` set ?rest" "distinct (map fst ?rest)"
    using conf_invD(1) [OF inv] by (auto simp: held_def run)
  have rest: "set ?rest \<subseteq> set (held s)" by (auto simp: held_def run)
  have e: "entry_ok w (cs_trace s) ?k ?c" by (rule conf_invD(2) [OF inv]) (simp add: held_def run)
  have rn: "running_ok w n" by (rule conf_invD(3) [OF inv]) (simp add: run)
  have kept: "oc_granted ?c = None \<or> oc_granted ?c = Some g"
    using consume_grant_kept [OF gr] by (cases "oc_granted ?c") auto
  note ok = consume_allow_Inr [OF assms(4,5)]
  have "?k \<notin> fst ` set (cs_table s)" using dis(1) by auto
  then have h: "held ?s = (if ?left = [] then [] else [(?k, ?c')]) @ ?rest"
    by (simp add: held_def consume_finish_def Let_def table_insert_new)
  have acted: "acted_ok w (cs_trace s) ?k ?d (cn_asked n) g r (cn_now n)"
  proof -
    obtain intents where "EvBegun ?k intents \<in> set (cs_trace s)" "set (oc_left ?c) \<subseteq> digest w ` set intents"
      using e unfolding entry_ok_def by blast
    moreover have "?d \<in> set (oc_left ?c)" "passkey (cn_asked n) = Some (cn_action n)" using rn by (auto simp: running_ok_def)
    ultimately show ?thesis using ok unfolding acted_ok_def by blast
  qed
  have new: "(?k, ?d) \<notin> set (acted_pairs (cs_trace s))" using e rn by (auto simp: entry_ok_def running_ok_def)
  have one: "g' = g" if "EvActed ?k d a g' r now \<in> set (cs_trace s)" for d a g' r now
  proof -
    have "oc_granted ?c = Some g'" using e that unfolding entry_ok_def by blast
    then show ?thesis using kept by simp
  qed
  have e': "entry_ok w (cs_trace ?s) ?k ?c'" using entry_ok_finished [OF e kept] by simp
  show ?thesis
  proof (rule conf_invI)
    show "distinct (map fst (held ?s))" unfolding h by (rule distinct_keys_if [OF dis])
    show "entry_ok w (cs_trace ?s) k c" if "(k, c) \<in> set (held ?s)" for k c
    proof (cases "(k, c) \<in> set ?rest")
      case True
      then have "k \<noteq> ?k" using dis(1) by force
      moreover have "entry_ok w (cs_trace s) k c" by (rule conf_invD(2) [OF inv]) (rule subsetD [OF rest True])
      ultimately show ?thesis by (simp add: entry_ok_acted_more)
    next
      case False
      then have "k = ?k \<and> c = ?c'" using that unfolding h by (auto split: if_splits)
      then show ?thesis using e' by simp
    qed
    show "running_ok w m" if "m \<in> set (cs_running ?s)" for m
      using that conf_invD(3) [OF inv] run by auto
    show "trace_ok w (cs_trace ?s)"
      using trace_ok_acted [OF conf_invD(4) [OF inv] new acted one] by simp
  qed
qed

lemma conf_reachable_inv: "conf_reachable w s \<Longrightarrow> conf_inv w s"
proof (induction rule: conf_reachable.induct)
  case start
  show ?case by (simp add: conf_inv_def conf_start_def held_def trace_ok_def)
next
  case (step s s')
  from step.hyps(2) step.IH show ?case
  proof cases
    case (TakeRefused pf asked now e t')
    then show ?thesis using consume_take_Inl inv_table_remove step.IH by fastforce
  qed (auto intro: inv_begin inv_take inv_finish inv_fail inv_reorder)
qed


section \<open>What is acted on\<close>

lemma consume_InrI:
  "consume_take w pf asked now t = (Inr n, t1) \<Longrightarrow> consume_grant su n = Inr g \<Longrightarrow> consume_allow su n g = Inr () \<Longrightarrow>
   consume w su pf asked now t = (Inr (gr_account g), consume_finish w n g t1)"
  by (simp add: consume_def)

lemma consume_Inr:
  assumes "consume w su pf asked now t = (Inr account, t')"
  obtains n t1 g r where "consume_take w pf asked now t = (Inr n, t1)" "consume_grant su n = Inr g"
    "consume_allow su n g = Inr ()" "su_user_role su (gr_account g) = Inr r" "account = gr_account g"
    "t' = consume_finish w n g t1" "cn_proof n = pf" "cn_asked n = asked" "cn_now n = now"
proof -
  obtain n t1 where n: "consume_take w pf asked now t = (Inr n, t1)"
    using assms by (auto simp: consume_def split: prod.splits sum.splits)
  obtain g where g: "consume_grant su n = Inr g" using assms n by (auto simp: consume_def split: sum.splits)
  have allow: "consume_allow su n g = Inr ()" "account = gr_account g" "t' = consume_finish w n g t1"
    using assms n g by (auto simp: consume_def split: sum.splits)
  obtain r where r: "su_user_role su (gr_account g) = Inr r"
    using allow(1) by (auto simp: consume_allow_def and_then_def split: if_splits sum.splits)
  have "cn_proof n = pf" "cn_asked n = asked" "cn_now n = now" using consume_take_Inr [OF n] by auto
  then show ?thesis by (rule that [OF n g allow(1) r allow(2,3)])
qed

text \<open>A whole call is two steps, with nothing in between.\<close>

lemma consume_reachable:
  assumes s: "conf_reachable w s" and c: "consume w su pf asked now (cs_table s) = (Inr account, t')"
  shows "\<exists>g r. gr_account g = account \<and>
    conf_reachable w (s\<lparr>cs_table := t', cs_trace := EvActed (pf_state pf) (digest w asked) asked g r now # cs_trace s\<rparr>)"
proof -
  obtain n t1 g r where n: "consume_take w pf asked now (cs_table s) = (Inr n, t1)" and g: "consume_grant su n = Inr g"
    and r: "consume_allow su n g = Inr ()" "su_user_role su (gr_account g) = Inr r"
    and eqs: "account = gr_account g" "t' = consume_finish w n g t1"
    and at: "cn_proof n = pf" "cn_asked n = asked" "cn_now n = now"
    by (rule consume_Inr [OF c])
  have one: "conf_reachable w (s\<lparr>cs_table := t1, cs_running := n # cs_running s\<rparr>)"
    by (rule conf_reachable.step [OF s]) (rule conf_step.Take [OF n])
  show ?thesis
    using conf_reachable.step [OF one conf_step.Finish [where before = "[]" and n = n, OF _ g r(1,2)]] at eqs(1,2)
    by (intro exI [of _ g] exI [of _ r]) simp
qed

text \<open>
  C15: Whatever the order in which requests come in, what is acted on under a passkey was begun
  as a confirmation, by its digest; it is an action that takes one, the role of the person
  whose passkey it is allows it, the passkey was presented at most five minutes before, and a
  device is added to that person's own account only.
\<close>

theorem acted_on_was_confirmed:
  assumes "conf_reachable w s" "EvActed k d a g r now \<in> set (cs_trace s)"
  shows "(\<exists>is i. EvBegun k is \<in> set (cs_trace s) \<and> i \<in> set is \<and> digest w i = digest w a) \<and>
    (\<exists>act. passkey a = Some act \<and> allows r act) \<and> saturating_sub now (gr_auth_time g) \<le> 300 \<and>
    \<not> device_for_another a (gr_account g)"
proof -
  have "acted_ok w (cs_trace s) k d a g r now"
    using conf_invD(4) [OF conf_reachable_inv [OF assms(1)]] assms(2) unfolding trace_ok_def by blast
  then show ?thesis unfolding acted_ok_def CONFIRMATION_MAX_AGE_S_def by fastforce
qed

text \<open>
  C16: Once an action has been acted on under a confirmation, presenting the same confirmation
  for it again is refused, whatever the code, the time and the surroundings.
\<close>

theorem confirmation_never_replayed:
  assumes "conf_reachable w s" "EvActed (pf_state pf) (digest w asked) a g r now \<in> set (cs_trace s)"
  shows "\<exists>e. fst (consume w su pf asked now' (cs_table s)) = Inl e"
proof (rule ccontr)
  assume no: "\<not> ?thesis"
  then obtain account t' where "consume w su pf asked now' (cs_table s) = (Inr account, t')"
    by (metis sum.exhaust surjective_pairing)
  from consume_reachable [OF assms(1) this] obtain g' r' where
    "conf_reachable w (s\<lparr>cs_table := t', cs_trace := EvActed (pf_state pf) (digest w asked) asked g' r' now' # cs_trace s\<rparr>)"
    by blast
  from conf_invD(4) [OF conf_reachable_inv [OF this]] have "(pf_state pf, digest w asked) \<notin> set (acted_pairs (cs_trace s))"
    by (simp add: trace_ok_def)
  then show False using assms(2) unfolding acted_pairs_iff by blast
qed

text \<open>
  Everything acted on under one confirmation is on the passkey of one and the same account,
  presented once.
\<close>

theorem confirmation_is_one_passkey:
  assumes "conf_reachable w s" "EvActed k d a g r now \<in> set (cs_trace s)" "EvActed k d' a' g' r' now' \<in> set (cs_trace s)"
  shows "g = g'"
  using conf_invD(4) [OF conf_reachable_inv [OF assms(1)]] assms(2,3) unfolding trace_ok_def by blast

text \<open>
  C17: Where a passkey can be asked for, an intent that takes one is acted on only as the
  contents of a confirmed one whose confirmation was consumed.
\<close>

theorem answer_acts_only_confirmed:
  assumes "answer w su entropy now i t = (ActOn j, t')" "passkey j \<noteq> None" "Confirm.required su"
  shows "\<exists>pf account. i = IConfirmed pf j \<and> consume w su pf j now t = (Inr account, t')"
  using assms by (cases i) (auto simp: answer_def split: if_splits prod.splits sum.splits)

lemma begin_confirming_length:
  assumes "begin_confirming w su entropy now intents t = (Inr (Some url), t')"
  shows "length t' \<le> max MAX_OPEN (length t)"
proof -
  obtain r where t': "t' = begin_entry w r intents now t" using begin_confirming_Some [OF assms] by metis
  have "length t' \<le> Suc (length (pruned now t))"
    unfolding t' begin_entry_pruned by (simp add: table_insert_def length_table_remove)
  then show ?thesis using length_pruned [of now t] by linarith
qed

text \<open>
  The table of confirmations holds at most 64 of them and one more for each action acted
  on: beginning never takes it above what it already held.
\<close>

theorem table_bounded:
  assumes "conf_reachable w s"
  shows "length (cs_table s) \<le> MAX_OPEN + length (acted_pairs (cs_trace s))"
  using assms
proof (induction rule: conf_reachable.induct)
  case start
  show ?case by (simp add: conf_start_def)
next
  case (step s s')
  from step.hyps(2) show ?case
  proof cases
    case (Begin su entropy now intents url t')
    then show ?thesis using begin_confirming_length [OF Begin(2)] step.IH by simp
  next
    case (Take pf asked now n t')
    then show ?thesis using consume_take_Inr [OF Take(2)] length_table_remove step.IH order_trans by fastforce
  next
    case (TakeRefused pf asked now e t')
    then show ?thesis using consume_take_Inl [OF TakeRefused(2)] length_table_remove step.IH order_trans by fastforce
  next
    case (Finish before n after su g su' r)
    have "length (consume_finish w n g (cs_table s)) \<le> Suc (length (cs_table s))"
      by (simp add: consume_finish_def Let_def table_insert_def length_table_remove)
    then show ?thesis using Finish step.IH by simp
  next
    case (Reorder t')
    then show ?thesis using step.IH mset_eq_length [OF Reorder(2)] by simp
  qed (use step.IH in simp)
qed


section \<open>A confirmation goes through\<close>

text \<open>
  What the provider and the accounts answer for a passkey presented: a token, whose claims
  carry the nonce asked for and a time, and a subject bound to an account whose role allows
  the action.
\<close>

definition presents :: "idp \<Rightarrow> oidc \<Rightarrow> pending_request \<Rightarrow> string \<Rightarrow> identity \<Rightarrow> int \<Rightarrow> bool" where
  "presents p o1 r code i auth \<longleftrightarrow>
     (\<exists>tok idt claims t.
        token_of p (idp_token p (exchange_form o1 r code)) = Inr tok \<and>
        identity_of p (idp_userinfo p (tr_access_token tok)) = Inr i \<and>
        tr_id_token tok = Some idt \<and> claims_of p idt = Some claims \<and>
        json_get claims ''nonce'' = Some (JString (pr_nonce r)) \<and>
        json_get claims ''auth_time'' = Some t \<and> json_i64 p t = Some auth)"

lemma finish_confirming_presents:
  assumes "presents p o1 r code i auth" "\<not> is_expired r now"
  shows "finish_confirming p o1 r (pr_state r) code now = Inr \<lparr>cf_identity = i, cf_auth_time = auth\<rparr>"
  using assms
  by (auto simp: presents_def finish_confirming_def exchange_def and_then_def constant_eq_refl)

lemma map_of_table_insert: "map_of (table_insert k v t) k = Some v"
  by (simp add: table_insert_def)

lemma map_of_table_remove: "map_of (table_remove k t) k = None"
  by (auto simp: table_remove_def map_of_eq_None_iff)

text \<open>What is left of a confirmation once an action of it is acted on.\<close>

definition left_after :: "'p wire \<Rightarrow> 'p intent \<Rightarrow> granted \<Rightarrow> open_confirmation \<Rightarrow> open_confirmation option" where
  "left_after w asked g c =
     (if set (oc_left c) \<subseteq> {digest w asked} then None
      else Some (c\<lparr>oc_left := filter (\<lambda>d. d \<noteq> digest w asked) (oc_left c), oc_granted := Some g\<rparr>))"

text \<open>What the accounts answer at a call: the role read then allows it, and the passkey is fresh.\<close>

definition may_confirm :: "surroundings \<Rightarrow> string \<Rightarrow> int \<Rightarrow> 'p intent \<Rightarrow> int \<Rightarrow> bool" where
  "may_confirm su account auth asked now \<longleftrightarrow>
     saturating_sub now auth \<le> 300 \<and> \<not> device_for_another asked account \<and>
     (\<exists>r act. su_user_role su account = Inr r \<and> passkey asked = Some act \<and> allows r act)"

lemma consume_one:
  assumes c: "map_of t k = Some c" "digest w asked \<in> set (oc_left c)"
    and g: "\<And>act. consume_grant su \<lparr>cn_proof = \<lparr>pf_state = k, pf_code = code\<rparr>, cn_asked = asked, cn_action = act,
      cn_open = c, cn_now = now\<rparr> = Inr g"
    and may: "may_confirm su (gr_account g) (gr_auth_time g) asked now"
  obtains t2 where "consume w su \<lparr>pf_state = k, pf_code = code\<rparr> asked now t = (Inr (gr_account g), t2)"
    "map_of t2 k = left_after w asked g c"
proof -
  obtain r act where r: "su_user_role su (gr_account g) = Inr r" "passkey asked = Some act" "allows r act"
    and fresh: "saturating_sub now (gr_auth_time g) \<le> 300" "\<not> device_for_another asked (gr_account g)"
    using may by (auto simp: may_confirm_def)
  let ?n = "\<lparr>cn_proof = \<lparr>pf_state = k, pf_code = code\<rparr>, cn_asked = asked, cn_action = act, cn_open = c, cn_now = now\<rparr>"
  have taken: "consume_take w \<lparr>pf_state = k, pf_code = code\<rparr> asked now t = (Inr ?n, table_remove k t)"
    using c r(2) by (simp add: consume_take_def)
  have "consume_allow su ?n g = Inr ()"
    using r fresh by (simp add: consume_allow_def and_then_def CONFIRMATION_MAX_AGE_S_def)
  from consume_InrI [OF taken g this]
  have "consume w su \<lparr>pf_state = k, pf_code = code\<rparr> asked now t = (Inr (gr_account g), consume_finish w ?n g (table_remove k t))" .
  moreover have "map_of (consume_finish w ?n g (table_remove k t)) k = left_after w asked g c"
  proof (cases "filter (\<lambda>d. d \<noteq> digest w asked) (oc_left c) = []")
    case True
    then have "set (oc_left c) \<subseteq> {digest w asked}" by (auto simp: filter_empty_conv)
    with True show ?thesis by (simp add: consume_finish_def left_after_def map_of_table_remove)
  next
    case False
    then have "\<not> set (oc_left c) \<subseteq> {digest w asked}" by (auto simp: filter_empty_conv)
    with False show ?thesis by (simp add: consume_finish_def left_after_def map_of_table_insert)
  qed
  ultimately show ?thesis by (rule that)
qed

text \<open>
  The calls of one confirmation, one after the other: each with what surrounds the daemon then, the
  action asked for, its time, and what other calls did to the table before it.
\<close>

record 'p asking =
  ak_around :: surroundings
  ak_asked :: "'p intent"
  ak_at :: int
  ak_others :: "conf_table \<Rightarrow> conf_table"

fun consume_each :: "'p wire \<Rightarrow> passkey_proof \<Rightarrow> 'p asking list \<Rightarrow> conf_table \<Rightarrow> (string + string) list \<times> conf_table" where
  "consume_each w pf [] t = ([], t)"
| "consume_each w pf (q # qs) t =
     (case consume w (ak_around q) pf (ak_asked q) (ak_at q) (ak_others q t) of (r, t1) \<Rightarrow>
        (case consume_each w pf qs t1 of (rs, t2) \<Rightarrow> (r # rs, t2)))"

text \<open>A call that can go through: the others left this confirmation as it was.\<close>

definition can_go :: "string \<Rightarrow> string \<Rightarrow> int \<Rightarrow> 'p asking \<Rightarrow> bool" where
  "can_go k account auth q \<longleftrightarrow>
     may_confirm (ak_around q) account auth (ak_asked q) (ak_at q) \<and> (\<forall>t. map_of (ak_others q t) k = map_of t k)"

lemma granted_grants:
  "oc_granted c = Some g \<Longrightarrow> gr_code g = code \<Longrightarrow>
   consume_grant su \<lparr>cn_proof = \<lparr>pf_state = k, pf_code = code\<rparr>, cn_asked = asked, cn_action = act, cn_open = c, cn_now = now\<rparr> = Inr g"
  by (simp add: consume_grant_def constant_eq_refl)

lemma left_after_Some:
  assumes "left_after w asked g c = Some c'"
  shows "set (oc_left c') = set (oc_left c) - {digest w asked}" "oc_granted c' = Some g"
  using assms by (auto simp: left_after_def split: if_splits)

lemma distinct_rest:
  assumes "distinct (map f (q # qs))" "set (map f (q # qs)) \<subseteq> A"
  shows "set (map f qs) \<subseteq> A - {f q}"
proof -
  have "f q \<notin> set (map f qs)" "set (map f qs) \<subseteq> A" using assms by simp_all
  then show ?thesis by blast
qed

definition all_confirmed :: "'p wire \<Rightarrow> string \<Rightarrow> string \<Rightarrow> string \<Rightarrow> string list \<Rightarrow> 'p asking list \<Rightarrow> conf_table \<Rightarrow> bool" where
  "all_confirmed w k code account left qs t \<longleftrightarrow>
     (\<exists>t'. consume_each w \<lparr>pf_state = k, pf_code = code\<rparr> qs t = (replicate (length qs) (Inr account), t') \<and>
        (map_of t' k = None \<longleftrightarrow> set left \<subseteq> set (map (digest w \<circ> ak_asked) qs)))"

lemma consume_each_Cons:
  assumes c: "map_of t k = Some c"
    and grant: "\<And>act. consume_grant (ak_around q) \<lparr>cn_proof = \<lparr>pf_state = k, pf_code = code\<rparr>, cn_asked = ak_asked q,
      cn_action = act, cn_open = c, cn_now = ak_at q\<rparr> = Inr g"
    and go: "can_go k (gr_account g) (gr_auth_time g) q"
    and sub: "set (map (digest w \<circ> ak_asked) (q # qs)) \<subseteq> set (oc_left c)" and dist: "distinct (map (digest w \<circ> ak_asked) (q # qs))"
    and rest: "\<And>t1 c'. map_of t1 k = Some c' \<Longrightarrow> oc_granted c' = Some g \<Longrightarrow> oc_left c' \<noteq> [] \<Longrightarrow>
      set (map (digest w \<circ> ak_asked) qs) \<subseteq> set (oc_left c') \<Longrightarrow> all_confirmed w k code (gr_account g) (oc_left c') qs t1"
  shows "all_confirmed w k code (gr_account g) (oc_left c) (q # qs) t"
proof -
  let ?pf = "\<lparr>pf_state = k, pf_code = code\<rparr>"
  have q: "may_confirm (ak_around q) (gr_account g) (gr_auth_time g) (ak_asked q) (ak_at q)"
    "map_of (ak_others q t) k = Some c" "digest w (ak_asked q) \<in> set (oc_left c)"
    using c go sub by (auto simp: can_go_def)
  obtain t1 where one: "consume w (ak_around q) ?pf (ak_asked q) (ak_at q) (ak_others q t) = (Inr (gr_account g), t1)"
    and t1: "map_of t1 k = left_after w (ak_asked q) g c"
    by (rule consume_one [OF q(2,3) grant q(1)])
  note others = distinct_rest [OF dist sub]
  show ?thesis
  proof (cases "left_after w (ak_asked q) g c")
    case None
    then have only: "set (oc_left c) \<subseteq> {digest w (ak_asked q)}" by (simp add: left_after_def split: if_splits)
    then have "qs = []" using others by (cases qs) auto
    then show ?thesis using one t1 None only by (simp add: all_confirmed_def)
  next
    case (Some c')
    note c' = left_after_Some [OF Some]
    have "oc_left c' \<noteq> []" using Some by (auto simp: left_after_def filter_empty_conv split: if_splits)
    moreover have "set (map (digest w \<circ> ak_asked) qs) \<subseteq> set (oc_left c')" using others unfolding c'(1) o_apply .
    ultimately have "all_confirmed w k code (gr_account g) (oc_left c') qs t1" by (rule rest [OF t1 [unfolded Some] c'(2)])
    then show ?thesis using one c'(1) by (auto simp: all_confirmed_def)
  qed
qed

lemma consume_each_granted:
  assumes "map_of t k = Some c" "oc_granted c = Some g" "gr_code g = code" "oc_left c \<noteq> []"
    and "list_all (can_go k (gr_account g) (gr_auth_time g)) qs"
    and "set (map (digest w \<circ> ak_asked) qs) \<subseteq> set (oc_left c)" "distinct (map (digest w \<circ> ak_asked) qs)"
  shows "all_confirmed w k code (gr_account g) (oc_left c) qs t"
  using assms
proof (induction qs arbitrary: t c)
  case Nil
  then show ?case by (auto simp: all_confirmed_def)
next
  case (Cons q qs)
  have "list_all (can_go k (gr_account g) (gr_auth_time g)) qs" "distinct (map (digest w \<circ> ak_asked) qs)"
    "can_go k (gr_account g) (gr_auth_time g) q"
    using Cons.prems(5,7) by (simp_all add: comp_def)
  then show ?case
    using Cons.IH [OF _ _ Cons.prems(3)]
    by (intro consume_each_Cons [OF Cons.prems(1) granted_grants [OF Cons.prems(2,3)] _ Cons.prems(6,7)]) blast+
qed

lemma begun_entry:
  assumes "begin_confirming w su entropy now intents t = (Inr (Some url), t')"
  obtains rq where "pr_state rq = base64url (take 32 entropy)" "pr_created_at rq = now"
    "map_of t' (base64url (take 32 entropy)) =
      Some \<lparr>oc_request = rq, oc_left = map (digest w) intents, oc_granted = None\<rparr>"
proof -
  obtain rq where t': "t' = begin_entry w rq intents now t" and rq: "pr_state rq = base64url (take 32 entropy)" "pr_created_at rq = now"
    using begin_confirming_Some [OF assms] by metis
  have "map_of t' (pr_state rq) = Some \<lparr>oc_request = rq, oc_left = map (digest w) intents, oc_granted = None\<rparr>"
    unfolding t' begin_entry_pruned by (rule map_of_table_insert)
  then show ?thesis using rq by (intro that [OF rq]) simp
qed

lemma fresh_grants:
  assumes "client su = Inr (Some o1)" "presents (su_idp su) o1 (oc_request c) code i auth"
    and "saturating_sub now' (pr_created_at (oc_request c)) \<le> 300" "pr_state (oc_request c) = k"
    and "su_user_by_pocket_id su (id_sub i) = Inr (Some account)" "oc_granted c = None"
  shows "consume_grant su \<lparr>cn_proof = \<lparr>pf_state = k, pf_code = code\<rparr>, cn_asked = asked, cn_action = act,
      cn_open = c, cn_now = now'\<rparr> = Inr \<lparr>gr_code = code, gr_account = account, gr_auth_time = auth\<rparr>"
proof -
  have "\<not> is_expired (oc_request c) now'" using assms(3) by (simp add: is_expired_def REQUEST_TIMEOUT_S_def)
  from finish_confirming_presents [OF assms(2) this] show ?thesis
    using assms(1,4,5,6) by (simp add: consume_grant_def and_then_def)
qed

lemma begun_each_consumed:
  assumes "begin_confirming w su entropy now intents t = (Inr (Some url), t')" "k = base64url (take 32 entropy)"
    and "client (ak_around q) = Inr (Some o1)"
    and "presents (su_idp (ak_around q)) o1 (oc_request (the (map_of t' k))) code i auth"
    and "saturating_sub (ak_at q) now \<le> 300"
    and "su_user_by_pocket_id (ak_around q) (id_sub i) = Inr (Some account)"
    and "list_all (can_go k account auth) (q # qs)"
    and "set (map ak_asked (q # qs)) \<subseteq> set intents" "distinct (map (digest w \<circ> ak_asked) (q # qs))"
  shows "\<exists>t''. consume_each w \<lparr>pf_state = k, pf_code = code\<rparr> (q # qs) t' = (replicate (length (q # qs)) (Inr account), t'') \<and>
    (map_of t'' k = None \<longleftrightarrow> digest w ` set intents \<subseteq> set (map (digest w \<circ> ak_asked) (q # qs)))"
proof -
  let ?g = "\<lparr>gr_code = code, gr_account = account, gr_auth_time = auth\<rparr>"
  obtain rq where rq: "pr_state rq = k" "pr_created_at rq = now"
    and entry: "map_of t' k = Some \<lparr>oc_request = rq, oc_left = map (digest w) intents, oc_granted = None\<rparr>"
    using begun_entry [OF assms(1)] assms(2) by metis
  define c where "c = \<lparr>oc_request = rq, oc_left = map (digest w) intents, oc_granted = None\<rparr>"
  have left: "set (oc_left c) = digest w ` set intents" by (simp add: c_def)
  have "all_confirmed w k code (gr_account ?g) (oc_left c) (q # qs) t'"
  proof (rule consume_each_Cons)
    show "map_of t' k = Some c" using entry by (simp add: c_def)
    show "consume_grant (ak_around q) \<lparr>cn_proof = \<lparr>pf_state = k, pf_code = code\<rparr>, cn_asked = ak_asked q,
        cn_action = act, cn_open = c, cn_now = ak_at q\<rparr> = Inr ?g" for act
      by (rule fresh_grants [OF assms(3) _ _ _ assms(6)]) (use assms(4,5) entry rq in \<open>simp_all add: c_def\<close>)
    show "can_go k (gr_account ?g) (gr_auth_time ?g) q" using assms(7) by simp
    show "set (map (digest w \<circ> ak_asked) (q # qs)) \<subseteq> set (oc_left c)" using assms(8) unfolding left by fastforce
    show "distinct (map (digest w \<circ> ak_asked) (q # qs))" by (rule assms(9))
    show "all_confirmed w k code (gr_account ?g) (oc_left c') qs t1"
      if "map_of t1 k = Some c'" "oc_granted c' = Some ?g" "oc_left c' \<noteq> []"
        "set (map (digest w \<circ> ak_asked) qs) \<subseteq> set (oc_left c')" for t1 c'
      by (rule consume_each_granted [OF that(1,2) _ that(3) _ that(4)]) (use assms(7,9) in simp_all)
  qed
  then show ?thesis by (simp add: all_confirmed_def left)
qed


section \<open>One run\<close>

text \<open>
  A daemon with a provider that answers for one person, an administrator: a confirmation of
  two actions is begun at 0 and the passkey presented at 900.
\<close>

fun ex_written :: "unit intent \<Rightarrow> bytes" where
  "ex_written (IDeleteRole _) = as_bytes ''abc''"
| "ex_written _ = []"

definition ex_wire :: "unit wire" where
  "ex_wire = \<lparr>wire_one = ex_written, wire_many = (\<lambda>_. [])\<rparr>"


definition ex_intents :: "unit intent list" where
  "ex_intents = [IDeleteRole (), ISetUserRole ()]"

definition ex_oidc :: oidc where
  "ex_oidc =
     \<lparr>oi_endpoints = \<lparr>ep_issuer = [], ep_authorization = ''https://id.example/authorize'', ep_token = [],
        ep_userinfo = [], ep_end_session = None\<rparr>,
      oi_client_id = ''hlb'', oi_client_secret = ''s'', oi_redirect_uri = ''https://hlb.example/auth/confirmed''\<rparr>"

definition ex_identity :: identity where
  "ex_identity = \<lparr>id_sub = ''u-1'', id_preferred_username = None, id_email = None, id_name = None, id_groups = []\<rparr>"

definition ex_claims :: json where
  "ex_claims = JObject [(''nonce'', JString (nonce ex_wire ex_intents)), (''auth_time'', JNumber ''100'')]"

definition ex_idp :: idp where
  "ex_idp =
     \<lparr>idp_token = (\<lambda>_. Answered 200 (Inr []) []), idp_userinfo = (\<lambda>_. Answered 200 (Inr []) []),
      parse_token = (\<lambda>_. Inr \<lparr>tr_access_token = ''a'', tr_id_token = Some ''..''\<rparr>),
      parse_identity = (\<lambda>_. Inr ex_identity),
      parse_claims = (\<lambda>_. Some ex_claims),
      number_i64 = (\<lambda>_. Some 100)\<rparr>"

definition ex_surroundings :: surroundings where
  "ex_surroundings =
     \<lparr>su_issuer = Some ex_oidc, su_client = None, su_trusted_root = None, su_host = Inr None,
      su_discover = (\<lambda>_ _ _ _ _. Inl ''unused''), su_idp = ex_idp,
      su_user_by_pocket_id = (\<lambda>_. Inr (Some ''ana'')), su_user_role = (\<lambda>_. Inr Admin),
      su_error_text = (\<lambda>_. [])\<rparr>"

definition ex_proof :: passkey_proof where
  "ex_proof = \<lparr>pf_state = base64url (take 32 []), pf_code = ''c''\<rparr>"

definition ex_url :: string where
  "ex_url = fst (start_confirming ex_oidc [] (nonce ex_wire ex_intents) 0)"

definition ex_request :: pending_request where
  "ex_request = snd (start_confirming ex_oidc [] (nonce ex_wire ex_intents) 0)"

lemma ex_client: "client ex_surroundings = Inr (Some ex_oidc)"
  by (simp add: client_def ex_surroundings_def)

lemma ex_begins:
  "begin_confirming ex_wire ex_surroundings [] 0 ex_intents [] =
     (Inr (Some ex_url), begin_entry ex_wire ex_request ex_intents 0 [])"
  by (simp add: begin_confirming_def ex_client ex_url_def ex_request_def ex_intents_def split_beta)

lemma ex_request_simps: "pr_state ex_request = base64url (take 32 [])" "pr_nonce ex_request = nonce ex_wire ex_intents"
  by (simp_all add: ex_request_def start_confirming_def Let_def)

lemma ex_presents: "presents ex_idp ex_oidc ex_request ''c'' ex_identity 100"
proof -
  have "claims_of ex_idp ''..'' = Some ex_claims"
    by (simp add: claims_of_def ex_idp_def base64url_decode_def)
  then show ?thesis
    unfolding presents_def
    by (intro exI [of _ "\<lparr>tr_access_token = ''a'', tr_id_token = Some ''..''\<rparr>"] exI [of _ "''..''"] exI [of _ ex_claims]
        exI [of _ "JNumber ''100''"])
      (simp add: ex_idp_def token_of_def identity_of_def is_success_def read_json_def and_then_def ex_claims_def
        ex_identity_def ex_request_simps json_i64_def)
qed

definition ex_table :: conf_table where
  "ex_table = begin_entry ex_wire ex_request ex_intents 0 []"

lemma ex_table_presents:
  "presents (su_idp ex_surroundings) ex_oidc
     (oc_request (the (map_of (begin_entry ex_wire ex_request ex_intents 0 []) (base64url (take 32 []))))) ''c'' ex_identity 100"
proof -
  have "su_idp ex_surroundings = ex_idp" by (simp add: ex_surroundings_def)
  then show ?thesis
    using ex_presents
    unfolding begin_entry_pruned ex_request_simps(1) [symmetric] map_of_table_insert by simp
qed

lemma ex_facts:
  "saturating_sub 200 0 \<le> 300" "saturating_sub 200 100 \<le> 300"
  "su_user_by_pocket_id ex_surroundings (id_sub ex_identity) = Inr (Some ''ana'')"
  "su_user_role ex_surroundings ''ana'' = Inr Admin" "allows Admin ManageAccounts"
  by (simp_all add: saturating_sub_def ex_surroundings_def allows_def)

lemma ex_intents_facts:
  "asked \<in> set ex_intents \<Longrightarrow> passkey asked = Some ManageAccounts \<and> \<not> device_for_another asked account"
  by (auto simp: ex_intents_def)

definition ex_asking :: "unit intent \<Rightarrow> unit asking" where
  "ex_asking asked = \<lparr>ak_around = ex_surroundings, ak_asked = asked, ak_at = 200, ak_others = (\<lambda>t. t)\<rparr>"

lemma ex_can_go: "asked \<in> set ex_intents \<Longrightarrow> can_go k ''ana'' 100 (ex_asking asked)"
  using ex_facts(2,4,5) ex_intents_facts [of asked "''ana''"] by (auto simp: can_go_def may_confirm_def ex_asking_def)

lemma ex_asking_simps:
  "ak_around (ex_asking asked) = ex_surroundings" "ak_asked (ex_asking asked) = asked" "ak_at (ex_asking asked) = 200"
  "ak_others (ex_asking asked) = (\<lambda>t. t)"
  by (simp_all add: ex_asking_def)

lemma ex_consumed:
  assumes "asked \<in> set ex_intents"
  shows "fst (consume ex_wire ex_surroundings ex_proof asked 200 ex_table) = Inr ''ana''"
proof -
  have "\<exists>t''. consume_each ex_wire ex_proof [ex_asking asked] ex_table = (replicate 1 (Inr ''ana''), t'')"
    using begun_each_consumed [OF ex_begins refl, of "ex_asking asked" ex_oidc "''c''" ex_identity 100 "''ana''" "[]"]
      ex_client ex_table_presents ex_facts(1,3) ex_can_go [OF assms] assms
    by (auto simp: ex_asking_simps ex_proof_def ex_table_def)
  then show ?thesis by (auto simp: ex_asking_simps split: prod.splits)
qed

lemma ex_reachable:
  "\<exists>g r s. conf_reachable ex_wire s \<and>
     EvActed (pf_state ex_proof) (digest ex_wire (IDeleteRole ())) (IDeleteRole ()) g r 200 \<in> set (cs_trace s)"
proof -
  let ?s = "conf_start\<lparr>cs_table := ex_table, cs_trace := [EvBegun (base64url (take 32 [])) ex_intents]\<rparr>"
  have "conf_reachable ex_wire ?s"
  proof (rule conf_reachable.step [OF conf_reachable.start])
    show "conf_step ex_wire conf_start ?s"
      using conf_step.Begin [of ex_wire ex_surroundings "[]" 0 ex_intents conf_start ex_url ex_table] ex_begins
      by (simp add: conf_start_def ex_table_def begun_states_def)
  qed
  moreover obtain t where "consume ex_wire ex_surroundings ex_proof (IDeleteRole ()) 200 (cs_table ?s) = (Inr ''ana'', t)"
    using ex_consumed [of "IDeleteRole ()"] by (metis conf_sys.ext_inject conf_sys.surjective conf_sys.update_convs(1,3) ex_intents_def list.set_intros(1) prod.collapse)
  ultimately show ?thesis using consume_reachable by (metis conf_sys.select_convs(3) conf_sys.surjective conf_sys.update_convs(3) list.set_intros(1))
qed


theorem acted_on_was_confirmed_witness:
  "\<exists>k is (g :: granted) r s. conf_reachable ex_wire s \<and> EvBegun k is \<in> set (cs_trace s) \<and> allows r ManageAccounts \<and>
     saturating_sub 200 (gr_auth_time g) \<le> 300"
proof -
  obtain g r s where s: "conf_reachable ex_wire s"
    "EvActed (pf_state ex_proof) (digest ex_wire (IDeleteRole ())) (IDeleteRole ()) g r 200 \<in> set (cs_trace s)"
    using ex_reachable by blast
  from acted_on_was_confirmed [OF s] have "allows r ManageAccounts" "saturating_sub 200 (gr_auth_time g) \<le> 300"
    "\<exists>k is. EvBegun k is \<in> set (cs_trace s)" by auto
  then show ?thesis using s(1) by blast
qed

theorem confirmation_never_replayed_witness:
  "\<exists>s e. conf_reachable ex_wire s \<and>
     fst (consume ex_wire ex_surroundings ex_proof (IDeleteRole ()) 201 (cs_table s)) = Inl e"
  using ex_reachable confirmation_never_replayed [of ex_wire _ ex_proof "IDeleteRole ()"] by blast

theorem confirmation_is_one_passkey_witness:
  "\<exists>s g r. conf_reachable ex_wire s \<and>
     EvActed (pf_state ex_proof) (digest ex_wire (IDeleteRole ())) (IDeleteRole ()) g r 200 \<in> set (cs_trace s) \<and>
     \<not> (\<exists>g' d a r' now. g' \<noteq> g \<and> EvActed (pf_state ex_proof) d a g' r' now \<in> set (cs_trace s))"
proof -
  obtain g r s where s: "conf_reachable ex_wire s"
    "EvActed (pf_state ex_proof) (digest ex_wire (IDeleteRole ())) (IDeleteRole ()) g r 200 \<in> set (cs_trace s)"
    using ex_reachable by blast
  have "g' = g" if "EvActed (pf_state ex_proof) d a g' r' now \<in> set (cs_trace s)" for g' d a r' now
    by (rule confirmation_is_one_passkey [OF s(1) that s(2)])
  then show ?thesis using s by blast
qed

theorem answer_acts_only_confirmed_witness:
  "\<exists>pf account. IConfirmed ex_proof (IDeleteRole ()) = IConfirmed pf (IDeleteRole ()) \<and>
     consume ex_wire ex_surroundings pf (IDeleteRole ()) 200 ex_table =
       (Inr account, snd (answer ex_wire ex_surroundings [] 200 (IConfirmed ex_proof (IDeleteRole ())) ex_table))"
proof (rule answer_acts_only_confirmed)
  have "fst (consume ex_wire ex_surroundings ex_proof (IDeleteRole ()) 200 ex_table) = Inr ''ana''"
    by (rule ex_consumed) (simp add: ex_intents_def)
  then show "answer ex_wire ex_surroundings [] 200 (IConfirmed ex_proof (IDeleteRole ())) ex_table =
    (ActOn (IDeleteRole ()), snd (answer ex_wire ex_surroundings [] 200 (IConfirmed ex_proof (IDeleteRole ())) ex_table))"
    by (auto simp: answer_def split: prod.splits)
qed (simp_all add: Confirm.required_def ex_surroundings_def)

theorem table_bounded_witness:
  "\<exists>s. conf_reachable ex_wire s \<and> acted_pairs (cs_trace s) \<noteq> [] \<and>
     length (cs_table s) \<le> MAX_OPEN + length (acted_pairs (cs_trace s))"
  using ex_reachable table_bounded acted_pairs_iff by (metis empty_iff empty_set)

end
