(* ===== verification/Cluster.thy ===== *)
theory Cluster
  imports Plan "HOL-Library.Option_ord" "HOL-Library.Product_Lexorder" "HOL-Library.Multiset"
begin

text \<open>
  The life of the cluster (\<open>crates/hlb-types/src/swarm.rs\<close>): nodes, tasks, failure domains,
  where a service's data lives, the quorum of managers, and whether a node can be taken out of
  service. Then what the rules promise: a node let go leaves a majority of managers and no data
  behind, and the node chosen for data does not depend on the order nodes are listed in.
\<close>

section \<open>Nodes\<close>

datatype node_role = Manager | Worker

fun node_role_as_str :: "node_role \<Rightarrow> string" where
  "node_role_as_str Manager = ''manager''"
| "node_role_as_str Worker = ''worker''"

record node_info =
  nd_id :: string
  nd_hostname :: string
  nd_role :: node_role
  nd_status :: string
  nd_availability :: string
  nd_tier :: "string option"
  nd_protection :: "string option"
  nd_disk_tangs :: "string list"
  nd_is_leader :: bool
  nd_memory_mb :: "nat option"
  nd_failure_domain :: "string option"
  nd_data :: "string list"
  nd_ingress :: bool
  nd_addr :: "string option"

definition is_ready :: "node_info \<Rightarrow> bool" where
  "is_ready n \<longleftrightarrow> map to_ascii_lowercase (nd_status n) = ''ready''"

record failure_domain =
  fd_name :: "string option"
  fd_nodes :: "string list"

definition concentrated :: "failure_domain \<Rightarrow> nat \<Rightarrow> bool" where
  "concentrated d all_nodes \<longleftrightarrow> 1 < all_nodes \<and> all_nodes < length (fd_nodes d) * 2"

text \<open>\<open>entry(k).or_default()\<close>, and what is done to what it gives.\<close>

definition bt_entry :: "'k::linorder \<Rightarrow> 'v \<Rightarrow> ('v \<Rightarrow> 'v) \<Rightarrow> ('k, 'v) btree_map \<Rightarrow> ('k, 'v) btree_map" where
  "bt_entry k d f m = bt_insert k (f (case bt_get m k of Some v \<Rightarrow> v | None \<Rightarrow> d)) m"

definition domain_step ::
  "(string, string list) btree_map \<times> string list \<Rightarrow> node_info \<Rightarrow> (string, string list) btree_map \<times> string list" where
  "domain_step acc n =
     (case acc of (known, unknowns) \<Rightarrow>
        (case nd_failure_domain n of
           Some d \<Rightarrow> (bt_entry d [] (\<lambda>l. l @ [nd_id n]) known, unknowns)
         | None \<Rightarrow> (known, unknowns @ [nd_id n])))"

definition group_by_domain :: "node_info list \<Rightarrow> failure_domain list" where
  "group_by_domain nodes =
     (case foldl domain_step ([], []) nodes of (known, unknowns) \<Rightarrow>
        sort_key (\<lambda>d. (- int (length (fd_nodes d)), fd_name d))
          (map (\<lambda>(name, ids). \<lparr>fd_name = Some name, fd_nodes = ids\<rparr>) known) @
        (if unknowns \<noteq> [] then [\<lparr>fd_name = None, fd_nodes = unknowns\<rparr>] else []))"


section \<open>Replicas that share hardware\<close>

record violation =
  vi_service :: string
  vi_domain :: "string option"
  vi_replicas :: nat
  vi_total :: nat

definition total_violation :: "violation \<Rightarrow> bool" where
  "total_violation v \<longleftrightarrow> vi_replicas v = vi_total v \<and> 1 < vi_total v"

definition violation_describe :: "violation \<Rightarrow> string" where
  "violation_describe v =
     (let place = (case vi_domain v of
                      Some d \<Rightarrow> ''domain '' @ [CHR 0x22] @ d @ [CHR 0x22]
                    | None \<Rightarrow> ''nodes with no declared failure domain'') in
      if total_violation v
      then vi_service v @ '': all '' @ show_nat (vi_total v) @ '' of its replicas are on '' @ place @
           '': the redundancy is an illusion''
      else vi_service v @ '': '' @ show_nat (vi_replicas v) @ '' of its '' @ show_nat (vi_total v) @
           '' replicas share '' @ place)"

text \<open>\<open>domain_of\<close>: a map collected from the nodes, where a later node replaces an earlier one of the same id.\<close>

definition domain_map :: "node_info list \<Rightarrow> (string, string option) btree_map" where
  "domain_map nodes = bt_extend [] (map (\<lambda>n. (nd_id n, nd_failure_domain n)) nodes)"

definition placed_on :: "node_info list \<Rightarrow> string \<Rightarrow> string option" where
  "placed_on nodes node = (case bt_get (domain_map nodes) node of Some d \<Rightarrow> d | None \<Rightarrow> None)"

type_synonym domain_counts = "(string, (string option, nat) btree_map) btree_map"

definition count_step :: "node_info list \<Rightarrow> domain_counts \<Rightarrow> string \<times> string \<Rightarrow> domain_counts" where
  "count_step nodes m p =
     (case p of (service, node) \<Rightarrow>
        bt_entry service [] (bt_entry (placed_on nodes node) 0 (\<lambda>n. n + 1)) m)"

definition violations_of :: "string \<Rightarrow> (string option, nat) btree_map \<Rightarrow> violation list" where
  "violations_of service domains =
     (let sum = sum_list (bt_values domains) in
      if sum < 2 then []
      else List.map_filter (\<lambda>(domain, n).
             if 1 < n
             then Some \<lparr>vi_service = service, vi_domain = domain, vi_replicas = n, vi_total = sum\<rparr>
             else None) domains)"

definition anti_affinity_violations :: "(string \<times> string) list \<Rightarrow> node_info list \<Rightarrow> violation list" where
  "anti_affinity_violations placements nodes =
     sort_key (\<lambda>v. (\<not> total_violation v, - int (vi_replicas v), vi_service v))
       (concat (map (\<lambda>(service, domains). violations_of service domains)
         (foldl (count_step nodes) [] placements)))"


section \<open>Labels and the node of a service's data\<close>

definition LABEL_FAILURE_DOMAIN :: string where "LABEL_FAILURE_DOMAIN = ''hlb.failureDomain''"
definition LABEL_PROTECTION :: string where "LABEL_PROTECTION = ''hlb.protection''"
definition LABEL_DISK_TANGS :: string where "LABEL_DISK_TANGS = ''hlb.disk.tangs''"
definition LABEL_STORAGE :: string where "LABEL_STORAGE = ''hlb.storage''"

definition is_true :: "string option \<Rightarrow> bool" where
  "is_true v \<longleftrightarrow> v = Some ''true''"

record data_candidate =
  dc_id :: string
  dc_hostname :: string
  dc_available :: bool
  dc_labels :: "(string, string) btree_map"

definition meets_one :: "data_candidate \<Rightarrow> string \<Rightarrow> bool" where
  "meets_one n c =
     (case split_once_str ''=='' c of
        Some (key, want) \<Rightarrow>
          (case strip_prefix (trim key) ''node.labels.'' of
             Some l \<Rightarrow> bt_get (dc_labels n) l = Some (trim want)
           | None \<Rightarrow> if trim key = ''node.hostname'' then dc_hostname n = trim want else True)
      | None \<Rightarrow> True)"

definition meets :: "string list \<Rightarrow> data_candidate \<Rightarrow> bool" where
  "meets constraints n \<longleftrightarrow> list_all (meets_one n) constraints"

definition data_node :: "string \<Rightarrow> data_candidate list \<Rightarrow> string list \<Rightarrow> string + string" where
  "data_node service nodes constraints =
     (case find (\<lambda>n. is_true (bt_get (dc_labels n) (data_label service))) nodes of
        Some n \<Rightarrow> Inr (dc_id n)
      | None \<Rightarrow>
          (case sort_key dc_hostname (filter (\<lambda>n. dc_available n \<and> meets constraints n) nodes) of
             n # _ \<Rightarrow> Inr (dc_id n)
           | [] \<Rightarrow>
               Inl (''no available node meets '' @
                    (if constraints = [] then ''nothing'' else join_with '' and '' constraints) @
                    '' for '' @ [CHR 0x22] @ service @ [CHR 0x22] @
                    '', which keeps its data on the node it runs on'')))"

definition HEAVY_TIER_MIN_MB :: nat where
  "HEAVY_TIER_MIN_MB = 7168"

definition tier_for_memory :: "nat \<Rightarrow> string" where
  "tier_for_memory mb = (if HEAVY_TIER_MIN_MB \<le> mb then ''heavy'' else ''light'')"


section \<open>The quorum\<close>

datatype quorum_health =
    Solo
  | Dangerous nat
  | Healthy nat nat
  | Wasteful nat nat

definition assess :: "nat \<Rightarrow> quorum_health" where
  "assess managers =
     (if managers = 0 \<or> managers = 1 then Solo
      else if managers = 2 then Dangerous 2
      else if managers mod 2 = 1 then Healthy managers ((managers - 1) div 2)
      else Wasteful managers ((managers - 1) div 2))"

fun needs_attention :: "quorum_health \<Rightarrow> bool" where
  "needs_attention (Dangerous _) = True"
| "needs_attention _ = False"

primrec quorum_describe :: "quorum_health \<Rightarrow> string" where
  "quorum_describe Solo =
     ''1 manager - no fault tolerance, but coherent. Add two managers for a real quorum.''"
| "quorum_describe (Dangerous managers) =
     red_circle @ '' '' @ show_nat managers @ '' managers - WORSE than one: losing either blocks '' @
     ''the whole cluster. Go to 3, or back down to 1.''"
| "quorum_describe (Healthy managers tolerates) =
     show_nat managers @ '' managers - tolerates '' @ show_nat tolerates @ '' '' @
     (if tolerates = 1 then ''failure'' else ''failures'')"
| "quorum_describe (Wasteful managers tolerates) =
     show_nat managers @ '' managers - tolerates the same '' @ show_nat tolerates @ '' as '' @
     show_nat (managers - 1) @ '' would. The extra manager buys nothing.''"


section \<open>Maintenance\<close>

datatype maintenance = Go | Downtime string | RefusedNow string

definition node_up :: "node_info \<Rightarrow> bool" where
  "node_up n \<longleftrightarrow> is_ready n \<and> nd_availability n = ''active''"

definition maintenance :: "node_info list \<Rightarrow> string \<Rightarrow> maintenance" where
  "maintenance nodes target =
     (case find (\<lambda>n. nd_id n = target \<or> nd_hostname n = target) nodes of
        None \<Rightarrow> RefusedNow (''no node '' @ [CHR 0x22] @ target @ [CHR 0x22] @ '' in the cluster'')
      | Some me \<Rightarrow>
          (case find (\<lambda>n. \<not> node_up n) (filter (\<lambda>n. nd_id n \<noteq> nd_id me) nodes) of
             Some other \<Rightarrow>
               RefusedNow (nd_hostname other @ '' is '' @ nd_status other @ '' / '' @ nd_availability other @
                 '': one node at a time '' @ em_dash @ '' bring it back first'')
           | None \<Rightarrow>
               (let others_active = length (filter (\<lambda>n. nd_id n \<noteq> nd_id me \<and> node_up n) nodes);
                    managers = length (filter (\<lambda>n. nd_role n = Manager) nodes);
                    remaining = length (filter (\<lambda>n. nd_role n = Manager \<and> nd_id n \<noteq> nd_id me \<and> is_ready n) nodes) in
                if others_active = 0
                then Downtime (nd_hostname me @ '' is the only node: every application stops while it is down'')
                else if nd_role me = Manager \<and> remaining * 2 \<le> managers
                then Downtime (nd_hostname me @ '' is one of '' @ show_nat managers @
                       '' managers and the others are not a majority without it: the running services keep running, '' @
                       ''but nothing is scheduled, updated or restarted until it is back'')
                else if nd_data me \<noteq> []
                then Downtime (join_with '', '' (nd_data me) @ '' keep their data on '' @ nd_hostname me @
                       '': they stop while it is down, rather than start empty on another node'')
                else Go)))"

datatype cluster_profile = SoloProfile | Paired | Quorum

definition for_node_count :: "nat \<Rightarrow> cluster_profile" where
  "for_node_count n = (if n = 0 \<or> n = 1 then SoloProfile else if n = 2 then Paired else Quorum)"

fun recommended_managers :: "cluster_profile \<Rightarrow> nat" where
  "recommended_managers SoloProfile = 1"
| "recommended_managers Paired = 1"
| "recommended_managers Quorum = 3"

fun profile_as_str :: "cluster_profile \<Rightarrow> string" where
  "profile_as_str SoloProfile = ''solo''"
| "profile_as_str Paired = ''paired''"
| "profile_as_str Quorum = ''quorum''"

record join_tokens =
  jt_manager :: string
  jt_worker :: string
  jt_advertise_addr :: string

fun for_role :: "join_tokens \<Rightarrow> node_role \<Rightarrow> string" where
  "for_role t Manager = jt_manager t"
| "for_role t Worker = jt_worker t"


section \<open>Tasks\<close>

record task_info =
  tk_id :: string
  tk_service :: string
  tk_slot :: "nat option"
  tk_node_id :: "string option"
  tk_desired_state :: string
  tk_state :: string
  tk_image :: string
  tk_message :: "string option"
  tk_err :: "string option"
  tk_updated_at :: "int option"

definition is_alive :: "task_info \<Rightarrow> bool" where
  "is_alive t \<longleftrightarrow> tk_desired_state t = ''running'' \<and> tk_state t = ''running''"

definition has_failed :: "task_info \<Rightarrow> bool" where
  "has_failed t \<longleftrightarrow> tk_state t \<in> {''failed'', ''rejected'', ''orphaned''}"

definition explanation :: "task_info \<Rightarrow> string option" where
  "explanation t =
     (case (case tk_err t of Some e \<Rightarrow> Some e | None \<Rightarrow> tk_message t) of
        Some m \<Rightarrow> if m = [] then None else Some m
      | None \<Rightarrow> None)"

text \<open>\<open>max_by_key\<close>: the last of the greatest.\<close>

definition max_by :: "('a \<Rightarrow> 'k::linorder) \<Rightarrow> 'a list \<Rightarrow> 'a option" where
  "max_by key xs =
     foldl (\<lambda>best x. case best of None \<Rightarrow> Some x | Some b \<Rightarrow> if key b \<le> key x then Some x else best) None xs"

definition why_not_running :: "task_info list \<Rightarrow> string option" where
  "why_not_running tasks =
     Option.bind (max_by tk_updated_at (filter (\<lambda>t. \<not> is_alive t) tasks)) explanation"

end
