(* ===== verification/Cluster_Props.thy ===== *)
theory Cluster_Props
  imports Cluster
begin

text \<open>
  What the rules of the cluster promise: a node let go for maintenance leaves a majority of the
  managers ready and no data behind; the quorum tolerates what it says; every node is in one
  failure domain; replicas that share one are all reported; and the node chosen for a service's
  data does not depend on the order in which nodes are listed.
\<close>

section \<open>Maintenance\<close>

text \<open>
  C28: A node is let go only when every other node is up, at least one is, no service keeps its
  data on it, and, when it is a manager, the managers that stay are a strict majority of all:
  the cluster keeps its quorum.
\<close>

theorem maintenance_go_safe:
  assumes "maintenance nodes target = Go"
  shows "\<exists>me \<in> set nodes. (nd_id me = target \<or> nd_hostname me = target) \<and> nd_data me = [] \<and>
    (\<exists>n \<in> set nodes. nd_id n \<noteq> nd_id me) \<and>
    list_all (\<lambda>n. nd_id n = nd_id me \<or> node_up n) nodes \<and>
    (nd_role me = Worker \<or>
     length (filter (\<lambda>n. nd_role n = Manager) nodes)
       < 2 * length (filter (\<lambda>n. nd_role n = Manager \<and> nd_id n \<noteq> nd_id me \<and> is_ready n) nodes))"
proof -
  obtain me where me: "find (\<lambda>n. nd_id n = target \<or> nd_hostname n = target) nodes = Some me"
    using assms by (auto simp: maintenance_def split: option.splits)
  have up: "find (\<lambda>n. \<not> node_up n) (filter (\<lambda>n. nd_id n \<noteq> nd_id me) nodes) = None"
    using assms me by (auto simp: maintenance_def split: option.splits)
  have rest: "filter (\<lambda>n. nd_id n \<noteq> nd_id me \<and> node_up n) nodes \<noteq> []" "nd_data me = []"
    "nd_role me = Manager \<Longrightarrow> length (filter (\<lambda>n. nd_role n = Manager) nodes)
       < 2 * length (filter (\<lambda>n. nd_role n = Manager \<and> nd_id n \<noteq> nd_id me \<and> is_ready n) nodes)"
    using assms me up by (auto simp: maintenance_def Let_def split: if_splits)
  have "me \<in> set nodes" "nd_id me = target \<or> nd_hostname me = target"
    using me by (auto simp: find_Some_iff)
  moreover have "\<exists>n \<in> set nodes. nd_id n \<noteq> nd_id me" using rest(1) by (auto simp: filter_empty_conv)
  moreover have "list_all (\<lambda>n. nd_id n = nd_id me \<or> node_up n) nodes"
    using up by (auto simp: find_None_iff list_all_iff)
  moreover have "nd_role me = Worker \<or> nd_role me = Manager" by (cases "nd_role me") auto
  ultimately show ?thesis using rest(2,3) by blast
qed

definition sample_node :: "string \<Rightarrow> node_role \<Rightarrow> node_info" where
  "sample_node name r =
     \<lparr>nd_id = name, nd_hostname = name, nd_role = r, nd_status = ''ready'', nd_availability = ''active'',
      nd_tier = None, nd_protection = None, nd_disk_tangs = [], nd_is_leader = False, nd_memory_mb = None,
      nd_failure_domain = Some name, nd_data = [], nd_ingress = False, nd_addr = None\<rparr>"

definition three_managers :: "node_info list" where
  "three_managers = [sample_node ''a'' Manager, sample_node ''b'' Manager, sample_node ''c'' Manager]"

lemma three_managers_go: "maintenance three_managers ''b'' = Go"
  by (simp add: maintenance_def three_managers_def sample_node_def node_up_def is_ready_def to_ascii_lowercase_def
      is_ascii_uppercase_def)

theorem maintenance_go_safe_witness:
  "maintenance three_managers ''b'' = Go \<and>
   (\<exists>me :: node_info. nd_hostname me = ''b'' \<and> nd_data me = [] \<and> list_all (\<lambda>n. nd_id n = nd_id me \<or> node_up n) three_managers)"
proof -
  have "\<exists>me. (nd_id me = ''b'' \<or> nd_hostname me = ''b'') \<and> nd_data me = [] \<and>
      list_all (\<lambda>n. nd_id n = nd_id me \<or> node_up n) three_managers \<and> me \<in> set three_managers"
    using maintenance_go_safe [OF three_managers_go] by blast
  then obtain me where "nd_id me = ''b'' \<or> nd_hostname me = ''b''" "nd_data me = []"
    "list_all (\<lambda>n. nd_id n = nd_id me \<or> node_up n) three_managers" "me \<in> set three_managers" by blast
  moreover from this have "nd_hostname me = ''b''" by (auto simp: three_managers_def sample_node_def)
  ultimately show ?thesis using three_managers_go by blast
qed


section \<open>The quorum\<close>

text \<open>How many managers may be lost with a strict majority left.\<close>

definition survives :: "nat \<Rightarrow> nat \<Rightarrow> bool" where
  "survives managers lost \<longleftrightarrow> lost < managers \<and> managers < 2 * (managers - lost)"

fun tolerated :: "quorum_health \<Rightarrow> nat" where
  "tolerated (Healthy _ t) = t"
| "tolerated (Wasteful _ t) = t"
| "tolerated _ = 0"

text \<open>
  C29: The number of failures announced is the greatest the quorum survives, for any number of
  managers; and an even number survives no more than one manager less would.
\<close>

theorem quorum_tolerance_exact:
  assumes "0 < managers"
  shows "(survives managers lost \<longleftrightarrow> lost \<le> tolerated (assess managers)) \<and>
    (even managers \<longrightarrow> tolerated (assess managers) = tolerated (assess (managers - 1)))"
proof -
  have t: "tolerated (assess n) = (n - 1) div 2" for n
    by (cases "n \<le> 2") (auto simp: assess_def le_Suc_eq numeral_2_eq_2)
  have "survives managers lost \<longleftrightarrow> lost \<le> (managers - 1) div 2"
    using assms by (auto simp: survives_def less_eq_div_iff_mult_less_eq)
  moreover have "(managers - 1) div 2 = (managers - 1 - 1) div 2" if "even managers"
    using that assms by presburger
  ultimately show ?thesis unfolding t by blast
qed

theorem quorum_tolerance_exact_witness:
  "survives 5 2 \<and> \<not> survives 5 3 \<and> tolerated (assess 4) = tolerated (assess 3)"
  using quorum_tolerance_exact [of 5 2] quorum_tolerance_exact [of 5 3] quorum_tolerance_exact [of 4 0]
  by (simp add: assess_def)


section \<open>The node of a service's data\<close>

lemma sort_key_perm:
  assumes "mset xs = mset ys" "inj_on k (set xs)"
  shows "sort_key k xs = sort_key k ys"
proof (rule properties_for_sort_key)
  have sets: "set xs = set ys" using mset_eq_setD [OF assms(1)] .
  show "mset (sort_key k ys) = mset xs" using assms(1) by simp
  show "sorted (map k (sort_key k ys))" by simp
  show "filter (\<lambda>x. k v = k x) (sort_key k ys) = filter (\<lambda>x. k v = k x) xs" if "v \<in> set (sort_key k ys)" for v
  proof -
    have "filter (\<lambda>x. k v = k x) zs = replicate (count (mset zs) v) v" if "set zs = set xs" for zs
      unfolding replicate_count_mset_eq_filter_eq
      by (rule filter_cong) (use that assms(2) \<open>v \<in> set (sort_key k ys)\<close> sets in \<open>auto dest: inj_onD\<close>)
    then show ?thesis using sets assms(1) by simp
  qed
qed

lemma find_unique:
  assumes "x \<in> set xs" "P x" "\<And>y. y \<in> set xs \<Longrightarrow> P y \<Longrightarrow> y = x"
  shows "find P xs = Some x"
proof (cases "find P xs")
  case None
  then show ?thesis using assms(1,2) by (auto simp: find_None_iff)
next
  case (Some y)
  then have "y \<in> set xs" "P y" by (auto simp: find_Some_iff)
  then have "y = x" by (rule assms(3))
  then show ?thesis using Some by simp
qed

lemma find_perm:
  assumes "set xs = set ys" "\<And>x y. x \<in> set xs \<Longrightarrow> y \<in> set xs \<Longrightarrow> P x \<Longrightarrow> P y \<Longrightarrow> x = y"
  shows "find P xs = find P ys"
proof (cases "\<exists>x \<in> set xs. P x")
  case True
  then obtain x where x: "x \<in> set xs" "P x" by blast
  have u: "y = x" if "y \<in> set xs" "P y" for y using assms(2) [OF that(1) x(1) that(2) x(2)] .
  have "find P xs = Some x" by (rule find_unique [where P = P, OF x]) (rule u)
  moreover have "find P ys = Some x"
    by (rule find_unique [where P = P, OF _ x(2)]) (use x(1) u assms(1) in \<open>simp_all\<close>)
  ultimately show ?thesis by simp
next
  case False
  then have "find P xs = None" "find P ys = None" using assms(1) by (auto simp: find_None_iff)
  then show ?thesis by simp
qed

text \<open>At most one node carries the label of the service, and host names are different.\<close>

definition data_cluster_ok :: "string \<Rightarrow> data_candidate list \<Rightarrow> bool" where
  "data_cluster_ok service nodes \<longleftrightarrow>
     distinct (map dc_hostname nodes) \<and>
     length (filter (\<lambda>n. is_true (bt_get (dc_labels n) (data_label service))) nodes) \<le> 1"

lemma length_filter_le_one:
  assumes "length (filter P xs) \<le> 1" "x \<in> set xs" "y \<in> set xs" "P x" "P y"
  shows "x = y"
proof -
  have "x \<in> set (filter P xs)" "y \<in> set (filter P xs)" using assms by auto
  then show ?thesis using assms(1) by (cases "filter P xs") auto
qed

text \<open>
  The same cluster always gives the same answer: in whatever order its nodes are listed,
  the node a service's data lives on, or the refusal, is the same.
\<close>

theorem data_node_order_irrelevant:
  assumes "mset nodes = mset nodes'" "data_cluster_ok service nodes"
  shows "data_node service nodes constraints = data_node service nodes' constraints"
proof -
  let ?L = "\<lambda>n. is_true (bt_get (dc_labels n) (data_label service))"
  let ?F = "filter (\<lambda>n. dc_available n \<and> meets constraints n)"
  have sets: "set nodes = set nodes'" using mset_eq_setD [OF assms(1)] .
  have ok: "distinct (map dc_hostname nodes)" "length (filter ?L nodes) \<le> 1" using assms(2) by (auto simp: data_cluster_ok_def)
  have "find ?L nodes = find ?L nodes'" by (rule find_perm [OF sets]) (rule length_filter_le_one [OF ok(2)])
  moreover have "mset (?F nodes) = mset (?F nodes')" using assms(1) by simp
  moreover have "inj_on dc_hostname (set (?F nodes))" using ok(1) by (auto simp: distinct_map intro: inj_on_subset)
  ultimately have "sort_key dc_hostname (?F nodes) = sort_key dc_hostname (?F nodes')" using sort_key_perm by blast
  then show ?thesis using \<open>find ?L nodes = find ?L nodes'\<close> by (simp only: data_node_def)
qed

definition plain_candidate :: "string \<Rightarrow> data_candidate" where
  "plain_candidate h = \<lparr>dc_id = h, dc_hostname = h, dc_available = True, dc_labels = []\<rparr>"

theorem data_node_order_irrelevant_witness:
  "data_node ''db'' [plain_candidate ''b'', plain_candidate ''a''] [] =
   data_node ''db'' [plain_candidate ''a'', plain_candidate ''b''] []"
  by (rule data_node_order_irrelevant)
    (simp_all add: data_cluster_ok_def plain_candidate_def is_true_def bt_get_def add_mset_commute)

text \<open>The node that holds the data keeps it, whatever its state.\<close>

lemma data_node_stays:
  assumes "n \<in> set nodes" "is_true (bt_get (dc_labels n) (data_label service))" "data_cluster_ok service nodes"
  shows "data_node service nodes constraints = Inr (dc_id n)"
proof -
  have "find (\<lambda>n. is_true (bt_get (dc_labels n) (data_label service))) nodes = Some n"
    by (rule find_unique [where P = "\<lambda>n. is_true (bt_get (dc_labels n) (data_label service))", OF assms(1,2)])
      (use assms in \<open>auto simp: data_cluster_ok_def intro: length_filter_le_one\<close>)
  then show ?thesis by (simp add: data_node_def)
qed


section \<open>Failure domains\<close>

definition domain_ids :: "node_info list \<Rightarrow> string option \<Rightarrow> string list" where
  "domain_ids nodes d = map nd_id (filter (\<lambda>n. nd_failure_domain n = d) nodes)"

lemma domain_ids_snoc:
  "domain_ids (nodes @ [n]) d = domain_ids nodes d @ (if nd_failure_domain n = d then [nd_id n] else [])"
  by (simp add: domain_ids_def)

lemma domain_step_None: "nd_failure_domain n = None \<Longrightarrow> domain_step (k, u) n = (k, u @ [nd_id n])"
  by (simp add: domain_step_def)

lemma domain_step_Some:
  "nd_failure_domain n = Some d \<Longrightarrow> domain_step (k, u) n = (bt_entry d [] (\<lambda>l. l @ [nd_id n]) k, u)"
  by (simp add: domain_step_def)

lemma domain_loop:
  assumes "foldl domain_step ([], []) nodes = (known, unknowns)"
  shows "unknowns = domain_ids nodes None \<and> bt_wf known \<and>
    (\<forall>d. bt_get known d = (if domain_ids nodes (Some d) = [] then None else Some (domain_ids nodes (Some d))))"
  using assms
proof (induction nodes arbitrary: known unknowns rule: rev_induct)
  case Nil
  then show ?case by (simp add: domain_ids_def bt_get_def)
next
  case (snoc n nodes)
  obtain k u where ku: "foldl domain_step ([], []) nodes = (k, u)" by fastforce
  note IH = snoc.IH [OF ku]
  show ?case
  proof (cases "nd_failure_domain n")
    case None
    then show ?thesis using snoc.prems IH ku by (simp add: domain_step_None domain_ids_snoc)
  next
    case (Some d)
    then have eq: "known = bt_entry d [] (\<lambda>l. l @ [nd_id n]) k" "unknowns = u"
      using snoc.prems ku by (simp_all add: domain_step_Some)
    have "(case bt_get k d of Some v \<Rightarrow> v | None \<Rightarrow> []) = domain_ids nodes (Some d)" using IH by simp
    then show ?thesis
      using IH Some by (simp add: eq bt_entry_def bt_wf_insert bt_get_insert_fun domain_ids_snoc)
  qed
qed

text \<open>
  The failure domains group the nodes exactly: each is the nodes that declare it, in their
  order, the nodes that declare none are one group of their own, and no group is empty.
\<close>

theorem domains_partition:
  "set (group_by_domain nodes) =
     {\<lparr>fd_name = d, fd_nodes = domain_ids nodes d\<rparr> | d. domain_ids nodes d \<noteq> []}"
proof -
  obtain known unknowns where ku: "foldl domain_step ([], []) nodes = (known, unknowns)" by fastforce
  note L = domain_loop [OF ku]
  have known: "(d, ids) \<in> set known \<longleftrightarrow> ids = domain_ids nodes (Some d) \<and> ids \<noteq> []" for d ids
  proof -
    have "(d, ids) \<in> set known \<longleftrightarrow> bt_get known d = Some ids" using L bt_get_Some_set [of known d ids] by blast
    moreover have "bt_get known d = (if domain_ids nodes (Some d) = [] then None else Some (domain_ids nodes (Some d)))"
      using L by blast
    ultimately show ?thesis by auto
  qed
  have "set (group_by_domain nodes) =
      (\<lambda>(name, ids). \<lparr>fd_name = Some name, fd_nodes = ids\<rparr>) ` set known \<union>
      (if unknowns \<noteq> [] then {\<lparr>fd_name = None, fd_nodes = unknowns\<rparr>} else {})"
    by (auto simp: group_by_domain_def ku)
  also have "\<dots> = {\<lparr>fd_name = d, fd_nodes = domain_ids nodes d\<rparr> | d. domain_ids nodes d \<noteq> []}"
  proof (intro set_eqI iffI)
    fix x
    assume "x \<in> (\<lambda>(name, ids). \<lparr>fd_name = Some name, fd_nodes = ids\<rparr>) ` set known \<union>
      (if unknowns \<noteq> [] then {\<lparr>fd_name = None, fd_nodes = unknowns\<rparr>} else {})"
    then show "x \<in> {\<lparr>fd_name = d, fd_nodes = domain_ids nodes d\<rparr> | d. domain_ids nodes d \<noteq> []}"
      using L by (auto simp: known split: if_splits)
  next
    fix x
    assume "x \<in> {\<lparr>fd_name = d, fd_nodes = domain_ids nodes d\<rparr> | d. domain_ids nodes d \<noteq> []}"
    then obtain d where d: "x = \<lparr>fd_name = d, fd_nodes = domain_ids nodes d\<rparr>" "domain_ids nodes d \<noteq> []" by blast
    show "x \<in> (\<lambda>(name, ids). \<lparr>fd_name = Some name, fd_nodes = ids\<rparr>) ` set known \<union>
      (if unknowns \<noteq> [] then {\<lparr>fd_name = None, fd_nodes = unknowns\<rparr>} else {})"
    proof (cases d)
      case None
      then show ?thesis using d L by auto
    next
      case (Some n)
      then have "(n, domain_ids nodes d) \<in> set known" using d(2) known by simp
      then show ?thesis using d(1) Some by force
    qed
  qed
  finally show ?thesis .
qed


section \<open>Replicas that share a failure domain\<close>

lemma sum_bt_insert:
  fixes m :: "('k::linorder, nat) btree_map"
  assumes "bt_wf m"
  shows "sum_list (bt_values (bt_insert k v m)) + (case bt_get m k of Some u \<Rightarrow> u | None \<Rightarrow> 0) =
    sum_list (bt_values m) + v"
  using assms
proof (induction k v m rule: bt_insert.induct)
  case (2 k v k' v' m)
  have "bt_get m k = None" if "k < k'"
    using "2.prems" that by (auto simp: bt_wf_Cons bt_get_def map_of_eq_None_iff)
  then show ?case
    using 2 by (auto simp: bt_values_def bt_get_def bt_wf_Cons)
qed (simp add: bt_values_def bt_get_def)

text \<open>A map of counts, and how a count is kept.\<close>

definition counts :: "('k::linorder, nat) btree_map \<Rightarrow> ('k \<Rightarrow> nat) \<Rightarrow> nat \<Rightarrow> bool" where
  "counts m f n \<longleftrightarrow> bt_wf m \<and> (\<forall>d. bt_get m d = (if f d = 0 then None else Some (f d))) \<and> sum_list (bt_values m) = n"

lemma counts_Nil: "counts [] (\<lambda>_. 0) 0"
  by (simp add: counts_def bt_get_def bt_values_def)

lemma counts_entry:
  assumes "counts m f n"
  shows "counts (bt_entry k 0 (\<lambda>c. c + 1) m) (f(k := f k + 1)) (n + 1)"
proof -
  have wf: "bt_wf m" and get: "\<And>d. bt_get m d = (if f d = 0 then None else Some (f d))" and sum: "sum_list (bt_values m) = n"
    using assms by (auto simp: counts_def)
  have old: "(case bt_get m k of Some u \<Rightarrow> u | None \<Rightarrow> 0) = f k" by (simp add: get)
  have "sum_list (bt_values (bt_insert k (f k + 1) m)) = n + 1"
    using sum_bt_insert [OF wf, of k "f k + 1"] unfolding old sum by simp
  then show ?thesis
    unfolding counts_def bt_entry_def old by (simp add: bt_wf_insert wf bt_get_insert_fun get)
qed

definition replicas_on :: "node_info list \<Rightarrow> (string \<times> string) list \<Rightarrow> string \<Rightarrow> string option \<Rightarrow> nat" where
  "replicas_on nodes ps s d = length (filter (\<lambda>(s', n). s' = s \<and> placed_on nodes n = d) ps)"

definition replicas_of :: "(string \<times> string) list \<Rightarrow> string \<Rightarrow> nat" where
  "replicas_of ps s = length (filter (\<lambda>(s', n). s' = s) ps)"

lemma count_loop:
  "bt_wf (foldl (count_step nodes) [] ps) \<and>
   (\<forall>s. if replicas_of ps s = 0 then bt_get (foldl (count_step nodes) [] ps) s = None
        else \<exists>m. bt_get (foldl (count_step nodes) [] ps) s = Some m \<and> counts m (replicas_on nodes ps s) (replicas_of ps s))"
proof (induction ps rule: rev_induct)
  case Nil
  then show ?case by (simp add: replicas_of_def bt_get_def)
next
  case (snoc p ps)
  let ?m = "foldl (count_step nodes) [] ps"
  obtain s n where p: "p = (s, n)" by fastforce
  let ?inner = "case bt_get ?m s of Some v \<Rightarrow> v | None \<Rightarrow> []"
  have inner: "counts ?inner (replicas_on nodes ps s) (replicas_of ps s)"
  proof (cases "replicas_of ps s = 0")
    case True
    then have "replicas_on nodes ps s = (\<lambda>_. 0)" by (auto simp: replicas_of_def replicas_on_def filter_empty_conv fun_eq_iff)
    moreover have "bt_get ?m s = None" using snoc True by metis
    ultimately show ?thesis using True counts_Nil by simp
  next
    case False
    then obtain m where "bt_get ?m s = Some m" "counts m (replicas_on nodes ps s) (replicas_of ps s)"
      using snoc by metis
    then show ?thesis by simp
  qed
  have on: "replicas_on nodes (ps @ [p]) s = (replicas_on nodes ps s)(placed_on nodes n := replicas_on nodes ps s (placed_on nodes n) + 1)"
    by (auto simp: replicas_on_def p fun_eq_iff)
  have other: "s' \<noteq> s \<Longrightarrow> replicas_on nodes (ps @ [p]) s' = replicas_on nodes ps s'" for s'
    by (auto simp: replicas_on_def p fun_eq_iff)
  have of: "replicas_of (ps @ [p]) s' = (if s' = s then replicas_of ps s + 1 else replicas_of ps s')" for s'
    by (simp add: replicas_of_def p)
  have m': "foldl (count_step nodes) [] (ps @ [p]) =
      bt_insert s (bt_entry (placed_on nodes n) 0 (\<lambda>c. c + 1) ?inner) ?m"
    by (simp add: count_step_def p bt_entry_def)
  show ?case
    unfolding m'
    using snoc counts_entry [OF inner, of "placed_on nodes n"] by (auto simp: bt_wf_insert bt_get_insert_fun of on other)
qed

lemma in_violations_of:
  "v \<in> set (violations_of s m) \<longleftrightarrow>
     2 \<le> sum_list (bt_values m) \<and>
     (\<exists>d k. (d, k) \<in> set m \<and> 2 \<le> k \<and>
        v = \<lparr>vi_service = s, vi_domain = d, vi_replicas = k, vi_total = sum_list (bt_values m)\<rparr>)"
proof -
  have "(\<exists>x \<in> set m. (case x of (domain, n) \<Rightarrow> if 1 < n then Some (g domain n) else None) = Some v) \<longleftrightarrow>
      (\<exists>d k. (d, k) \<in> set m \<and> 2 \<le> k \<and> v = g d k)" for g :: "string option \<Rightarrow> nat \<Rightarrow> violation"
    by (auto simp: Bex_def numeral_2_eq_2 Suc_le_eq split: if_splits)
  then show ?thesis by (simp add: violations_of_def Let_def set_map_filter not_less)
qed

text \<open>
  The violations reported are exactly the services with two replicas or more in one failure
  domain, each with how many and out of how many; the nodes that declare none count as one.
\<close>

theorem violations_exact:
  "set (anti_affinity_violations ps nodes) =
     {\<lparr>vi_service = s, vi_domain = d, vi_replicas = replicas_on nodes ps s d, vi_total = replicas_of ps s\<rparr> | s d.
        2 \<le> replicas_on nodes ps s d}"
proof -
  let ?m = "foldl (count_step nodes) [] ps"
  have wf: "bt_wf ?m" using count_loop by blast
  have le: "replicas_on nodes ps s d \<le> replicas_of ps s" for s d
    unfolding replicas_on_def replicas_of_def by (induction ps) auto
  have of: "(s, m) \<in> set ?m \<longleftrightarrow> replicas_of ps s \<noteq> 0 \<and> bt_get ?m s = Some m" for s m
    using bt_get_Some_set [OF wf, of s m] count_loop [of nodes ps] by (metis option.distinct(1))
  have viol: "v \<in> set (violations_of s m) \<longleftrightarrow>
      (\<exists>d. v = \<lparr>vi_service = s, vi_domain = d, vi_replicas = replicas_on nodes ps s d, vi_total = replicas_of ps s\<rparr> \<and>
           2 \<le> replicas_on nodes ps s d)"
    if "counts m (replicas_on nodes ps s) (replicas_of ps s)" for v s m
  proof -
    have "(d, k) \<in> set m \<longleftrightarrow> k = replicas_on nodes ps s d \<and> k \<noteq> 0" for d k
      using that bt_get_Some_set [of m d k] by (auto simp: counts_def split: if_splits)
    moreover have "sum_list (bt_values m) = replicas_of ps s" using that by (simp add: counts_def)
    moreover have "2 \<le> replicas_on nodes ps s d \<Longrightarrow> 2 \<le> replicas_of ps s" for d using le [of s d] by linarith
    ultimately show ?thesis unfolding in_violations_of by auto
  qed
  show ?thesis
  proof (intro set_eqI iffI)
    fix v
    assume "v \<in> set (anti_affinity_violations ps nodes)"
    then obtain s m where sm: "(s, m) \<in> set ?m" "v \<in> set (violations_of s m)"
      by (auto simp: anti_affinity_violations_def)
    then have "counts m (replicas_on nodes ps s) (replicas_of ps s)"
      using of count_loop [of nodes ps] by (metis option.inject)
    from viol [OF this] sm(2) show "v \<in> {\<lparr>vi_service = s, vi_domain = d, vi_replicas = replicas_on nodes ps s d, vi_total = replicas_of ps s\<rparr> | s d.
        2 \<le> replicas_on nodes ps s d}" by blast
  next
    fix v
    assume "v \<in> {\<lparr>vi_service = s, vi_domain = d, vi_replicas = replicas_on nodes ps s d, vi_total = replicas_of ps s\<rparr> | s d.
        2 \<le> replicas_on nodes ps s d}"
    then obtain s d where v: "v = \<lparr>vi_service = s, vi_domain = d, vi_replicas = replicas_on nodes ps s d, vi_total = replicas_of ps s\<rparr>"
      "2 \<le> replicas_on nodes ps s d" by blast
    then have "replicas_of ps s \<noteq> 0" using le [of s d] by linarith
    then obtain m where m: "bt_get ?m s = Some m" "counts m (replicas_on nodes ps s) (replicas_of ps s)"
      using count_loop [of nodes ps] by metis
    then have "(s, m) \<in> set ?m" "v \<in> set (violations_of s m)" using of viol v \<open>replicas_of ps s \<noteq> 0\<close> by blast+
    then show "v \<in> set (anti_affinity_violations ps nodes)"
      unfolding anti_affinity_violations_def by force
  qed
qed

end
