(* ===== verification/Registry.thy ===== *)
theory Registry
  imports Manifest
begin

text \<open>
  Image references and the versions their tags name (\<open>crates/hlb-registry/src/reference.rs\<close> and
  \<open>version.rs\<close>): what a tag is read as, which later tag a channel lets a service move to, and
  which one is chosen. The choice of a newest element is shown once, for any strict order.
\<close>

section \<open>References\<close>

definition DOCKER_HUB :: string where
  "DOCKER_HUB = ''registry-1.docker.io''"

record image_ref =
  ir_registry :: string
  ir_repository :: string
  ir_tag :: string
  ir_digest :: "string option"

text \<open>\<open>rsplit_once\<close>: around the last occurrence of the character.\<close>

definition rsplit_once :: "char \<Rightarrow> string \<Rightarrow> (string \<times> string) option" where
  "rsplit_once c s = map_option (\<lambda>(a, b). (rev b, rev a)) (split_once c (rev s))"

definition split_digest :: "string \<Rightarrow> string \<times> string option" where
  "split_digest s = (case split_once CHR ''@'' s of Some (r, d) \<Rightarrow> (r, Some d) | None \<Rightarrow> (s, None))"

definition split_registry :: "string \<Rightarrow> string \<times> string" where
  "split_registry rest =
     (case split_once CHR ''/'' rest of
        Some (h, t) \<Rightarrow>
          if CHR ''.'' \<in> set h \<or> CHR '':'' \<in> set h \<or> h = ''localhost'' then (h, t) else (DOCKER_HUB, rest)
      | None \<Rightarrow> (DOCKER_HUB, rest))"

definition split_tag :: "string \<Rightarrow> string \<times> string" where
  "split_tag remainder =
     (case rsplit_once CHR '':'' remainder of
        Some (r, t) \<Rightarrow> if CHR ''/'' \<notin> set t then (r, t) else (remainder, ''latest'')
      | None \<Rightarrow> (remainder, ''latest''))"

definition ref_parse :: "string \<Rightarrow> image_ref" where
  "ref_parse s =
     (let (rest, digest) = split_digest s;
          (registry, remainder) = split_registry rest;
          (repo, tag) = split_tag remainder in
      \<lparr>ir_registry = registry,
       ir_repository = (if registry = DOCKER_HUB \<and> CHR ''/'' \<notin> set repo then ''library/'' @ repo else repo),
       ir_tag = tag, ir_digest = digest\<rparr>)"

definition manifest_url :: "image_ref \<Rightarrow> string \<Rightarrow> string" where
  "manifest_url r reference = ''https://'' @ ir_registry r @ ''/v2/'' @ ir_repository r @ ''/manifests/'' @ reference"

definition blob_url :: "image_ref \<Rightarrow> string \<Rightarrow> string" where
  "blob_url r digest = ''https://'' @ ir_registry r @ ''/v2/'' @ ir_repository r @ ''/blobs/'' @ digest"

definition tags_url :: "image_ref \<Rightarrow> string" where
  "tags_url r = ''https://'' @ ir_registry r @ ''/v2/'' @ ir_repository r @ ''/tags/list?n=1000''"

definition ref_scope :: "image_ref \<Rightarrow> string" where
  "ref_scope r = ''repository:'' @ ir_repository r @ '':pull''"

definition ref_is_pinned :: "image_ref \<Rightarrow> bool" where
  "ref_is_pinned r \<longleftrightarrow> ir_digest r \<noteq> None"

definition ref_name :: "image_ref \<Rightarrow> string" where
  "ref_name r =
     (if ir_registry r = DOCKER_HUB
      then (case strip_prefix (ir_repository r) ''library/'' of Some n \<Rightarrow> n | None \<Rightarrow> ir_repository r)
      else ir_registry r @ ''/'' @ ir_repository r)"

definition pinned :: "image_ref \<Rightarrow> string \<Rightarrow> string" where
  "pinned r digest = ref_name r @ '':'' @ ir_tag r @ ''@'' @ digest"

definition ref_display :: "image_ref \<Rightarrow> string" where
  "ref_display r =
     ref_name r @ '':'' @ ir_tag r @ (case ir_digest r of Some d \<Rightarrow> ''@'' @ d | None \<Rightarrow> [])"


section \<open>Versions\<close>

record version =
  ve_major :: nat
  ve_minor :: "nat option"
  ve_patch :: "nat option"
  ve_suffix :: "string option"
  ve_raw :: string

abbreviation parse_u64 :: "string \<Rightarrow> nat option" where
  "parse_u64 \<equiv> parse_below (2 ^ 64)"

text \<open>A segment present and not a number refuses the tag; one that is missing does not.\<close>

fun segment :: "string list \<Rightarrow> (nat option \<times> string list) option" where
  "segment [] = Some (None, [])"
| "segment (p # ps) = map_option (\<lambda>n. (Some n, ps)) (parse_u64 p)"

definition version_parse :: "string \<Rightarrow> version option" where
  "version_parse tag =
     (let body = (case strip_prefix tag ''v'' of Some b \<Rightarrow> b | None \<Rightarrow> tag);
          (numbers, suffix) = (case split_once CHR ''-'' body of Some (n, s) \<Rightarrow> (n, Some s) | None \<Rightarrow> (body, None)) in
      case split_char CHR ''.'' numbers of
        [] \<Rightarrow> None
      | p # parts \<Rightarrow>
          Option.bind (parse_u64 p) (\<lambda>major.
            Option.bind (segment parts) (\<lambda>(minor, parts).
              Option.bind (segment parts) (\<lambda>(patch, parts).
                if parts \<noteq> [] then None
                else Some \<lparr>ve_major = major, ve_minor = minor, ve_patch = patch, ve_suffix = suffix, ve_raw = tag\<rparr>))))"

datatype ordering = Less | Equal | Greater

definition cmp_nat :: "nat \<Rightarrow> nat \<Rightarrow> ordering" where
  "cmp_nat a b = (if a < b then Less else if a = b then Equal else Greater)"

definition then_cmp :: "ordering \<Rightarrow> ordering \<Rightarrow> ordering" where
  "then_cmp a b = (if a = Equal then b else a)"

definition or_zero :: "nat option \<Rightarrow> nat" where
  "or_zero n = (case n of Some k \<Rightarrow> k | None \<Rightarrow> 0)"

definition cmp_numeric :: "version \<Rightarrow> version \<Rightarrow> ordering" where
  "cmp_numeric a b =
     then_cmp (cmp_nat (ve_major a) (ve_major b))
       (then_cmp (cmp_nat (or_zero (ve_minor a)) (or_zero (ve_minor b)))
         (cmp_nat (or_zero (ve_patch a)) (or_zero (ve_patch b))))"

definition is_newer_than :: "version \<Rightarrow> version \<Rightarrow> bool" where
  "is_newer_than a b \<longleftrightarrow> cmp_numeric a b = Greater"

definition same_flavor :: "version \<Rightarrow> version \<Rightarrow> bool" where
  "same_flavor a b \<longleftrightarrow>
     ve_suffix a = ve_suffix b \<and> starts_with (ve_raw a) ''v'' = starts_with (ve_raw b) ''v''"

definition precision :: "version \<Rightarrow> nat" where
  "precision v = 1 + (if ve_minor v \<noteq> None then 1 else 0) + (if ve_patch v \<noteq> None then 1 else 0)"

definition version_allows :: "version \<Rightarrow> version \<Rightarrow> update_channel \<Rightarrow> bool" where
  "version_allows v c channel \<longleftrightarrow>
     (if \<not> same_flavor v c then False
      else if precision v \<noteq> precision c then False
      else if cmp_numeric c v \<noteq> Greater then False
      else case channel of
        Pin \<Rightarrow> False
      | Latest \<Rightarrow> False
      | Patch \<Rightarrow> ve_major c = ve_major v \<and> ve_minor c = ve_minor v
      | Minor \<Rightarrow> ve_major c = ve_major v)"

definition upgrade_step :: "version \<Rightarrow> update_channel \<Rightarrow> version option \<Rightarrow> string \<Rightarrow> version option" where
  "upgrade_step current channel best t =
     (case version_parse t of
        None \<Rightarrow> best
      | Some v \<Rightarrow>
          if \<not> version_allows current v channel then best
          else (case best of
                  None \<Rightarrow> Some v
                | Some b \<Rightarrow> if cmp_numeric v b = Greater then Some v else best))"

definition best_upgrade :: "string \<Rightarrow> string list \<Rightarrow> update_channel \<Rightarrow> string option" where
  "best_upgrade current_tag tags channel =
     Option.bind (version_parse current_tag) (\<lambda>current.
       map_option ve_raw (foldl (upgrade_step current channel) None tags))"


section \<open>The newest of several\<close>

text \<open>What a loop that keeps the first of the newest computes, for any strict order with ties.\<close>

definition keep_newest :: "('a \<Rightarrow> 'a \<Rightarrow> bool) \<Rightarrow> 'a option \<Rightarrow> 'a \<Rightarrow> 'a option" where
  "keep_newest newer best v = (case best of None \<Rightarrow> Some v | Some b \<Rightarrow> if newer v b then Some v else best)"

locale newest =
  fixes newer :: "'a \<Rightarrow> 'a \<Rightarrow> bool"
  assumes not_newer_self: "\<not> newer a a"
    and not_newer_trans: "\<not> newer a b \<Longrightarrow> \<not> newer b c \<Longrightarrow> \<not> newer a c"
    and newer_asym: "newer a b \<Longrightarrow> \<not> newer b a"
begin

lemma kept_from:
  assumes "foldl (keep_newest newer) (Some b) xs = Some m"
  shows "m \<in> insert b (set xs) \<and> \<not> newer b m \<and> (\<forall>x \<in> set xs. \<not> newer x m)"
  using assms
proof (induction xs arbitrary: b)
  case Nil
  then show ?case by (simp add: not_newer_self)
next
  case (Cons x xs)
  show ?case
  proof (cases "newer x b")
    case True
    then have m: "m \<in> insert x (set xs) \<and> \<not> newer x m \<and> (\<forall>y \<in> set xs. \<not> newer y m)"
      using Cons by (simp add: keep_newest_def)
    then show ?thesis using newer_asym [OF True] not_newer_trans by auto
  next
    case False
    then have m: "m \<in> insert b (set xs) \<and> \<not> newer b m \<and> (\<forall>y \<in> set xs. \<not> newer y m)"
      using Cons by (simp add: keep_newest_def)
    then show ?thesis using False not_newer_trans by auto
  qed
qed

lemma kept_Some: "\<exists>m. foldl (keep_newest newer) (Some b) xs = Some m"
  by (induction xs arbitrary: b) (auto simp: keep_newest_def)

lemma kept_newest:
  assumes "foldl (keep_newest newer) None xs = Some m"
  shows "m \<in> set xs" "x \<in> set xs \<Longrightarrow> \<not> newer x m"
proof -
  obtain y ys where "xs = y # ys" using assms by (cases xs) auto
  then have "m \<in> insert y (set ys) \<and> \<not> newer y m \<and> (\<forall>x \<in> set ys. \<not> newer x m)"
    using assms by (intro kept_from) (simp add: keep_newest_def)
  then show "m \<in> set xs" "x \<in> set xs \<Longrightarrow> \<not> newer x m" using \<open>xs = y # ys\<close> by auto
qed

lemma kept_None: "foldl (keep_newest newer) None xs = None \<longleftrightarrow> xs = []"
  using kept_Some by (cases xs) (auto simp: keep_newest_def)

end

text \<open>A version's three numbers, compared as a tuple.\<close>

definition version_key :: "version \<Rightarrow> nat \<times> nat \<times> nat" where
  "version_key v = (ve_major v, or_zero (ve_minor v), or_zero (ve_patch v))"

definition key_less :: "nat \<times> nat \<times> nat \<Rightarrow> nat \<times> nat \<times> nat \<Rightarrow> bool" where
  "key_less k l \<longleftrightarrow>
     (case (k, l) of ((a, b, c), (a', b', c')) \<Rightarrow> a < a' \<or> a = a' \<and> (b < b' \<or> b = b' \<and> c < c'))"

lemma is_newer_than_key: "is_newer_than a b \<longleftrightarrow> key_less (version_key b) (version_key a)"
  by (auto simp: is_newer_than_def cmp_numeric_def then_cmp_def cmp_nat_def key_less_def version_key_def)

lemma key_less_linear: "\<not> key_less k l \<and> \<not> key_less l k \<longleftrightarrow> k = l"
  by (auto simp: key_less_def split: prod.splits)

interpretation ver: newest is_newer_than
  by unfold_locales (auto simp: is_newer_than_key key_less_def split: prod.splits)

lemma version_parse_raw: "version_parse t = Some v \<Longrightarrow> ve_raw v = t"
  by (auto simp: version_parse_def Let_def bind_eq_Some_conv split: list.splits prod.splits if_splits)

text \<open>The versions that a loop over tags lets through.\<close>

definition offered :: "(version \<Rightarrow> bool) \<Rightarrow> string list \<Rightarrow> version list" where
  "offered P tags = filter P (List.map_filter version_parse tags)"

lemma offered_Nil [simp]: "offered P [] = []"
  by (simp add: offered_def List.map_filter_simps)

lemma offered_Cons:
  "offered P (t # ts) =
     (case version_parse t of None \<Rightarrow> offered P ts | Some v \<Rightarrow> if P v then v # offered P ts else offered P ts)"
  by (simp add: offered_def List.map_filter_simps split: option.split)

lemma in_offered: "v \<in> set (offered P tags) \<longleftrightarrow> P v \<and> version_parse (ve_raw v) = Some v \<and> ve_raw v \<in> set tags"
proof (induction tags)
  case (Cons t tags)
  show ?case
  proof (cases "version_parse t")
    case None
    then have "ve_raw v = t \<Longrightarrow> version_parse (ve_raw v) \<noteq> Some v" by simp
    then show ?thesis using None Cons by (auto simp: offered_Cons)
  next
    case (Some u)
    then have "ve_raw u = t" by (rule version_parse_raw)
    then show ?thesis using Some Cons by (auto simp: offered_Cons)
  qed
qed simp

lemma offered_empty: "offered P tags = [] \<longleftrightarrow> \<not> (\<exists>t v. t \<in> set tags \<and> version_parse t = Some v \<and> P v)"
  by (induction tags) (auto simp: offered_Cons split: option.split)

lemma upgrade_loop:
  "foldl (upgrade_step current channel) best tags =
     foldl (keep_newest is_newer_than) best (offered (\<lambda>v. version_allows current v channel) tags)"
  by (induction tags arbitrary: best)
    (auto simp: upgrade_step_def keep_newest_def offered_Cons is_newer_than_def split: option.splits)

lemma best_upgrade_Some:
  assumes "best_upgrade cur tags ch = Some t"
  shows "\<exists>c v. version_parse cur = Some c \<and> version_parse t = Some v \<and> t \<in> set tags \<and> version_allows c v ch \<and>
    (\<forall>t' v'. t' \<in> set tags \<longrightarrow> version_parse t' = Some v' \<longrightarrow> version_allows c v' ch \<longrightarrow> \<not> is_newer_than v' v)"
proof -
  obtain c v where c: "version_parse cur = Some c" and v: "ve_raw v = t"
    and loop: "foldl (keep_newest is_newer_than) None (offered (\<lambda>v. version_allows c v ch) tags) = Some v"
    using assms by (auto simp: best_upgrade_def bind_eq_Some_conv upgrade_loop)
  note m = ver.kept_newest [OF loop]
  have "version_parse t = Some v" "t \<in> set tags" "version_allows c v ch" using m(1) v by (auto simp: in_offered)
  moreover have "\<not> is_newer_than v' v" if "t' \<in> set tags" "version_parse t' = Some v'" "version_allows c v' ch" for t' v'
    using m(2) [of v'] that version_parse_raw [OF that(2)] by (simp add: in_offered)
  ultimately show ?thesis using c by blast
qed

lemma best_upgrade_None:
  "best_upgrade cur tags ch = None \<longleftrightarrow>
     (case version_parse cur of None \<Rightarrow> True | Some c \<Rightarrow> \<not> (\<exists>t v. t \<in> set tags \<and> version_parse t = Some v \<and> version_allows c v ch))"
proof (cases "version_parse cur")
  case (Some c)
  then show ?thesis by (simp add: best_upgrade_def upgrade_loop ver.kept_None offered_empty)
qed (simp add: best_upgrade_def)

end
