(* ===== verification/Window.thy ===== *)
theory Window
  imports Registry
begin

text \<open>
  Maintenance windows (\<open>crates/hlb-updater/src/window.rs\<close>). A time of day is its minute, a day of
  the week one of seven; how a text such as \<open>03:00\<close> is read belongs to the time library and is
  an argument. A window that crosses midnight is shown to be the same stretch of the week as one
  that does not.
\<close>

section \<open>Windows\<close>

datatype weekday = Mon | Tue | Wed | Thu | Fri | Sat | Sun

fun weekday_index :: "weekday \<Rightarrow> nat" where
  "weekday_index Mon = 0"
| "weekday_index Tue = 1"
| "weekday_index Wed = 2"
| "weekday_index Thu = 3"
| "weekday_index Fri = 4"
| "weekday_index Sat = 5"
| "weekday_index Sun = 6"

fun weekday_pred :: "weekday \<Rightarrow> weekday" where
  "weekday_pred Mon = Sun"
| "weekday_pred Tue = Mon"
| "weekday_pred Wed = Tue"
| "weekday_pred Thu = Wed"
| "weekday_pred Fri = Thu"
| "weekday_pred Sat = Fri"
| "weekday_pred Sun = Sat"

datatype window_error =
    WindowShape string
  | WindowDay string string
  | WindowTime string string

record maintenance_window =
  mw_days :: "weekday list"
  mw_start :: nat
  mw_end :: nat

text \<open>How the library reads \<open>HH:MM\<close>: hours and minutes, or a refusal.\<close>

type_synonym read_time = "string \<Rightarrow> (nat \<times> nat) option"

definition parse_time :: "read_time \<Rightarrow> string \<Rightarrow> string \<Rightarrow> window_error + nat" where
  "parse_time rd s input =
     (case rd s of Some (h, m) \<Rightarrow> Inr (h * 60 + m) | None \<Rightarrow> Inl (WindowTime input s))"

text \<open>
  \<open>to_lowercase\<close> and the comparison with names of ASCII letters: outside ASCII only the Kelvin sign
  is lowered to one, a \<open>k\<close>, which none of the names has.
\<close>

definition parse_day :: "string \<Rightarrow> string \<Rightarrow> window_error + weekday" where
  "parse_day s input =
     (let l = map to_ascii_lowercase s in
      if l = ''mon'' \<or> l = ''lun'' then Inr Mon
      else if l = ''tue'' \<or> l = ''mar'' then Inr Tue
      else if l = ''wed'' \<or> l = ''mer'' then Inr Wed
      else if l = ''thu'' \<or> l = ''jeu'' then Inr Thu
      else if l = ''fri'' \<or> l = ''ven'' then Inr Fri
      else if l = ''sat'' \<or> l = ''sam'' then Inr Sat
      else if l = ''sun'' \<or> l = ''dim'' then Inr Sun
      else Inl (WindowDay input s))"

definition window_parse :: "read_time \<Rightarrow> string \<Rightarrow> window_error + maintenance_window" where
  "window_parse rd text =
     (let s = trim text in
      case rsplit_once CHR '' '' s of
        None \<Rightarrow> Inl (WindowShape s)
      | Some (days_part, hours) \<Rightarrow>
          (case split_once CHR ''-'' hours of
             None \<Rightarrow> Inl (WindowShape s)
           | Some (from, to) \<Rightarrow>
               and_then (parse_time rd (trim from) s) (\<lambda>start.
                 and_then (parse_time rd (trim to) s) (\<lambda>stop.
                   and_then
                     (let days_part = trim days_part in
                      if days_part = ''daily'' \<or> days_part = ''*'' \<or> days_part = ''every'' then Inr []
                      else collect_results (\<lambda>d. parse_day (trim d) s) (split_char CHR '','' days_part))
                     (\<lambda>days. Inr \<lparr>mw_days = days, mw_start = start, mw_end = stop\<rparr>)))))"

definition wraps_midnight :: "maintenance_window \<Rightarrow> bool" where
  "wraps_midnight w \<longleftrightarrow> mw_end w \<le> mw_start w"

definition day_matches :: "maintenance_window \<Rightarrow> weekday \<Rightarrow> bool" where
  "day_matches w d \<longleftrightarrow> mw_days w = [] \<or> d \<in> set (mw_days w)"

text \<open>What the clock says: a day, an hour and a minute.\<close>

record clock =
  ck_day :: weekday
  ck_hour :: nat
  ck_minute :: nat

definition is_open_at :: "maintenance_window \<Rightarrow> clock \<Rightarrow> bool" where
  "is_open_at w now =
     (let t = (if ck_hour now < 24 \<and> ck_minute now < 60 then ck_hour now * 60 + ck_minute now else 0);
          today = ck_day now in
      if \<not> wraps_midnight w then day_matches w today \<and> mw_start w \<le> t \<and> t < mw_end w
      else if day_matches w today \<and> mw_start w \<le> t then True
      else day_matches w (weekday_pred today) \<and> t < mw_end w)"


section \<open>As stretches of the week\<close>

text \<open>
  The reference: minutes of the week. A window opens at its start on each of its days and stays
  open for its length, which is a day when it ends where it starts.
\<close>

definition window_length :: "maintenance_window \<Rightarrow> nat" where
  "window_length w = (if mw_start w < mw_end w then mw_end w - mw_start w else mw_end w + 1440 - mw_start w)"

definition week_minute :: "weekday \<Rightarrow> nat \<Rightarrow> int" where
  "week_minute d t = int (weekday_index d * 1440 + t)"

definition open_in_week :: "maintenance_window \<Rightarrow> clock \<Rightarrow> bool" where
  "open_in_week w now \<longleftrightarrow>
     (\<exists>d. day_matches w d \<and>
        (week_minute (ck_day now) (ck_hour now * 60 + ck_minute now) - week_minute d (mw_start w)) mod 10080
          < int (window_length w))"

definition clock_ok :: "clock \<Rightarrow> bool" where
  "clock_ok now \<longleftrightarrow> ck_hour now < 24 \<and> ck_minute now < 60"

definition window_ok :: "maintenance_window \<Rightarrow> bool" where
  "window_ok w \<longleftrightarrow> mw_start w < 1440 \<and> mw_end w < 1440"

definition days_since :: "weekday \<Rightarrow> weekday \<Rightarrow> int" where
  "days_since d e = (int (weekday_index e) - int (weekday_index d)) mod 7"

lemma days_since_simps: "days_since d e = 0 \<longleftrightarrow> d = e" "days_since d e = 1 \<longleftrightarrow> d = weekday_pred e"
  by (cases d; cases e; simp add: days_since_def)+

lemma gap_of_days:
  fixes m t s len :: int
  assumes "0 \<le> m" "m < 7" "0 \<le> t" "t < 1440" "0 \<le> s" "s < 1440" "len \<le> 1440"
  shows "(m * 1440 + (t - s)) mod 10080 < len \<longleftrightarrow> (m = 0 \<and> s \<le> t \<and> t < s + len) \<or> (m = 1 \<and> t + 1440 < s + len)"
proof (cases "m = 0 \<and> t < s")
  case True
  then have "(m * 1440 + (t - s)) mod 10080 = (t - s + 10080) mod 10080" by simp
  also have "\<dots> = t - s + 10080" using True assms by (intro mod_pos_pos_trivial) linarith+
  finally show ?thesis using True assms by simp
next
  case False
  then have "0 \<le> m * 1440 + (t - s)" "m * 1440 + (t - s) < 10080" using assms by (cases "m = 0"; linarith)+
  then have "(m * 1440 + (t - s)) mod 10080 = m * 1440 + (t - s)" by (rule mod_pos_pos_trivial)
  moreover have "m = 0 \<or> m = 1 \<or> 2 \<le> m" using assms(1) by linarith
  ultimately show ?thesis using False assms by auto
qed

lemma whole_weeks: "k * 1440 + y = (k mod 7 * 1440 + y) + 10080 * (k div 7)" for k y :: int
proof -
  obtain q r where qr: "q = k div 7" "r = k mod 7" by simp
  then have "k = 7 * q + r" by simp
  then have "k * 1440 + y = (r * 1440 + y) + 10080 * q" by (simp only: algebra_simps)
  then show ?thesis using qr by simp
qed

lemma week_gap:
  fixes t s :: nat
  assumes "t < 1440" "s < 1440" "len \<le> 1440"
  shows "(week_minute e t - week_minute d s) mod 10080 < int len \<longleftrightarrow>
     (d = e \<and> s \<le> t \<and> t < s + len) \<or> (d = weekday_pred e \<and> t + 1440 < s + len)"
proof -
  let ?k = "int (weekday_index e) - int (weekday_index d)"
  have "week_minute e t - week_minute d s = ?k * 1440 + (int t - int s)" by (simp add: week_minute_def algebra_simps)
  also have "\<dots> = (days_since d e * 1440 + (int t - int s)) + 10080 * (?k div 7)"
    unfolding days_since_def by (rule whole_weeks)
  finally have "(week_minute e t - week_minute d s) mod 10080 = (days_since d e * 1440 + (int t - int s)) mod 10080"
    by (simp only: mod_mult_self2)
  moreover have "0 \<le> days_since d e" "days_since d e < 7" by (simp_all add: days_since_def)
  ultimately show ?thesis
    using gap_of_days [of "days_since d e" "int t" "int s" "int len"] assms days_since_simps [of d e] by auto
qed

lemma window_open_iff:
  assumes "clock_ok now" "window_ok w"
  shows "is_open_at w now \<longleftrightarrow> open_in_week w now"
proof -
  let ?t = "ck_hour now * 60 + ck_minute now"
  have t: "?t < 1440" using assms(1) unfolding clock_ok_def by linarith
  have s: "mw_start w < 1440" "mw_end w < 1440" "window_length w \<le> 1440"
    using assms(2) by (auto simp: window_ok_def window_length_def)
  have "open_in_week w now \<longleftrightarrow>
      (\<exists>d. day_matches w d \<and> ((d = ck_day now \<and> mw_start w \<le> ?t \<and> ?t < mw_start w + window_length w) \<or>
        (d = weekday_pred (ck_day now) \<and> ?t + 1440 < mw_start w + window_length w)))"
    unfolding open_in_week_def by (simp only: week_gap [OF t s(1,3)])
  also have "\<dots> \<longleftrightarrow> day_matches w (ck_day now) \<and> mw_start w \<le> ?t \<and> ?t < mw_start w + window_length w \<or>
      day_matches w (weekday_pred (ck_day now)) \<and> ?t + 1440 < mw_start w + window_length w"
    by blast
  also have "\<dots> \<longleftrightarrow> is_open_at w now"
  proof (cases "wraps_midnight w")
    case True
    then have "mw_start w + window_length w = mw_end w + 1440"
      using s by (simp add: wraps_midnight_def window_length_def)
    then show ?thesis using True t assms(1) by (auto simp: is_open_at_def Let_def clock_ok_def)
  next
    case False
    then have "mw_start w + window_length w = mw_end w" by (simp add: wraps_midnight_def window_length_def)
    then show ?thesis using False s assms(1) by (auto simp: is_open_at_def Let_def clock_ok_def)
  qed
  finally show ?thesis by blast
qed

text \<open>
  C30: A maintenance window is open exactly on the minutes of the week it says: from its start on
  each of its days, for its length, past midnight and from Sunday to Monday included.
\<close>

theorem window_is_its_stretch:
  assumes "clock_ok now" "window_ok w"
  shows "is_open_at w now \<longleftrightarrow> open_in_week w now"
  using assms by (rule window_open_iff)

theorem window_is_its_stretch_witness:
  "open_in_week \<lparr>mw_days = [Sun], mw_start = 1380, mw_end = 120\<rparr> \<lparr>ck_day = Mon, ck_hour = 1, ck_minute = 30\<rparr>"
  using window_is_its_stretch [of "\<lparr>ck_day = Mon, ck_hour = 1, ck_minute = 30\<rparr>" "\<lparr>mw_days = [Sun], mw_start = 1380, mw_end = 120\<rparr>"]
  by (simp add: clock_ok_def window_ok_def is_open_at_def wraps_midnight_def day_matches_def)

end
