(* ===== verification/Updater.thy ===== *)
theory Updater
  imports Window Cluster
begin

text \<open>
  The update pipeline (\<open>crates/hlb-updater/src/lib.rs\<close>): what each app could move to, whether it is
  mature, in its window and owed a copy first, and whether it may be applied. The registries are
  an argument, as are the dates a time library prints and the copies the state says an app keeps.
  The apps installed are a table by name.
\<close>

section \<open>Maturity\<close>

datatype maturity = Mature | Young int | Undated

definition maturity_of :: "int option \<Rightarrow> u32 \<Rightarrow> int \<Rightarrow> maturity" where
  "maturity_of published days now =
     (case published of
        None \<Rightarrow> Undated
      | Some at \<Rightarrow>
          (let ready_at = wrap_i64 (at + int (unat days) * 86400) in
           if ready_at \<le> now then Mature else Young ready_at))"

definition is_mature :: "maturity \<Rightarrow> bool" where
  "is_mature m \<longleftrightarrow> m = Mature"

fun or_younger :: "maturity \<Rightarrow> maturity \<Rightarrow> maturity" where
  "or_younger Undated _ = Undated"
| "or_younger _ Undated = Undated"
| "or_younger (Young a) (Young b) = Young (max a b)"
| "or_younger (Young a) Mature = Young a"
| "or_younger Mature (Young b) = Young b"
| "or_younger Mature Mature = Mature"

text \<open>How the time library prints an instant, and nothing for one it cannot represent.\<close>

type_synonym show_utc = "int \<Rightarrow> string"

definition days_left :: "int \<Rightarrow> int \<Rightarrow> string" where
  "days_left ready_at now =
     (let n = max (wrap_i64 (ready_at - now)) 0 div 86400 in
      if n = 0 then ''within a day'' else if n = 1 then ''in 1 day'' else ''in '' @ show_nat (nat n) @ '' days'')"

definition maturity_refusal :: "show_utc \<Rightarrow> maturity \<Rightarrow> int \<Rightarrow> string option" where
  "maturity_refusal utc m now =
     (case m of
        Mature \<Rightarrow> None
      | Young ready_at \<Rightarrow>
          Some (''published too recently - mature on '' @ utc ready_at @ '', '' @ days_left ready_at now)
      | Undated \<Rightarrow> Some ''the image does not say when it was built'')"


section \<open>Candidates\<close>

datatype update_error =
    ScanFailed string
  | StateFailed string
  | RegistryFailed string
  | WindowFailed window_error
  | OrchestratorFailed string
  | BackupRequired string
  | Immature string string

datatype update_kind =
    DigestOnly
  | NewVersion string
  | CatalogMove string string
  | CompanionsOnly

record companion_move =
  cm_name :: string
  cm_service :: string
  cm_to :: image
  cm_maturity :: maturity

record update_candidate =
  ca_app :: string
  ca_kind :: update_kind
  ca_from_tag :: string
  ca_from_digest :: "string option"
  ca_to_digest :: string
  ca_in_window :: bool
  ca_needs_backup :: bool
  ca_maturity :: maturity
  ca_companions :: "companion_move list"

definition target_of :: "update_kind \<Rightarrow> image \<Rightarrow> string \<times> string" where
  "target_of kind installed =
     (case kind of
        NewVersion to_tag \<Rightarrow> (img_repo installed, to_tag)
      | CatalogMove repo tag \<Rightarrow> (repo, tag)
      | DigestOnly \<Rightarrow> (img_repo installed, img_tag installed)
      | CompanionsOnly \<Rightarrow> (img_repo installed, img_tag installed))"

definition signer_of :: "string \<Rightarrow> image \<Rightarrow> image option \<Rightarrow> image_signer option" where
  "signer_of repo installed catalog =
     (let own = (if img_repo installed = repo then img_signed_by installed else None) in
      case catalog of
        Some c \<Rightarrow> if img_repo c = repo then img_signed_by c else own
      | None \<Rightarrow> own)"

definition to_verify :: "update_candidate \<Rightarrow> image \<Rightarrow> image option \<Rightarrow> (string \<times> image_signer option) list" where
  "to_verify c installed catalog =
     (case target_of (ca_kind c) installed of (repo, tag) \<Rightarrow>
        (if ca_kind c \<noteq> CompanionsOnly
         then [(repo @ '':'' @ tag @ ''@'' @ ca_to_digest c, signer_of repo installed catalog)] else []) @
        map (\<lambda>m. (image_reference (cm_to m), img_signed_by (cm_to m))) (ca_companions c))"

definition candidate_describe :: "update_candidate \<Rightarrow> string" where
  "candidate_describe c =
     (let own = (case ca_kind c of
                   DigestOnly \<Rightarrow> ca_app c @ '': '' @ ca_from_tag c @ '' republished''
                 | NewVersion to_tag \<Rightarrow> ca_app c @ '' : '' @ ca_from_tag c @ '' '' @ right_arrow @ '' '' @ to_tag
                 | CatalogMove repo tag \<Rightarrow>
                     ca_app c @ '': '' @ ca_from_tag c @ '' '' @ right_arrow @ '' '' @ repo @ '':'' @ tag @ '', from the catalog''
                 | CompanionsOnly \<Rightarrow> ca_app c @ '': its companions, from the catalog'');
          moves = map (\<lambda>m. cm_name m @ '' '' @ right_arrow @ '' '' @ img_tag (cm_to m)) (ca_companions c) in
      if moves = [] then own else own @ '' ('' @ join_with '', '' moves @ '')'')"

definition catalog_move :: "image \<Rightarrow> image option \<Rightarrow> image option" where
  "catalog_move installed catalog =
     (case catalog of
        None \<Rightarrow> None
      | Some c \<Rightarrow>
          (let same_build = (img_digest c \<noteq> None \<and> img_digest c = img_digest installed) in
           if same_build \<or> (img_repo c = img_repo installed \<and> img_tag c = img_tag installed) then None
           else if img_repo c = img_repo installed
           then (case (version_parse (img_tag installed), version_parse (img_tag c)) of
                   (Some from, Some to) \<Rightarrow>
                     if same_flavor from to \<and> \<not> is_newer_than to from then None else Some c
                 | _ \<Rightarrow> Some c)
           else Some c))"

fun own_storage :: "capability \<Rightarrow> string option" where
  "own_storage (Storage name _ _ _ _ _ None) = Some name"
| "own_storage _ = None"

definition own_volumes :: "manifest \<Rightarrow> string list" where
  "own_volumes m = sort (List.map_filter own_storage (requires_of m))"

definition held_move :: "manifest \<Rightarrow> manifest \<Rightarrow> string option" where
  "held_move installed catalog =
     (case catalog_move (sp_image (mf_spec installed)) (Some (sp_image (mf_spec catalog))) of
        None \<Rightarrow> None
      | Some _ \<Rightarrow>
          (let before = own_volumes installed; after = own_volumes catalog in
           if before = after then None
           else Some (''the catalog moves it to '' @ img_repo (sp_image (mf_spec catalog)) @ '':'' @
                      img_tag (sp_image (mf_spec catalog)) @ '' with volumes of its own ('' @
                      join_with '', '' before @ '' '' @ right_arrow @ '' '' @ join_with '', '' after @
                      ''): its image waits for `hlb upgrade '' @ app_name catalog @ ''`'')))"


section \<open>Reading the registries\<close>

record registry =
  rg_list_tags :: "image_ref \<Rightarrow> string + string list"
  rg_resolve_digest :: "image_ref \<Rightarrow> string + string"
  rg_created :: "image_ref \<Rightarrow> string + int option"

definition reg :: "string + 'a \<Rightarrow> update_error + 'a" where
  "reg r = (case r of Inl e \<Rightarrow> Inl (RegistryFailed e) | Inr a \<Rightarrow> Inr a)"

definition older_than_running :: "registry \<Rightarrow> image \<Rightarrow> int option \<Rightarrow> bool" where
  "older_than_running rg running published =
     (case (published, img_digest running) of
        (Some to, Some _) \<Rightarrow>
          (case rg_created rg (ref_parse (image_reference running)) of
             Inr (Some from) \<Rightarrow> to < from
           | _ \<Rightarrow> False)
      | _ \<Rightarrow> False)"

fun companion_moves_from ::
  "registry \<Rightarrow> string \<Rightarrow> companion list \<Rightarrow> u32 \<Rightarrow> int \<Rightarrow> companion list \<Rightarrow> update_error + companion_move list" where
  "companion_moves_from rg app theirs days at [] = Inr []"
| "companion_moves_from rg app theirs days at (installed # rest) =
     (case find (\<lambda>c. co_name c = co_name installed) theirs of
        None \<Rightarrow> companion_moves_from rg app theirs days at rest
      | Some c \<Rightarrow>
          (case catalog_move (co_image installed) (Some (co_image c)) of
             None \<Rightarrow> companion_moves_from rg app theirs days at rest
           | Some to \<Rightarrow>
               and_then (case img_digest to of
                           Some d \<Rightarrow> Inr d
                         | None \<Rightarrow> reg (rg_resolve_digest rg (ref_parse (image_reference to)))) (\<lambda>digest.
                 let to = to\<lparr>img_digest := Some digest\<rparr> in
                 and_then (reg (rg_created rg (ref_parse (image_reference to)))) (\<lambda>published.
                   if older_than_running rg (co_image installed) published
                   then companion_moves_from rg app theirs days at rest
                   else and_then (companion_moves_from rg app theirs days at rest) (\<lambda>moves.
                     Inr (\<lparr>cm_name = co_name installed, cm_service = companion_service installed app, cm_to = to,
                           cm_maturity = maturity_of published days at\<rparr> # moves))))))"

definition companion_moves ::
  "registry \<Rightarrow> string \<Rightarrow> manifest \<Rightarrow> manifest option \<Rightarrow> u32 \<Rightarrow> int \<Rightarrow> update_error + companion_move list" where
  "companion_moves rg app m catalog days at =
     (case catalog of
        None \<Rightarrow> Inr []
      | Some c \<Rightarrow> companion_moves_from rg app (sp_companions (mf_spec c)) days at (sp_companions (mf_spec m)))"

text \<open>What the image would become, and where it is read.\<close>

definition app_target :: "registry \<Rightarrow> manifest \<Rightarrow> image option \<Rightarrow> update_error + (update_kind \<times> image_ref)" where
  "app_target rg m catalog =
     (let img = sp_image (mf_spec m); channel = up_channel (sp_update (mf_spec m));
          image = ref_parse (img_repo img @ '':'' @ img_tag img) in
      case catalog_move img catalog of
        Some c \<Rightarrow> Inr (CatalogMove (img_repo c) (img_tag c), ref_parse (image_reference c))
      | None \<Rightarrow>
          and_then (if channel = Pin then Inr None
                    else and_then (reg (rg_list_tags rg image)) (\<lambda>tags. Inr (best_upgrade (img_tag img) tags channel)))
            (\<lambda>tag. case tag of
               Some t \<Rightarrow> Inr (NewVersion t, ref_parse (img_repo img @ '':'' @ t))
             | None \<Rightarrow> Inr (DigestOnly, image)))"

fun is_catalog :: "update_kind \<Rightarrow> bool" where
  "is_catalog (CatalogMove _ _) = True"
| "is_catalog _ = False"

definition app_move ::
  "registry \<Rightarrow> int \<Rightarrow> manifest \<Rightarrow> image option \<Rightarrow> update_error + (update_kind \<times> string \<times> maturity) option" where
  "app_move rg at m catalog =
     and_then (app_target rg m catalog) (\<lambda>(kind, target).
       and_then (case ir_digest target of Some d \<Rightarrow> Inr d | None \<Rightarrow> reg (rg_resolve_digest rg target)) (\<lambda>to_digest.
         if kind = DigestOnly \<and> img_digest (sp_image (mf_spec m)) = Some to_digest then Inr None
         else and_then (reg (rg_created rg (target\<lparr>ir_digest := Some to_digest\<rparr>))) (\<lambda>published.
           if is_catalog kind \<and> older_than_running rg (sp_image (mf_spec m)) published then Inr None
           else Inr (Some (kind, to_digest, maturity_of published (up_maturation_days (sp_update (mf_spec m))) at)))))"


section \<open>The state\<close>

datatype action_status = ActPending | ActDone | ActFailed | ActUnimplemented

record app_row =
  ar_manifest :: manifest
  ar_domain :: "string option"
  ar_status :: string
  ar_journal :: "action_status list"

type_synonym app_table = "(string, app_row) btree_map"

definition installed_apps :: "app_table \<Rightarrow> (string \<times> string) list" where
  "installed_apps t = map (\<lambda>(name, row). (name, ar_status row)) t"

definition app_manifest :: "app_table \<Rightarrow> string \<Rightarrow> update_error + manifest" where
  "app_manifest t name =
     (case bt_get t name of
        None \<Rightarrow> Inl (StateFailed (''unknown app '' @ [CHR 0x22] @ name @ [CHR 0x22]))
      | Some row \<Rightarrow> Inr (ar_manifest row))"

definition app_domain :: "app_table \<Rightarrow> string \<Rightarrow> string option" where
  "app_domain t name = (case bt_get t name of Some row \<Rightarrow> ar_domain row | None \<Rightarrow> None)"

definition upsert_app :: "string \<Rightarrow> manifest \<Rightarrow> string option \<Rightarrow> app_table \<Rightarrow> app_table" where
  "upsert_app name m domain t =
     bt_insert name
       (case bt_get t name of
          Some row \<Rightarrow> row\<lparr>ar_manifest := m, ar_domain := domain\<rparr>
        | None \<Rightarrow> \<lparr>ar_manifest = m, ar_domain = domain, ar_status = ''installing'', ar_journal = []\<rparr>) t"

definition set_app_status :: "string \<Rightarrow> string \<Rightarrow> app_table \<Rightarrow> app_table" where
  "set_app_status name status t =
     (case bt_get t name of Some row \<Rightarrow> bt_insert name (row\<lparr>ar_status := status\<rparr>) t | None \<Rightarrow> t)"

text \<open>What an app keeps that a copy is taken of: \<open>backup_kinds\<close> reads the volumes recorded.\<close>

type_synonym backup_kinds = "string \<Rightarrow> string + string list"

definition owes_backup :: "backup_kinds \<Rightarrow> string \<Rightarrow> manifest \<Rightarrow> update_error + bool" where
  "owes_backup kinds app m =
     (if \<not> up_backup_before (sp_update (mf_spec m)) then Inr False
      else case kinds app of Inl e \<Rightarrow> Inl (StateFailed e) | Inr ks \<Rightarrow> Inr (ks \<noteq> []))"

definition in_window :: "read_time \<Rightarrow> clock \<Rightarrow> manifest \<Rightarrow> update_error + bool" where
  "in_window rd now m =
     (case up_window (sp_update (mf_spec m)) of
        None \<Rightarrow> Inr True
      | Some w \<Rightarrow> (case window_parse rd w of Inl e \<Rightarrow> Inl (WindowFailed e) | Inr win \<Rightarrow> Inr (is_open_at win now)))"

record surrounds =
  sr_registry :: registry
  sr_read_time :: read_time
  sr_kinds :: backup_kinds
  sr_now :: clock
  sr_at :: int

definition own_or_companions ::
  "manifest \<Rightarrow> (update_kind \<times> string \<times> maturity) option \<Rightarrow> companion_move list \<Rightarrow> (update_kind \<times> string \<times> maturity) option" where
  "own_or_companions m own companions =
     (case own of
        Some o1 \<Rightarrow> Some o1
      | None \<Rightarrow>
          if companions = [] then None
          else Some (CompanionsOnly, (case img_digest (sp_image (mf_spec m)) of Some d \<Rightarrow> d | None \<Rightarrow> []), Mature))"

definition candidate_of ::
  "surrounds \<Rightarrow> string \<Rightarrow> manifest \<Rightarrow> manifest option \<Rightarrow> update_error + update_candidate option" where
  "candidate_of sr app m catalog =
     and_then (companion_moves (sr_registry sr) app m catalog (up_maturation_days (sp_update (mf_spec m))) (sr_at sr)) (\<lambda>companions.
       and_then (app_move (sr_registry sr) (sr_at sr) m (map_option (\<lambda>c. sp_image (mf_spec c)) catalog)) (\<lambda>own.
         case own_or_companions m own companions of
           None \<Rightarrow> Inr None
         | Some (kind, to_digest, maturity) \<Rightarrow>
             and_then (in_window (sr_read_time sr) (sr_now sr) m) (\<lambda>open_now.
               and_then (owes_backup (sr_kinds sr) app m) (\<lambda>owes.
                 Inr (Some
                   \<lparr>ca_app = app, ca_kind = kind, ca_from_tag = img_tag (sp_image (mf_spec m)),
                    ca_from_digest = img_digest (sp_image (mf_spec m)), ca_to_digest = to_digest,
                    ca_in_window = open_now, ca_needs_backup = owes,
                    ca_maturity = foldl (\<lambda>a c. or_younger a (cm_maturity c)) maturity companions,
                    ca_companions = companions\<rparr>)))))"

definition window_error_text :: "window_error \<Rightarrow> string" where
  "window_error_text e =
     (let q = (\<lambda>s. [CHR 0x22] @ s @ [CHR 0x22]) in
      case e of
        WindowShape s \<Rightarrow> ''window '' @ q s @ '': expected format '' @ q ''<days> HH:MM-HH:MM''
      | WindowDay input day \<Rightarrow> ''window '' @ q input @ '': unknown day '' @ q day
      | WindowTime input time \<Rightarrow> ''window '' @ q input @ '': invalid time '' @ q time)"

fun update_error_text :: "update_error \<Rightarrow> string" where
  "update_error_text (ScanFailed s) = ''parsing the image: '' @ s"
| "update_error_text (StateFailed s) = s"
| "update_error_text (RegistryFailed s) = s"
| "update_error_text (WindowFailed e) = window_error_text e"
| "update_error_text (OrchestratorFailed s) = s"
| "update_error_text (BackupRequired app) =
     [CHR 0x22] @ app @ [CHR 0x22] @ '' requires a backup before updating, but no backup provider is configured - update refused''"
| "update_error_text (Immature app why) = [CHR 0x22] @ app @ [CHR 0x22] @ '': '' @ why @ '' - update refused''"

record checked =
  ck_candidates :: "update_candidate list"
  ck_unreadable :: "(string \<times> string) list"
  ck_held :: "(string \<times> string) list"

definition check_app ::
  "surrounds \<Rightarrow> (string, manifest) btree_map \<Rightarrow> app_table \<Rightarrow> string \<times> string \<Rightarrow> checked \<Rightarrow> update_error + checked" where
  "check_app sr catalog t a out =
     (case a of (app, status) \<Rightarrow>
        if status \<noteq> ''running'' \<and> status \<noteq> ''partial'' then Inr out
        else and_then (app_manifest t app) (\<lambda>m.
          let theirs = bt_get catalog app;
              (out, theirs) = (case Option.bind theirs (held_move m) of
                                 Some why \<Rightarrow> (out\<lparr>ck_held := ck_held out @ [(app, why)]\<rparr>, None)
                               | None \<Rightarrow> (out, theirs)) in
          case candidate_of sr app m theirs of
            Inr (Some c) \<Rightarrow> Inr (out\<lparr>ck_candidates := ck_candidates out @ [c]\<rparr>)
          | Inr None \<Rightarrow> Inr out
          | Inl e \<Rightarrow> Inr (out\<lparr>ck_unreadable := ck_unreadable out @ [(app, update_error_text e)]\<rparr>)))"

definition check_updates ::
  "surrounds \<Rightarrow> (string, manifest) btree_map \<Rightarrow> app_table \<Rightarrow> update_error + checked" where
  "check_updates sr catalog t =
     try_fold (check_app sr catalog t) (installed_apps t) \<lparr>ck_candidates = [], ck_unreadable = [], ck_held = []\<rparr>"


section \<open>First sightings\<close>

definition proposed_digests :: "update_candidate \<Rightarrow> string list" where
  "proposed_digests c =
     filter (\<lambda>d. d \<noteq> [])
       ((if ca_kind c \<noteq> CompanionsOnly then [ca_to_digest c] else []) @
        List.map_filter (\<lambda>m. img_digest (cm_to m)) (ca_companions c))"

type_synonym sightings = "(string \<times> string, int \<times> int) btree_map"

definition note_update_seen :: "string \<Rightarrow> string \<Rightarrow> int \<Rightarrow> sightings \<Rightarrow> sightings" where
  "note_update_seen app digest at s =
     bt_insert (app, digest) (case bt_get s (app, digest) of Some (first, _) \<Rightarrow> (first, at) | None \<Rightarrow> (at, at)) s"

definition note_seen :: "checked \<Rightarrow> int \<Rightarrow> sightings \<Rightarrow> sightings" where
  "note_seen c at s =
     fold (\<lambda>cand. fold (\<lambda>d. note_update_seen (ca_app cand) d at) (proposed_digests cand)) (ck_candidates c) s"

text \<open>The daily look: what could move, and when each image was first seen.\<close>

definition watch_daily ::
  "surrounds \<Rightarrow> (string, manifest) btree_map \<Rightarrow> app_table \<Rightarrow> sightings \<Rightarrow> update_error + (checked \<times> sightings)" where
  "watch_daily sr catalog t s = and_then (check_updates sr catalog t) (\<lambda>c. Inr (c, note_seen c (sr_at sr) s))"


section \<open>Whether it may be applied\<close>

definition authorize :: "show_utc \<Rightarrow> update_candidate \<Rightarrow> bool \<Rightarrow> bool \<Rightarrow> bool \<Rightarrow> int \<Rightarrow> update_error + unit" where
  "authorize utc c has_backup force_window before_maturity now =
     (if ca_needs_backup c \<and> \<not> has_backup then Inl (BackupRequired (ca_app c))
      else case maturity_refusal utc (ca_maturity c) now of
        Some why \<Rightarrow> if \<not> before_maturity then Inl (Immature (ca_app c) why) else Inr ()
      | None \<Rightarrow> Inr ())"

end
