(* ===== verification/Update_Apply.thy ===== *)
theory Update_Apply
  imports Updater
begin

text \<open>
  Applying an update (\<open>crates/hlb-updater/src/apply.rs\<close>), what a check of an image says
  (\<open>scan.rs\<close>), and how the catalog itself is moved (\<open>catalog.rs\<close>). The orchestrator is an
  argument: its calls take its state and return it changed, and so does sleeping. The loop that
  watches a switch may run as long as the clock lets it, so that not returning is a value.
\<close>

section \<open>The orchestrator\<close>

datatype update_state =
    Updating | Paused | Completed | RollbackStarted | RollbackPaused | RollbackCompleted | UnknownState

record service_status =
  ss_name :: string
  ss_id :: string
  ss_desired_replicas :: nat
  ss_running_replicas :: nat
  ss_global :: bool
  ss_image :: string
  ss_update_state :: "update_state option"

definition is_converged :: "service_status \<Rightarrow> bool" where
  "is_converged s \<longleftrightarrow> ss_running_replicas s = ss_desired_replicas s"

definition finished :: "service_status \<Rightarrow> bool" where
  "finished s \<longleftrightarrow> ss_update_state s = None \<or> ss_update_state s = Some Completed"

definition rollout_concluded :: "service_status \<Rightarrow> task_info list \<Rightarrow> bool" where
  "rollout_concluded s tasks =
     (if \<not> finished s \<or> \<not> is_converged s then False
      else (let wanted = (case split_once CHR ''@'' (ss_image s) of Some (_, digest) \<Rightarrow> digest | None \<Rightarrow> ss_image s) in
            ss_desired_replicas s
              \<le> length (filter (\<lambda>t. tk_service t = ss_name s \<and> is_alive t \<and> str_contains (tk_image t) wanted) tasks)))"

definition replicas_text :: "service_status \<Rightarrow> string" where
  "replicas_text s =
     (if ss_global s then show_nat (ss_running_replicas s) @ '' global''
      else show_nat (ss_running_replicas s) @ ''/'' @ show_nat (ss_desired_replicas s))"

definition is_failure :: "update_state \<Rightarrow> bool" where
  "is_failure s \<longleftrightarrow> s \<in> {Paused, RollbackStarted, RollbackPaused, RollbackCompleted}"

record 'o orchestrator =
  or_update_image :: "string \<Rightarrow> string \<Rightarrow> 'o \<Rightarrow> (string + unit) \<times> 'o"
  or_status :: "string \<Rightarrow> 'o \<Rightarrow> (string + service_status) \<times> 'o"
  or_tasks :: "string \<Rightarrow> 'o \<Rightarrow> (string + task_info list) \<times> 'o"
  or_sleep :: "nat \<Rightarrow> 'o \<Rightarrow> 'o"
  or_clock :: "'o \<Rightarrow> nat"


section \<open>Watching a switch\<close>

datatype update_outcome =
    Applied string
  | RolledBack string
  | PausedThere
  | Inconclusive

fun is_applied :: "update_outcome \<Rightarrow> bool" where
  "is_applied (Applied _) = True"
| "is_applied _ = False"

definition on_target :: "string \<Rightarrow> task_info list \<Rightarrow> nat" where
  "on_target digest tasks = length (filter (\<lambda>t. is_alive t \<and> str_contains (tk_image t) digest) tasks)"

text \<open>One look: the outcome when there is one, nothing when it is to look again after a sleep.\<close>

definition watch_step ::
  "'o orchestrator \<Rightarrow> string \<Rightarrow> string \<Rightarrow> 'o \<Rightarrow> (update_error + update_outcome) option \<times> 'o" where
  "watch_step orch app digest o1 =
     (case or_status orch app o1 of
        (Inl e, o2) \<Rightarrow> (Some (Inl (OrchestratorFailed e)), o2)
      | (Inr st, o2) \<Rightarrow>
          (if ss_update_state st = Some RollbackCompleted
           then (Some (Inr (RolledBack ''the new tasks did not start'')), o2)
           else if ss_update_state st = Some RollbackStarted then (None, o2)
           else if ss_update_state st = Some Paused \<or> ss_update_state st = Some RollbackPaused
           then (Some (Inr PausedThere), o2)
           else if finished st \<and> is_converged st
           then (case or_tasks orch app o2 of
                   (Inl e, o3) \<Rightarrow> (Some (Inl (OrchestratorFailed e)), o3)
                 | (Inr tasks, o3) \<Rightarrow>
                     if ss_desired_replicas st \<le> on_target digest tasks then (Some (Inr (Applied digest)), o3)
                     else (None, o3))
           else (None, o2)))"

partial_function (option) watch_until ::
  "'o orchestrator \<Rightarrow> string \<Rightarrow> string \<Rightarrow> nat \<Rightarrow> 'o \<Rightarrow> ((update_error + update_outcome) \<times> 'o) option" where
  "watch_until orch app digest deadline o1 =
     (if or_clock orch o1 < deadline
      then (case watch_step orch app digest o1 of
              (Some r, o2) \<Rightarrow> Some (r, o2)
            | (None, o2) \<Rightarrow> watch_until orch app digest deadline (or_sleep orch 2 o2))
      else Some (Inr Inconclusive, o1))"

definition watch ::
  "'o orchestrator \<Rightarrow> string \<Rightarrow> string \<Rightarrow> nat \<Rightarrow> 'o \<Rightarrow> ((update_error + update_outcome) \<times> 'o) option" where
  "watch orch app digest timeout_secs o1 = watch_until orch app digest (or_clock orch o1 + timeout_secs) o1"


section \<open>Applying\<close>

definition switch ::
  "'o orchestrator \<Rightarrow> string \<Rightarrow> string \<Rightarrow> string \<Rightarrow> nat \<Rightarrow> 'o \<Rightarrow> ((update_error + update_outcome) \<times> 'o) option" where
  "switch orch service reference digest timeout_secs o1 =
     (case or_update_image orch service reference o1 of
        (Inl e, o2) \<Rightarrow> Some (Inl (OrchestratorFailed e), o2)
      | (Inr _, o2) \<Rightarrow> watch orch service digest timeout_secs o2)"

fun set_companion :: "string \<Rightarrow> image \<Rightarrow> companion list \<Rightarrow> companion list" where
  "set_companion name i [] = []"
| "set_companion name i (c # cs) =
     (if co_name c = name then c\<lparr>co_image := i\<rparr> # cs else c # set_companion name i cs)"

definition freeze_companion :: "string \<Rightarrow> companion_move \<Rightarrow> app_table \<Rightarrow> update_error + app_table" where
  "freeze_companion app c t =
     and_then (app_manifest t app) (\<lambda>m.
       let m' = m\<lparr>mf_spec := (mf_spec m)\<lparr>sp_companions := set_companion (cm_name c) (cm_to c) (sp_companions (mf_spec m))\<rparr>\<rparr> in
       Inr (upsert_app app m' (app_domain t app) t))"

text \<open>The companions in turn: nothing when all are switched, or what stopped the update.\<close>

fun apply_companions ::
  "'o orchestrator \<Rightarrow> string \<Rightarrow> nat \<Rightarrow> companion_move list \<Rightarrow> app_table \<Rightarrow> 'o \<Rightarrow>
   ((update_error + update_outcome option) \<times> app_table \<times> 'o) option" where
  "apply_companions orch app timeout_secs [] t o1 = Some (Inr None, t, o1)"
| "apply_companions orch app timeout_secs (c # cs) t o1 =
     (case img_digest (cm_to c) of
        None \<Rightarrow> apply_companions orch app timeout_secs cs t o1
      | Some digest \<Rightarrow>
          Option.bind (switch orch (cm_service c) (image_reference (cm_to c)) digest timeout_secs o1) (\<lambda>(r, o2).
            case r of
              Inl e \<Rightarrow> Some (Inl e, t, o2)
            | Inr outcome \<Rightarrow>
                if \<not> is_applied outcome then Some (Inr (Some outcome), t, o2)
                else (case freeze_companion app c t of
                        Inl e \<Rightarrow> Some (Inl e, t, o2)
                      | Inr t' \<Rightarrow> apply_companions orch app timeout_secs cs t' o2)))"

definition status_after_update :: "app_table \<Rightarrow> string \<Rightarrow> string option" where
  "status_after_update t app =
     (let journal = (case bt_get t app of Some row \<Rightarrow> ar_journal row | None \<Rightarrow> []) in
      if ActFailed \<in> set journal then None
      else Some (if ActUnimplemented \<in> set journal then ''partial'' else ''running''))"

definition freeze_app :: "string \<Rightarrow> string \<Rightarrow> string \<Rightarrow> string \<Rightarrow> app_table \<Rightarrow> update_error + app_table" where
  "freeze_app app repo tag digest t =
     and_then (app_manifest t app) (\<lambda>m.
       let m' = m\<lparr>mf_spec := (mf_spec m)\<lparr>sp_image :=
                    (sp_image (mf_spec m))\<lparr>img_repo := repo, img_tag := tag, img_digest := Some digest\<rparr>\<rparr>\<rparr>;
           t' = upsert_app app m' (app_domain t app) t in
       Inr (case status_after_update t' app of Some s \<Rightarrow> set_app_status app s t' | None \<Rightarrow> t'))"

definition apply_own ::
  "'o orchestrator \<Rightarrow> update_candidate \<Rightarrow> nat \<Rightarrow> app_table \<Rightarrow> 'o \<Rightarrow>
   ((update_error + update_outcome) \<times> app_table \<times> 'o) option" where
  "apply_own orch c timeout_secs t o1 =
     (case app_manifest t (ca_app c) of
        Inl e \<Rightarrow> Some (Inl e, t, o1)
      | Inr m \<Rightarrow>
          if ca_kind c = CompanionsOnly then Some (Inr (Applied (ca_to_digest c)), t, o1)
          else (case target_of (ca_kind c) (sp_image (mf_spec m)) of (repo, tag) \<Rightarrow>
            Option.bind (switch orch (ca_app c) (repo @ '':'' @ tag @ ''@'' @ ca_to_digest c) (ca_to_digest c) timeout_secs o1)
              (\<lambda>(r, o2).
                case r of
                  Inr (Applied digest) \<Rightarrow>
                    (case freeze_app (ca_app c) repo tag digest t of
                       Inl e \<Rightarrow> Some (Inl e, t, o2)
                     | Inr t' \<Rightarrow> Some (r, t', o2))
                | _ \<Rightarrow> Some (r, t, o2))))"

definition apply_update ::
  "'o orchestrator \<Rightarrow> update_candidate \<Rightarrow> nat \<Rightarrow> app_table \<Rightarrow> 'o \<Rightarrow>
   ((update_error + update_outcome) \<times> app_table \<times> 'o) option" where
  "apply_update orch c timeout_secs t o1 =
     Option.bind (apply_companions orch (ca_app c) timeout_secs (ca_companions c) t o1) (\<lambda>(r, t', o2).
       case r of
         Inl e \<Rightarrow> Some (Inl e, t', o2)
       | Inr (Some outcome) \<Rightarrow> Some (Inr outcome, t', o2)
       | Inr None \<Rightarrow> apply_own orch c timeout_secs t' o2)"


section \<open>What a check of an image says\<close>

datatype verdict =
    Clean
  | Findings nat nat string
  | NotChecked string

definition was_checked :: "verdict \<Rightarrow> bool" where
  "was_checked v = (case v of NotChecked _ \<Rightarrow> False | _ \<Rightarrow> True)"

definition verdict_blocks :: "verdict \<Rightarrow> bool" where
  "verdict_blocks v = (case v of Findings critical _ _ \<Rightarrow> 0 < critical | _ \<Rightarrow> False)"

definition verdict_describe :: "verdict \<Rightarrow> string" where
  "verdict_describe v =
     (case v of
        Clean \<Rightarrow> check_mark @ '' no critical vulnerability''
      | Findings critical high detail \<Rightarrow>
          red_circle @ '' '' @ show_nat critical @ '' critical, '' @ show_nat high @ '' high - '' @ detail
      | NotChecked reason \<Rightarrow>
          warning_sign @ ''  NOT CHECKED ('' @ reason @ '') - which is not the same as '' @ [CHR 0x22] @ ''clean'' @ [CHR 0x22])"

text \<open>The members of a JSON report, absent ones reading as none.\<close>

fun report_get :: "json \<Rightarrow> string \<Rightarrow> json option" where
  "report_get (JObject ms) k = map_of ms k"
| "report_get _ k = None"

fun report_items :: "json option \<Rightarrow> json list" where
  "report_items (Some (JArray xs)) = xs"
| "report_items _ = []"

fun report_text :: "json option \<Rightarrow> string option" where
  "report_text (Some (JString s)) = Some s"
| "report_text _ = None"

definition count_finding :: "json \<Rightarrow> nat \<times> nat \<times> string list \<Rightarrow> nat \<times> nat \<times> string list" where
  "count_finding v acc =
     (case acc of (critical, high, examples) \<Rightarrow>
        (case report_text (report_get v ''Severity'') of
           Some s \<Rightarrow>
             if s = ''CRITICAL''
             then (critical + 1, high,
                   if length examples < 3
                   then (case report_text (report_get v ''VulnerabilityID'') of Some i \<Rightarrow> examples @ [i] | None \<Rightarrow> examples)
                   else examples)
             else if s = ''HIGH'' then (critical, high + 1, examples)
             else acc
         | None \<Rightarrow> acc))"

definition read_trivy :: "json option \<Rightarrow> verdict" where
  "read_trivy parsed =
     (case parsed of
        None \<Rightarrow> NotChecked ''unreadable trivy output''
      | Some v \<Rightarrow>
          (case fold count_finding
                  (concat (map (\<lambda>r. report_items (report_get r ''Vulnerabilities'')) (report_items (report_get v ''Results'')))) (0, 0, []) of
             (critical, high, examples) \<Rightarrow>
               if critical = 0 \<and> high = 0 then Clean
               else Findings critical high (if examples = [] then ''see the full report'' else join_with '', '' examples)))"

definition read_failure :: "string \<Rightarrow> bool \<Rightarrow> verdict" where
  "read_failure stderr declared =
     (let unsigned = (str_contains stderr ''no matching signatures'' \<or> str_contains stderr ''no signatures found'') in
      if unsigned \<and> \<not> declared then NotChecked ''unsigned image''
      else Findings 1 0
             (if unsigned then ''UNSIGNED, though its publisher signs every release''
              else ''INVALID signature: '' @ trim stderr))"

text \<open>How running \<open>cosign\<close> ends: it could not be started, it succeeded, or it failed saying why.\<close>

datatype ran = NotStarted string | Succeeded string | Failed string

definition cosign_verify :: "(string \<Rightarrow> string \<Rightarrow> string \<Rightarrow> ran) \<Rightarrow> string \<Rightarrow> string \<Rightarrow> string \<Rightarrow> bool \<Rightarrow> verdict" where
  "cosign_verify cosign img identity issuer declared =
     (case cosign img identity issuer of
        NotStarted e \<Rightarrow> NotChecked (''cosign unavailable: '' @ e)
      | Succeeded _ \<Rightarrow> Clean
      | Failed stderr \<Rightarrow> read_failure stderr declared)"

definition verify_signature ::
  "(string \<Rightarrow> string \<Rightarrow> string \<Rightarrow> ran) \<Rightarrow> string \<Rightarrow> string option \<Rightarrow> string option \<Rightarrow> verdict" where
  "verify_signature cosign img identity issuer =
     (case (identity, issuer) of
        (Some i, Some s) \<Rightarrow> cosign_verify cosign img i s False
      | _ \<Rightarrow> NotChecked ''no signer identity declared - a verification without one accepts any signature'')"

definition ISSUER :: string where
  "ISSUER = ''https://token.actions.githubusercontent.com''"

definition verify_signed_by ::
  "(string \<Rightarrow> string \<Rightarrow> string \<Rightarrow> ran) \<Rightarrow> string \<Rightarrow> image_signer option \<Rightarrow> verdict" where
  "verify_signed_by cosign img signer =
     (case signer of
        None \<Rightarrow> NotChecked ''no signer declared for this image''
      | Some s \<Rightarrow> cosign_verify cosign img (identity_regexp s) ISSUER True)"

definition scan_image :: "(string \<Rightarrow> ran) \<Rightarrow> (string \<Rightarrow> json option) \<Rightarrow> string \<Rightarrow> verdict" where
  "scan_image trivy parse img =
     (case trivy img of
        NotStarted e \<Rightarrow> NotChecked (''trivy unavailable: '' @ e)
      | Failed stderr \<Rightarrow> NotChecked (''trivy failed: '' @ trim stderr)
      | Succeeded out \<Rightarrow> read_trivy (parse out))"

record scan_report =
  rp_image :: string
  rp_vulnerabilities :: verdict
  rp_signature :: verdict

definition report_blocks :: "scan_report \<Rightarrow> bool" where
  "report_blocks r \<longleftrightarrow> verdict_blocks (rp_vulnerabilities r) \<or> verdict_blocks (rp_signature r)"

definition unchecked_count :: "scan_report \<Rightarrow> nat" where
  "unchecked_count r =
     (if \<not> was_checked (rp_vulnerabilities r) then 1 else 0) + (if \<not> was_checked (rp_signature r) then 1 else 0)"

definition report_describe :: "scan_report \<Rightarrow> string" where
  "report_describe r =
     rp_image r @ newline @ ''  vulnerabilities: '' @ verdict_describe (rp_vulnerabilities r) @ newline @
     ''  signature      : '' @
     (case rp_signature r of
        Clean \<Rightarrow> check_mark @ '' signed by the expected signer''
      | Findings _ _ detail \<Rightarrow> red_circle @ '' '' @ detail
      | NotChecked s \<Rightarrow> verdict_describe (NotChecked s))"

definition audit ::
  "(string \<Rightarrow> ran) \<Rightarrow> (string \<Rightarrow> json option) \<Rightarrow> (string \<Rightarrow> string \<Rightarrow> string \<Rightarrow> ran) \<Rightarrow>
   string \<Rightarrow> string option \<Rightarrow> string option \<Rightarrow> scan_report" where
  "audit trivy parse cosign img identity issuer =
     \<lparr>rp_image = img, rp_vulnerabilities = scan_image trivy parse img,
      rp_signature = verify_signature cosign img identity issuer\<rparr>"

definition audit_signed_by ::
  "(string \<Rightarrow> ran) \<Rightarrow> (string \<Rightarrow> json option) \<Rightarrow> (string \<Rightarrow> string \<Rightarrow> string \<Rightarrow> ran) \<Rightarrow> string \<Rightarrow> image_signer option \<Rightarrow> scan_report" where
  "audit_signed_by trivy parse cosign img signer =
     \<lparr>rp_image = img, rp_vulnerabilities = scan_image trivy parse img, rp_signature = verify_signed_by cosign img signer\<rparr>"


section \<open>Moving the catalog\<close>

definition DATED_AT_MOST :: nat where
  "DATED_AT_MOST = 4"

record proposal =
  pp_owner :: string
  pp_current :: image
  pp_to :: "image option"
  pp_published :: "int option"
  pp_held :: "string list"
  pp_major :: "string option"

definition later_step :: "version \<Rightarrow> version list \<times> version option \<Rightarrow> string \<Rightarrow> version list \<times> version option" where
  "later_step now acc t =
     (case acc of (same_major, major) \<Rightarrow>
        (case version_parse t of
           None \<Rightarrow> acc
         | Some v \<Rightarrow>
             if version_allows now v Minor then (same_major @ [v], major)
             else if same_flavor v now \<and> precision v = precision now \<and> ve_major now < ve_major v \<and>
                     (case major of None \<Rightarrow> True | Some m \<Rightarrow> is_newer_than v m)
             then (same_major, Some v)
             else acc))"

text \<open>Newest first, and by their text where the numbers are the same.\<close>

definition newest_first :: "version list \<Rightarrow> version list" where
  "newest_first vs =
     sort_key (\<lambda>v. case version_key v of (a, b, c) \<Rightarrow> (- int a, - int b, - int c, ve_raw v)) vs"

definition later_tags :: "string \<Rightarrow> string list \<Rightarrow> string list \<times> string option" where
  "later_tags current tags =
     (case version_parse current of
        None \<Rightarrow> ([], None)
      | Some now \<Rightarrow>
          (case foldl (later_step now) ([], None) tags of (same_major, major) \<Rightarrow>
             (map ve_raw (newest_first same_major), map_option ve_raw major)))"

fun propose_from ::
  "registry \<Rightarrow> show_utc \<Rightarrow> image \<Rightarrow> u32 \<Rightarrow> int \<Rightarrow> string list \<Rightarrow> proposal \<Rightarrow> update_error + proposal" where
  "propose_from rg utc current days now [] p = Inr p"
| "propose_from rg utc current days now (tag # tags) p =
     and_then (reg (rg_resolve_digest rg (ref_parse (img_repo current @ '':'' @ tag)))) (\<lambda>digest.
       if tag = img_tag current \<and> img_digest current = Some digest then Inr p
       else and_then (reg (rg_created rg ((ref_parse (img_repo current @ '':'' @ tag))\<lparr>ir_digest := Some digest\<rparr>))) (\<lambda>published.
         case maturity_refusal utc (maturity_of published days now) now of
           Some why \<Rightarrow>
             propose_from rg utc current days now tags (p\<lparr>pp_held := pp_held p @ [tag @ '': '' @ why]\<rparr>)
         | None \<Rightarrow>
             Inr (p\<lparr>pp_to := Some \<lparr>img_repo = img_repo current, img_tag = tag, img_digest = Some digest,
                               img_built_here = False, img_signed_by = img_signed_by current\<rparr>,
                    pp_published := published\<rparr>)))"

definition propose :: "registry \<Rightarrow> show_utc \<Rightarrow> string \<Rightarrow> image \<Rightarrow> u32 \<Rightarrow> int \<Rightarrow> update_error + proposal" where
  "propose rg utc owner current days now =
     (let p = \<lparr>pp_owner = owner, pp_current = current, pp_to = None, pp_published = None, pp_held = [], pp_major = None\<rparr> in
      if img_built_here current
      then Inr (p\<lparr>pp_held := [''built here: its release builds it, from the Dockerfile'' @ [CHR 0x27] @ ''s pinned bases'']\<rparr>)
      else and_then (reg (rg_list_tags rg (ref_parse (img_repo current @ '':'' @ img_tag current)))) (\<lambda>tags.
        case later_tags (img_tag current) tags of (later, major) \<Rightarrow>
          propose_from rg utc current days now (take DATED_AT_MOST (later @ [img_tag current])) (p\<lparr>pp_major := major\<rparr>)))"

text \<open>\<open>match_indices\<close>: where a text begins, one after the other, never overlapping.\<close>

function match_indices :: "string \<Rightarrow> string \<Rightarrow> nat \<Rightarrow> nat list" where
  "match_indices pat s begins =
     (case find_sub pat (drop begins s) of
        None \<Rightarrow> []
      | Some i \<Rightarrow> if pat = [] then [] else (begins + i) # match_indices pat s (begins + i + length pat))"
  by pat_completeness auto
termination
proof (relation "measure (\<lambda>(pat, s, begins). Suc (length s) - begins)")
  fix pat s :: string and begins i
  assume "find_sub pat (drop begins s) = Some i" "pat \<noteq> []"
  then have "i + length pat \<le> length s - begins" "0 < length pat" using find_sub_Some_split [of pat "drop begins s" i] by auto
  then have "Suc (length s) - (begins + i + length pat) < Suc (length s) - begins" by linarith
  then show "((pat, s, begins + i + length pat), (pat, s, begins)) \<in> measure (\<lambda>(pat, s, begins). Suc (length s) - begins)"
    by simp
qed simp

declare match_indices.simps [simp del]

definition image_text :: "image \<Rightarrow> string option \<Rightarrow> string" where
  "image_text i digest =
     ''{ repo: '' @ img_repo i @ '', tag: '' @ [CHR 0x22] @ img_tag i @ [CHR 0x22] @
     (case digest of Some d \<Rightarrow> '', digest: '' @ [CHR 0x22] @ d @ [CHR 0x22] | None \<Rightarrow> [])"

definition rewrite :: "string \<Rightarrow> image \<Rightarrow> image \<Rightarrow> string option" where
  "rewrite manifest from to =
     (let old = image_text from (img_digest from) in
      case img_digest to of
        None \<Rightarrow> None
      | Some d \<Rightarrow>
          (let new = image_text to (Some d);
               at = filter (\<lambda>i. let rest = drop (i + length old) manifest in
                                 starts_with rest '' }'' \<or> starts_with rest '', signedBy:'')
                      (match_indices old manifest 0) in
           case at of
             [i] \<Rightarrow> Some (take i manifest @ new @ drop (i + length old) manifest)
           | _ \<Rightarrow> None))"

end
