(* ===== verification/Updater_Props.thy ===== *)
theory Updater_Props
  imports Update_Apply Resolver_Props
begin

text \<open>
  What updates promise: the tag chosen is the newest the channel allows and never a downgrade, a
  change of base or of precision; an update always returns; it is reported applied only when the
  tasks were seen running it, and the state is frozen only then; whatever is switched to was
  among the images verified; and nothing young is applied without a person's decision.
\<close>

section \<open>The tag chosen\<close>

text \<open>What a channel lets an app move to, written out.\<close>

definition may_follow :: "version \<Rightarrow> version \<Rightarrow> update_channel \<Rightarrow> bool" where
  "may_follow c v ch \<longleftrightarrow>
     is_newer_than v c \<and> same_flavor c v \<and> precision c = precision v \<and> ve_major v = ve_major c \<and>
     (ch = Minor \<or> ch = Patch \<and> ve_minor v = ve_minor c)"

lemma version_allows_may_follow: "version_allows c v ch \<longleftrightarrow> may_follow c v ch"
  by (auto simp: version_allows_def may_follow_def is_newer_than_def split: update_channel.splits)

text \<open>
  C25: The tag an app moves to is chosen exactly: it is one the registry lists, of the same base
  and precision as the tag in service, strictly newer, of the same major version and, on the patch
  channel, of the same minor, with no listed tag the channel allows being newer; and none is chosen
  exactly when the tag in service does not read as a version or no listed tag is allowed.
\<close>

theorem best_upgrade_is_newest_allowed:
  "case best_upgrade cur tags ch of
     None \<Rightarrow> \<not> (\<exists>c t v. version_parse cur = Some c \<and> t \<in> set tags \<and> version_parse t = Some v \<and> may_follow c v ch)
   | Some t \<Rightarrow> \<exists>c v. version_parse cur = Some c \<and> t \<in> set tags \<and> version_parse t = Some v \<and> may_follow c v ch \<and>
       \<not> (\<exists>t' v'. t' \<in> set tags \<and> version_parse t' = Some v' \<and> may_follow c v' ch \<and> is_newer_than v' v)"
proof (cases "best_upgrade cur tags ch")
  case None
  then show ?thesis using best_upgrade_None [of cur tags ch] by (auto simp: version_allows_may_follow)
next
  case (Some t)
  from best_upgrade_Some [OF Some] show ?thesis unfolding Some option.case version_allows_may_follow by blast
qed

lemma example_upgrade: "best_upgrade ''1.2'' [''1.10'', ''2.0'', ''1.3''] Minor = Some ''1.10''"
  by (simp add: best_upgrade_def version_parse_def strip_prefix_def parse_below_def parse_digits_def is_ascii_digit_def
      digits_value_def digit_value_def upgrade_step_def version_allows_def same_flavor_def starts_with_def precision_def
      cmp_numeric_def then_cmp_def cmp_nat_def or_zero_def)

section \<open>Watching ends\<close>

text \<open>What the clock of an orchestrator promises: it never goes back, and sleeping moves it on.\<close>

definition clock_advances :: "'o orchestrator \<Rightarrow> bool" where
  "clock_advances orch \<longleftrightarrow>
     (\<forall>s o1. or_clock orch o1 \<le> or_clock orch (snd (or_status orch s o1)) \<and>
             or_clock orch o1 \<le> or_clock orch (snd (or_tasks orch s o1))) \<and>
     (\<forall>n o1. or_clock orch o1 + n \<le> or_clock orch (or_sleep orch n o1))"

lemma clock_advancesD:
  assumes "clock_advances orch"
  shows "or_status orch s o1 = (r, o2) \<Longrightarrow> or_clock orch o1 \<le> or_clock orch o2"
    "or_tasks orch s o1 = (q, o2) \<Longrightarrow> or_clock orch o1 \<le> or_clock orch o2"
    "or_clock orch o1 + n \<le> or_clock orch (or_sleep orch n o1)"
  using assms unfolding clock_advances_def by (metis snd_conv)+

lemma watch_step_clock:
  assumes "clock_advances orch" "watch_step orch app digest o1 = (None, o2)"
  shows "or_clock orch o1 \<le> or_clock orch o2"
proof -
  obtain st o3 where st: "or_status orch app o1 = (Inr st, o3)"
    using assms(2) by (auto simp: watch_step_def split: prod.splits sum.splits)
  note c = clock_advancesD [OF assms(1)]
  have "o2 = o3 \<or> (\<exists>q. or_tasks orch app o3 = (q, o2))"
    using assms(2) st by (auto simp: watch_step_def split: prod.splits sum.splits if_splits)
  then show ?thesis using c(1) [OF st] c(2) by (metis order_trans order_refl)
qed

lemma watch_until_returns:
  assumes "clock_advances orch"
  shows "\<exists>r. watch_until orch app digest deadline o1 = Some r"
proof (induction "deadline - or_clock orch o1" arbitrary: o1 rule: less_induct)
  case less
  show ?case
  proof (cases "or_clock orch o1 < deadline")
    case True
    show ?thesis
    proof (cases "watch_step orch app digest o1")
      case (Pair r o2)
      show ?thesis
      proof (cases r)
        case None
        then have "or_clock orch o1 + 2 \<le> or_clock orch (or_sleep orch 2 o2)"
          using watch_step_clock [OF assms] Pair clock_advancesD(3) [OF assms, of o2 2] by (metis add_le_mono1 order_trans)
        then have "deadline - or_clock orch (or_sleep orch 2 o2) < deadline - or_clock orch o1" using True by linarith
        from less [OF this] show ?thesis using True Pair None by (subst watch_until.simps) simp
      next
        case (Some a)
        then show ?thesis using True Pair by (subst watch_until.simps) simp
      qed
    qed
  next
    case False
    then show ?thesis by (subst watch_until.simps) simp
  qed
qed

lemma switch_returns: "clock_advances orch \<Longrightarrow> \<exists>r o2. switch orch s ref digest secs o1 = Some (r, o2)"
  using watch_until_returns by (fastforce simp: switch_def watch_def split: prod.splits sum.splits)

lemma apply_companions_returns:
  "clock_advances orch \<Longrightarrow> \<exists>r. apply_companions orch app secs cs t o1 = Some r"
proof (induction cs arbitrary: t o1)
  case (Cons c cs)
  show ?case
  proof (cases "img_digest (cm_to c)")
    case None
    then show ?thesis using Cons by simp
  next
    case (Some d)
    obtain r o2 where "switch orch (cm_service c) (image_reference (cm_to c)) d secs o1 = Some (r, o2)"
      using switch_returns [OF Cons.prems] by blast
    then show ?thesis using Some Cons by (auto split: sum.splits)
  qed
qed simp

lemma apply_returns:
  assumes "clock_advances orch"
  shows "\<exists>r t' o2. apply_update orch c timeout_secs t o1 = Some (r, t', o2)"
proof -
  obtain r t' o2 where comp: "apply_companions orch (ca_app c) timeout_secs (ca_companions c) t o1 = Some (r, t', o2)"
    using apply_companions_returns [OF assms] by (metis surj_pair)
  have own: "\<exists>r t' o2. apply_own orch c timeout_secs t o1 = Some (r, t', o2)" for t o1
  proof (cases "app_manifest t (ca_app c)")
    case (Inr m)
    obtain repo tag where target: "target_of (ca_kind c) (sp_image (mf_spec m)) = (repo, tag)" by fastforce
    obtain r o2 where sw: "switch orch (ca_app c) (repo @ '':'' @ tag @ ''@'' @ ca_to_digest c) (ca_to_digest c) timeout_secs o1 = Some (r, o2)"
      using switch_returns [OF assms] by blast
    show ?thesis
      using Inr target sw by (cases r) (auto simp: apply_own_def split: sum.splits update_outcome.splits)
  qed (simp add: apply_own_def)
  show ?thesis using comp own by (auto simp: apply_update_def split: sum.splits option.splits)
qed

text \<open>
  C24: Applying an update always returns, for any orchestrator whose clock moves on: each switch
  is watched for its time at most, one that never concludes included.
\<close>

theorem apply_always_returns:
  assumes "clock_advances orch"
  shows "\<exists>r t' o2. apply_update orch c timeout_secs t o1 = Some (r, t', o2)"
  by (rule apply_returns [OF assms])

text \<open>An orchestrator for the examples: its state is its clock, and every service runs what it should.\<close>

definition calm_status :: "string \<Rightarrow> service_status" where
  "calm_status s =
     \<lparr>ss_name = s, ss_id = s, ss_desired_replicas = 1, ss_running_replicas = 1, ss_global = False, ss_image = [],
      ss_update_state = Some Completed\<rparr>"

definition calm_task :: "string \<Rightarrow> task_info" where
  "calm_task s =
     \<lparr>tk_id = [], tk_service = s, tk_slot = None, tk_node_id = None, tk_desired_state = ''running'', tk_state = ''running'',
      tk_image = ''r:2@d2'', tk_message = None, tk_err = None, tk_updated_at = None\<rparr>"

definition calm :: "nat orchestrator" where
  "calm =
     \<lparr>or_update_image = (\<lambda>s r o1. (Inr (), o1)), or_status = (\<lambda>s o1. (Inr (calm_status s), o1)),
      or_tasks = (\<lambda>s o1. (Inr [calm_task s], o1)), or_sleep = (\<lambda>n o1. o1 + n), or_clock = (\<lambda>o1. o1)\<rparr>"

lemma calm_advances: "clock_advances calm"
  by (simp add: clock_advances_def calm_def)

theorem apply_always_returns_witness:
  "\<exists>r t' o2. apply_update calm
     \<lparr>ca_app = ''wiki'', ca_kind = NewVersion ''2'', ca_from_tag = ''1'', ca_from_digest = None, ca_to_digest = ''d2'',
      ca_in_window = True, ca_needs_backup = False, ca_maturity = Mature, ca_companions = []\<rparr> 60 [] 0 = Some (r, t', o2)"
  by (rule apply_always_returns [OF calm_advances])


section \<open>What is reported applied was seen\<close>

lemma watch_until_result:
  assumes "watch_until orch app digest deadline o1 = Some res"
  shows "fst res = Inr Inconclusive \<or> (\<exists>o0. watch_step orch app digest o0 = (Some (fst res), snd res))"
proof (rule watch_until.raw_induct [where P = "\<lambda>orch app digest deadline o1 res.
    fst res = Inr Inconclusive \<or> (\<exists>o0. watch_step orch app digest o0 = (Some (fst res), snd res))", OF _ assms])
  fix w and orch :: "'a orchestrator" and app digest deadline o1 res
  assume IH: "\<And>orch app digest deadline o1 res. w orch app digest deadline o1 = Some res \<Longrightarrow>
      fst res = Inr Inconclusive \<or> (\<exists>o0. watch_step orch app digest o0 = (Some (fst res), snd res))"
    and eq: "(if or_clock orch o1 < deadline
       then case watch_step orch app digest o1 of (Some r, o2) \<Rightarrow> Some (r, o2)
            | (None, o2) \<Rightarrow> w orch app digest deadline (or_sleep orch 2 o2)
       else Some (Inr Inconclusive, o1)) = Some res"
  show "fst res = Inr Inconclusive \<or> (\<exists>o0. watch_step orch app digest o0 = (Some (fst res), snd res))"
    using eq IH by (auto split: if_splits prod.splits option.splits)
qed

lemma watch_step_applied:
  assumes "watch_step orch app digest o1 = (Some (Inr (Applied d)), o3)"
  shows "d = digest \<and> (\<exists>st o2 tasks. or_status orch app o1 = (Inr st, o2) \<and> finished st \<and> is_converged st \<and>
    or_tasks orch app o2 = (Inr tasks, o3) \<and> ss_desired_replicas st \<le> on_target digest tasks)"
  using assms by (auto simp: watch_step_def split: prod.splits sum.splits if_splits)

text \<open>
  C23: A switch that is watched is reported applied only when the orchestrator was seen to have
  finished it, with as many tasks alive on the image asked for as the service wants; whatever else was seen before.
\<close>

theorem applied_was_seen:
  assumes "watch orch app digest timeout_secs o1 = Some (Inr (Applied d), o2)"
  shows "d = digest \<and> (\<exists>o3 st o4 tasks. or_status orch app o3 = (Inr st, o4) \<and>
    (ss_update_state st = None \<or> ss_update_state st = Some Completed) \<and>
    ss_running_replicas st = ss_desired_replicas st \<and> or_tasks orch app o4 = (Inr tasks, o2) \<and>
    ss_desired_replicas st \<le> length (filter (\<lambda>t. is_alive t \<and> str_contains (tk_image t) digest) tasks))"
proof -
  obtain o0 where "watch_step orch app digest o0 = (Some (Inr (Applied d)), o2)"
    using watch_until_result [OF assms [unfolded watch_def]] by auto
  from watch_step_applied [OF this] show ?thesis
    unfolding finished_def is_converged_def on_target_def by blast
qed

theorem applied_was_seen_witness:
  "\<exists>o3 st o4 tasks. or_status calm ''wiki'' o3 = (Inr st, o4) \<and> or_tasks calm ''wiki'' o4 = (Inr tasks, (0 :: nat))"
proof -
  have "watch calm ''wiki'' ''d2'' 60 0 = Some (Inr (Applied ''d2''), 0)"
    unfolding watch_def
    by (subst watch_until.simps)
      (simp add: calm_def watch_step_def calm_status_def calm_task_def finished_def is_converged_def on_target_def
        is_alive_def str_contains_def)
  from applied_was_seen [OF this] show ?thesis by blast
qed


section \<open>Every image switched to was verified\<close>

text \<open>The same orchestrator, keeping the images it was asked to switch services to.\<close>

definition logged :: "'o orchestrator \<Rightarrow> ('o \<times> (string \<times> string) list) orchestrator" where
  "logged orch =
     \<lparr>or_update_image = (\<lambda>s r (o1, l). case or_update_image orch s r o1 of (x, o2) \<Rightarrow> (x, (o2, l @ [(s, r)]))),
      or_status = (\<lambda>s (o1, l). case or_status orch s o1 of (x, o2) \<Rightarrow> (x, (o2, l))),
      or_tasks = (\<lambda>s (o1, l). case or_tasks orch s o1 of (x, o2) \<Rightarrow> (x, (o2, l))),
      or_sleep = (\<lambda>n (o1, l). (or_sleep orch n o1, l)),
      or_clock = (\<lambda>(o1, l). or_clock orch o1)\<rparr>"

lemma watch_until_keeps:
  assumes "watch_until orch app digest deadline o1 = Some res"
    and "\<And>s o1 r o2. or_status orch s o1 = (r, o2) \<Longrightarrow> f o2 = f o1"
    and "\<And>s o1 r o2. or_tasks orch s o1 = (r, o2) \<Longrightarrow> f o2 = f o1"
    and "\<And>n o1. f (or_sleep orch n o1) = f o1"
  shows "f (snd res) = f o1"
proof -
  have step: "f o2 = f o1" if "watch_step orch app digest o1 = (r, o2)" for app digest o1 r o2
  proof -
    obtain x o3 where x: "or_status orch app o1 = (x, o3)" by fastforce
    then have "o2 = o3 \<or> (\<exists>q. or_tasks orch app o3 = (q, o2))"
      using that by (auto simp: watch_step_def split: prod.splits sum.splits if_splits)
    then show ?thesis using assms(2) [OF x] assms(3) by metis
  qed
  have "orch' = orch \<longrightarrow> f (snd res) = f o1" if ret: "watch_until orch' app digest deadline o1 = Some res"
    for orch' app digest deadline o1 res
  proof (rule watch_until.raw_induct [where P = "\<lambda>orch' app digest deadline o1 res. orch' = orch \<longrightarrow> f (snd res) = f o1", OF _ ret])
    fix w and orch' :: "'a orchestrator" and app digest deadline o1 res
    assume IH: "\<And>orch' app digest deadline o1 res. w orch' app digest deadline o1 = Some res \<Longrightarrow>
        orch' = orch \<longrightarrow> f (snd res) = f o1"
      and eq: "(if or_clock orch' o1 < deadline
         then case watch_step orch' app digest o1 of (Some r, o2) \<Rightarrow> Some (r, o2)
              | (None, o2) \<Rightarrow> w orch' app digest deadline (or_sleep orch' 2 o2)
         else Some (Inr Inconclusive, o1)) = Some res"
    obtain r o2 where ro: "watch_step orch' app digest o1 = (r, o2)" by fastforce
    show "orch' = orch \<longrightarrow> f (snd res) = f o1"
    proof
      assume o: "orch' = orch"
      have "f o2 = f o1" using step ro o by blast
      moreover have "res = (Inr Inconclusive, o1) \<or> (\<exists>a. res = (a, o2)) \<or>
          w orch' app digest deadline (or_sleep orch' 2 o2) = Some res"
        using eq ro by (auto split: if_splits option.splits)
      ultimately show "f (snd res) = f o1" using IH o assms(4) by (metis snd_conv)
    qed
  qed
  then show ?thesis using assms(1) by blast
qed

lemma logged_switch:
  assumes "switch (logged orch) s ref digest secs (o1, l) = Some (r, o2)"
  shows "snd o2 = l @ [(s, ref)]"
proof -
  obtain x o3 where x: "or_update_image orch s ref o1 = (x, o3)" by fastforce
  have keep: "snd (snd res) = snd p" if "watch_until (logged orch) a d dl p = Some res" for a d dl p res
    by (rule watch_until_keeps [OF that]) (auto simp: logged_def split: prod.splits)
  show ?thesis
  proof (cases x)
    case (Inl e)
    then show ?thesis using assms x by (auto simp: switch_def logged_def)
  next
    case (Inr u)
    then have "watch_until (logged orch) s digest (or_clock (logged orch) (o3, l @ [(s, ref)]) + secs) (o3, l @ [(s, ref)]) = Some (r, o2)"
      using assms x by (simp add: switch_def watch_def logged_def)
    from keep [OF this] show ?thesis by simp
  qed
qed

text \<open>What the table says of an app's own image and status.\<close>

definition app_image :: "app_table \<Rightarrow> string \<Rightarrow> image option" where
  "app_image t app = map_option (\<lambda>row. sp_image (mf_spec (ar_manifest row))) (bt_get t app)"

definition app_status :: "app_table \<Rightarrow> string \<Rightarrow> string option" where
  "app_status t app = map_option ar_status (bt_get t app)"

definition same_but :: "string \<Rightarrow> app_table \<Rightarrow> app_table \<Rightarrow> bool" where
  "same_but app t t' \<longleftrightarrow> (\<forall>a. a \<noteq> app \<longrightarrow> bt_get t' a = bt_get t a)"

lemma same_but_trans: "same_but app t t' \<Longrightarrow> same_but app t' t'' \<Longrightarrow> same_but app t t''"
  by (simp add: same_but_def)

lemma freeze_companion_keeps:
  assumes "freeze_companion app c t = Inr t'"
  shows "app_image t' app = app_image t app \<and> app_status t' app = app_status t app \<and> same_but app t t'"
  using assms
  by (auto simp: freeze_companion_def app_manifest_def and_then_def Let_def upsert_app_def app_image_def app_status_def
      same_but_def bt_get_insert_fun split: option.splits)

lemma apply_companions_keeps:
  assumes "apply_companions orch app secs cs t o1 = Some (r, t', o2)"
  shows "app_image t' app = app_image t app \<and> app_status t' app = app_status t app \<and> same_but app t t'"
  using assms
proof (induction cs arbitrary: t o1)
  case Nil
  then show ?case by (simp add: same_but_def)
next
  case (Cons c cs)
  show ?case
  proof (cases "img_digest (cm_to c)")
    case None
    then show ?thesis using Cons by simp
  next
    case (Some d)
    then obtain q o3 where sw: "switch orch (cm_service c) (image_reference (cm_to c)) d secs o1 = Some (q, o3)"
      using Cons.prems by (auto simp: bind_eq_Some_conv)
    show ?thesis
    proof (cases "t' = t")
      case True
      then show ?thesis by (simp add: same_but_def)
    next
      case False
      then obtain t1 where t1: "freeze_companion app c t = Inr t1" "apply_companions orch app secs cs t1 o3 = Some (r, t', o2)"
        using Cons.prems Some sw by (auto split: sum.splits if_splits)
      show ?thesis using Cons.IH [OF t1(2)] freeze_companion_keeps [OF t1(1)] same_but_trans by metis
    qed
  qed
qed

lemma apply_companions_log:
  assumes "apply_companions (logged orch) app secs cs t p = Some (r, t', p')"
  shows "\<exists>new. snd p' = snd p @ new \<and> snd ` set new \<subseteq> (\<lambda>m. image_reference (cm_to m)) ` set cs"
  using assms
proof (induction cs arbitrary: t p)
  case Nil
  then show ?case by simp
next
  case (Cons c cs)
  show ?case
  proof (cases "img_digest (cm_to c)")
    case None
    then have "apply_companions (logged orch) app secs cs t p = Some (r, t', p')" using Cons.prems by simp
    from Cons.IH [OF this] show ?thesis by auto
  next
    case (Some d)
    then obtain q o3 where sw: "switch (logged orch) (cm_service c) (image_reference (cm_to c)) d secs p = Some (q, o3)"
      using Cons.prems by (auto simp: bind_eq_Some_conv)
    have log: "snd o3 = snd p @ [(cm_service c, image_reference (cm_to c))]"
      using logged_switch [where ?o1.0 = "fst p" and l = "snd p"] sw by (metis prod.collapse)
    have "p' = o3 \<or> (\<exists>t1. apply_companions (logged orch) app secs cs t1 o3 = Some (r, t', p'))"
      using Cons.prems Some sw by (auto split: sum.splits if_splits)
    then show ?thesis
    proof
      assume "p' = o3"
      then show ?thesis using log by (intro exI [of _ "[(cm_service c, image_reference (cm_to c))]"]) simp
    next
      assume "\<exists>t1. apply_companions (logged orch) app secs cs t1 o3 = Some (r, t', p')"
      then obtain new where "snd p' = snd o3 @ new" "snd ` set new \<subseteq> (\<lambda>m. image_reference (cm_to m)) ` set cs"
        using Cons.IH by blast
      then show ?thesis using log
        by (intro exI [of _ "(cm_service c, image_reference (cm_to c)) # new"]) auto
    qed
  qed
qed

lemma apply_own_log:
  assumes "apply_own (logged orch) c secs t p = Some (r, t', p')" "app_image t (ca_app c) = Some installed"
  shows "\<exists>new. snd p' = snd p @ new \<and>
    (new = [] \<or> ca_kind c \<noteq> CompanionsOnly \<and>
      new = [(ca_app c, fst (target_of (ca_kind c) installed) @ '':'' @ snd (target_of (ca_kind c) installed) @ ''@'' @ ca_to_digest c)])"
proof -
  obtain row where row: "bt_get t (ca_app c) = Some row" and inst: "installed = sp_image (mf_spec (ar_manifest row))"
    using assms(2) by (auto simp: app_image_def)
  then have m: "app_manifest t (ca_app c) = Inr (ar_manifest row)" by (simp add: app_manifest_def)
  obtain repo tag where target: "target_of (ca_kind c) installed = (repo, tag)" by fastforce
  show ?thesis
  proof (cases "ca_kind c = CompanionsOnly")
    case True
    then show ?thesis using assms(1) m by (simp add: apply_own_def)
  next
    case False
    then obtain q o3 where sw: "switch (logged orch) (ca_app c) (repo @ '':'' @ tag @ ''@'' @ ca_to_digest c) (ca_to_digest c) secs p = Some (q, o3)"
      using assms(1) m target inst by (auto simp: apply_own_def bind_eq_Some_conv)
    have "snd o3 = snd p @ [(ca_app c, repo @ '':'' @ tag @ ''@'' @ ca_to_digest c)]"
      using logged_switch [where ?o1.0 = "fst p" and l = "snd p"] sw by (metis prod.collapse)
    moreover have "p' = o3"
      using assms(1) m target inst sw False by (auto simp: apply_own_def split: sum.splits update_outcome.splits)
    ultimately show ?thesis using False target by auto
  qed
qed

lemma fst_to_verify:
  "fst ` set (to_verify c installed catalog) =
     (if ca_kind c \<noteq> CompanionsOnly
      then {fst (target_of (ca_kind c) installed) @ '':'' @ snd (target_of (ca_kind c) installed) @ ''@'' @ ca_to_digest c}
      else {}) \<union> (\<lambda>m. image_reference (cm_to m)) ` set (ca_companions c)"
  by (cases "target_of (ca_kind c) installed") (simp add: to_verify_def image_Un image_image)

text \<open>
  C21: Whatever an update switches a service to, a companion's or the app's own, is among the
  images it says are to be verified before it, named by the same digest.
\<close>

theorem switched_only_to_verified:
  assumes "apply_update (logged orch) c timeout_secs t (o1, []) = Some (r, t', (o2, log))"
    and "app_image t (ca_app c) = Some installed"
  shows "snd ` set log \<subseteq> fst ` set (to_verify c installed catalog)"
proof -
  let ?V = "fst ` set (to_verify c installed catalog)"
  have comps: "(\<lambda>m. image_reference (cm_to m)) ` set (ca_companions c) \<subseteq> ?V"
    by (simp add: fst_to_verify)
  obtain q t1 p1 where comp: "apply_companions (logged orch) (ca_app c) timeout_secs (ca_companions c) t (o1, []) = Some (q, t1, p1)"
    using assms(1) by (auto simp: apply_update_def bind_eq_Some_conv)
  obtain new where new: "snd p1 = new" "snd ` set new \<subseteq> ?V"
    using apply_companions_log [OF comp] comps by auto
  consider "(o2, log) = p1" | "apply_own (logged orch) c timeout_secs t1 p1 = Some (r, t', (o2, log))"
    using assms(1) comp by (auto simp: apply_update_def split: sum.splits option.splits)
  then show ?thesis
  proof cases
    case 1
    then have "log = new" using new(1) by (metis snd_conv)
    then show ?thesis using new(2) by simp
  next
    case 2
    have "app_image t1 (ca_app c) = Some installed" using apply_companions_keeps [OF comp] assms(2) by simp
    from apply_own_log [OF 2 this] obtain own where own: "log = new @ own"
      "own = [] \<or> ca_kind c \<noteq> CompanionsOnly \<and>
        own = [(ca_app c, fst (target_of (ca_kind c) installed) @ '':'' @ snd (target_of (ca_kind c) installed) @ ''@'' @ ca_to_digest c)]"
      using new(1) by auto
    then have "snd ` set own \<subseteq> ?V" by (auto simp: fst_to_verify)
    then show ?thesis using new(2) own(1) by auto
  qed
qed

text \<open>
  C22: The state is changed by an update only as far as it went: another app's row never, the
  app's own image and status only when the update is reported applied, and then to the repository,
  tag and digest that were asked for.
\<close>

theorem frozen_only_when_applied:
  assumes "apply_update orch c timeout_secs t o1 = Some (r, t', o2)" "app_image t (ca_app c) = Some installed"
  shows "same_but (ca_app c) t t' \<and>
    (app_image t' (ca_app c) = Some installed \<and> app_status t' (ca_app c) = app_status t (ca_app c) \<or>
     r = Inr (Applied (ca_to_digest c)) \<and> ca_kind c \<noteq> CompanionsOnly \<and>
     app_image t' (ca_app c) =
       Some (installed\<lparr>img_repo := fst (target_of (ca_kind c) installed), img_tag := snd (target_of (ca_kind c) installed),
                       img_digest := Some (ca_to_digest c)\<rparr>))"
proof -
  obtain q t1 p1 where comp: "apply_companions orch (ca_app c) timeout_secs (ca_companions c) t o1 = Some (q, t1, p1)"
    using assms(1) by (auto simp: apply_update_def bind_eq_Some_conv)
  note keep = apply_companions_keeps [OF comp]
  consider "t' = t1" | "apply_own orch c timeout_secs t1 p1 = Some (r, t', o2)"
    using assms(1) comp by (auto simp: apply_update_def split: sum.splits option.splits)
  then show ?thesis
  proof cases
    case 1
    then show ?thesis using keep assms(2) by simp
  next
    case 2
    obtain row where row: "bt_get t1 (ca_app c) = Some row" and inst: "installed = sp_image (mf_spec (ar_manifest row))"
      using keep assms(2) by (auto simp: app_image_def)
    then have m: "app_manifest t1 (ca_app c) = Inr (ar_manifest row)" by (simp add: app_manifest_def)
    obtain repo tag where target: "target_of (ca_kind c) installed = (repo, tag)" by fastforce
    show ?thesis
    proof (cases "t' = t1")
      case True
      then show ?thesis using keep assms(2) by simp
    next
      case False
      then have kind: "ca_kind c \<noteq> CompanionsOnly" using 2 m by (auto simp: apply_own_def)
      let ?sw = "switch orch (ca_app c) (repo @ '':'' @ tag @ ''@'' @ ca_to_digest c) (ca_to_digest c) timeout_secs p1"
      obtain q o3 where q: "?sw = Some (q, o3)"
        using 2 m target inst kind by (auto simp: apply_own_def bind_eq_Some_conv)
      have "\<exists>d. q = Inr (Applied d)"
        using 2 m target inst kind False q
        by (cases q) (auto simp: apply_own_def split: sum.splits update_outcome.splits)
      then obtain d where d: "q = Inr (Applied d)" by blast
      then have fr: "freeze_app (ca_app c) repo tag d t1 = Inr t'" and r: "r = Inr (Applied d)" and sw: "?sw = Some (Inr (Applied d), o3)"
        using 2 m target inst kind False q by (auto simp: apply_own_def split: sum.splits)
      have "d = ca_to_digest c"
        using sw watch_until_result watch_step_applied
        by (fastforce simp: switch_def watch_def split: prod.splits sum.splits)
      moreover have "app_image t' (ca_app c) = Some (installed\<lparr>img_repo := repo, img_tag := tag, img_digest := Some d\<rparr>) \<and> same_but (ca_app c) t1 t'"
        using fr row inst
        by (auto simp: freeze_app_def app_manifest_def and_then_def Let_def upsert_app_def set_app_status_def app_image_def
            same_but_def bt_get_insert_fun split: option.splits)
      ultimately show ?thesis using keep kind target r same_but_trans by auto
    qed
  qed
qed

definition ex_candidate :: update_candidate where
  "ex_candidate =
     \<lparr>ca_app = ''wiki'', ca_kind = NewVersion ''2'', ca_from_tag = ''1'', ca_from_digest = None, ca_to_digest = ''d2'',
      ca_in_window = True, ca_needs_backup = False, ca_maturity = Mature, ca_companions = []\<rparr>"

definition ex_apps :: app_table where
  "ex_apps = [(''wiki'', \<lparr>ar_manifest = sample_manifest, ar_domain = None, ar_status = ''running'', ar_journal = []\<rparr>)]"

lemma ex_installed: "app_image ex_apps (ca_app ex_candidate) = Some (sp_image (mf_spec sample_manifest))"
  by (simp add: app_image_def ex_apps_def ex_candidate_def bt_get_def)

lemma logged_calm_advances: "clock_advances (logged calm)"
  unfolding clock_advances_def logged_def calm_def by (simp add: split_beta)

theorem switched_only_to_verified_witness:
  "\<exists>r t' o2 log. apply_update (logged calm) ex_candidate 60 ex_apps (0, []) = Some (r, t', (o2, log)) \<and>
     snd ` set log \<subseteq> fst ` set (to_verify ex_candidate (sp_image (mf_spec sample_manifest)) None)"
proof -
  from apply_returns [OF logged_calm_advances, of ex_candidate 60 ex_apps "(0, [])"]
  obtain r t' p where a: "apply_update (logged calm) ex_candidate 60 ex_apps (0, []) = Some (r, t', p)" by auto
  obtain o2 log where p: "p = (o2, log)" by (cases p)
  note b = a [unfolded p]
  show ?thesis
    by (rule exI [of _ r], rule exI [of _ t'], rule exI [of _ o2], rule exI [of _ log])
      (rule conjI [OF b switched_only_to_verified [OF b ex_installed]])
qed

theorem frozen_only_when_applied_witness:
  "\<exists>r t' o2. apply_update calm ex_candidate 60 ex_apps 0 = Some (r, t', o2) \<and> same_but ''wiki'' ex_apps t'"
proof -
  obtain r t' o2 where a: "apply_update calm ex_candidate 60 ex_apps 0 = Some (r, t', o2)"
    using apply_returns [OF calm_advances] by blast
  have "same_but (ca_app ex_candidate) ex_apps t'" using frozen_only_when_applied [OF a ex_installed] by blast
  moreover have "ca_app ex_candidate = ''wiki''" by (simp add: ex_candidate_def)
  ultimately show ?thesis using a by auto
qed


section \<open>Nothing young without a decision\<close>

lemma or_younger_Mature: "or_younger a b = Mature \<longleftrightarrow> a = Mature \<and> b = Mature"
  by (cases a; cases b) auto

lemma foldl_or_younger:
  "foldl (\<lambda>a c. or_younger a (cm_maturity c)) m cs = Mature \<longleftrightarrow> m = Mature \<and> (\<forall>c \<in> set cs. cm_maturity c = Mature)"
  by (induction cs arbitrary: m) (auto simp: or_younger_Mature)

lemma maturity_refusal_None: "maturity_refusal utc m now = None \<longleftrightarrow> m = Mature"
  by (simp add: maturity_refusal_def split: maturity.splits)

text \<open>Published at least so many days before an instant, as the registry dates it.\<close>

definition published_before :: "registry \<Rightarrow> image_ref \<Rightarrow> u32 \<Rightarrow> int \<Rightarrow> bool" where
  "published_before rg r days at \<longleftrightarrow> (\<exists>p. rg_created rg r = Inr (Some p) \<and> wrap_i64 (p + int (unat days) * 86400) \<le> at)"

lemma maturity_of_Mature:
  "rg_created rg r = Inr p \<Longrightarrow> maturity_of p days at = Mature \<Longrightarrow> published_before rg r days at"
  by (auto simp: maturity_of_def published_before_def Let_def split: option.splits if_splits)

lemma reg_Inr: "reg r = Inr a \<longleftrightarrow> r = Inr a"
  by (auto simp: reg_def split: sum.splits)

lemma companion_moves_from_dated:
  assumes "companion_moves_from rg app theirs days at cs = Inr moves" "m \<in> set moves" "cm_maturity m = Mature"
  shows "published_before rg (ref_parse (image_reference (cm_to m))) days at"
  using assms
proof (induction cs arbitrary: moves)
  case (Cons c cs)
  show ?case
  proof (cases "\<exists>moves'. companion_moves_from rg app theirs days at cs = Inr moves' \<and> m \<in> set moves'")
    case True
    then show ?thesis using Cons.IH Cons.prems(3) by blast
  next
    case False
    then show ?thesis using Cons.prems
      by (auto simp: and_then_Inr_conv reg_Inr Let_def split: option.splits if_splits intro!: maturity_of_Mature)
  qed
qed simp

lemma app_move_dated:
  assumes "app_move rg at m catalog = Inr (Some (kind, digest, Mature))"
  shows "\<exists>r. ir_digest r = Some digest \<and> published_before rg r (up_maturation_days (sp_update (mf_spec m))) at"
proof -
  obtain k target d where k: "app_target rg m catalog = Inr (k, target)"
    and d: "(case ir_digest target of Some d \<Rightarrow> Inr d | None \<Rightarrow> reg (rg_resolve_digest rg target)) = Inr d"
    using assms by (auto simp: app_move_def and_then_Inr_conv)
  obtain p where p: "rg_created rg (target\<lparr>ir_digest := Some d\<rparr>) = Inr p"
    and res: "d = digest" "maturity_of p (up_maturation_days (sp_update (mf_spec m))) at = Mature"
    using assms k d by (auto simp: app_move_def and_then_Inr_conv reg_Inr split: if_splits)
  show ?thesis
    by (rule exI [of _ "target\<lparr>ir_digest := Some d\<rparr>"]) (use maturity_of_Mature [OF p res(2)] res(1) in simp)
qed

text \<open>
  C26: An update found by a pass and authorised with no decision to hurry runs only images the
  registry dates at least as many days back as the manifest asks: the app's own, dated by the
  digest that will run, and every companion's; and a copy can be taken when one is owed.
\<close>

theorem authorized_is_mature:
  assumes "candidate_of sr app m catalog = Inr (Some c)"
    and "authorize utc c has_backup force_window False now = Inr ()"
  shows "(ca_needs_backup c \<longrightarrow> has_backup) \<and>
    (ca_kind c = CompanionsOnly \<or>
     (\<exists>r. ir_digest r = Some (ca_to_digest c) \<and>
        published_before (sr_registry sr) r (up_maturation_days (sp_update (mf_spec m))) (sr_at sr))) \<and>
    (\<forall>mv \<in> set (ca_companions c).
       published_before (sr_registry sr) (ref_parse (image_reference (cm_to mv))) (up_maturation_days (sp_update (mf_spec m))) (sr_at sr))"
proof -
  let ?days = "up_maturation_days (sp_update (mf_spec m))"
  obtain comps own kind digest mat where
    comps: "companion_moves (sr_registry sr) app m catalog ?days (sr_at sr) = Inr comps" and
    own: "app_move (sr_registry sr) (sr_at sr) m (map_option (\<lambda>c. sp_image (mf_spec c)) catalog) = Inr own" and
    oc: "own_or_companions m own comps = Some (kind, digest, mat)" and
    c: "ca_kind c = kind" "ca_to_digest c = digest" "ca_companions c = comps"
      "ca_maturity c = foldl (\<lambda>a c. or_younger a (cm_maturity c)) mat comps"
    using assms(1) by (auto simp: candidate_of_def and_then_Inr_conv split: option.splits prod.splits)
  have auth: "ca_needs_backup c \<longrightarrow> has_backup" "ca_maturity c = Mature"
    using assms(2) by (auto simp: authorize_def maturity_refusal_None split: if_splits option.splits)
  then have mat: "mat = Mature" "\<And>mv. mv \<in> set comps \<Longrightarrow> cm_maturity mv = Mature" using c(4) by (auto simp: foldl_or_younger)
  have "published_before (sr_registry sr) (ref_parse (image_reference (cm_to mv))) ?days (sr_at sr)" if "mv \<in> set comps" for mv
  proof (cases catalog)
    case None
    then show ?thesis using comps that by (simp add: companion_moves_def)
  next
    case (Some cat)
    then show ?thesis using comps that companion_moves_from_dated mat(2) by (fastforce simp: companion_moves_def)
  qed
  moreover have "kind = CompanionsOnly \<or> (\<exists>r. ir_digest r = Some digest \<and> published_before (sr_registry sr) r ?days (sr_at sr))"
  proof (cases own)
    case None
    then show ?thesis using oc by (auto simp: own_or_companions_def split: if_splits)
  next
    case (Some o1)
    then have "own = Some (kind, digest, Mature)" using oc mat(1) by (simp add: own_or_companions_def)
    then show ?thesis using app_move_dated own by blast
  qed
  ultimately show ?thesis using auth(1) c by auto
qed

definition ex_registry :: registry where
  "ex_registry = \<lparr>rg_list_tags = (\<lambda>_. Inr []), rg_resolve_digest = (\<lambda>_. Inr ''d2''), rg_created = (\<lambda>_. Inr (Some 0))\<rparr>"

definition ex_surrounds :: surrounds where
  "ex_surrounds =
     \<lparr>sr_registry = ex_registry, sr_read_time = (\<lambda>_. None), sr_kinds = (\<lambda>_. Inr []),
      sr_now = \<lparr>ck_day = Mon, ck_hour = 3, ck_minute = 0\<rparr>, sr_at = 1000000000\<rparr>"

lemma best_upgrade_no_tags: "best_upgrade cur [] ch = None"
  by (cases "version_parse cur") (simp_all add: best_upgrade_def)

lemma ref_parse_undigested: "CHR ''@'' \<notin> set s \<Longrightarrow> ir_digest (ref_parse s) = None"
proof -
  assume a: "CHR ''@'' \<notin> set s"
  have "split_once CHR ''@'' s = None"
  proof (rule ccontr)
    assume "split_once CHR ''@'' s \<noteq> None"
    then obtain x y where "split_once CHR ''@'' s = Some (x, y)" by auto
    then have "s = x @ CHR ''@'' # y" by (simp add: split_once_Some)
    then show False using a by simp
  qed
  then show ?thesis by (simp add: ref_parse_def split_digest_def split: prod.splits)
qed

definition ex_found :: update_candidate where
  "ex_found =
     \<lparr>ca_app = ''app'', ca_kind = DigestOnly, ca_from_tag = img_tag sample_image, ca_from_digest = img_digest sample_image,
      ca_to_digest = ''d2'', ca_in_window = True, ca_needs_backup = False, ca_maturity = Mature, ca_companions = []\<rparr>"

lemma ex_found_candidate: "candidate_of ex_surrounds ''app'' sample_manifest None = Inr (Some ex_found)"
proof -
  have m: "sp_image (mf_spec sample_manifest) = sample_image" "sp_update (mf_spec sample_manifest) = default_update"
    by (simp_all add: sample_manifest_def)
  have "CHR ''@'' \<notin> set (img_repo sample_image @ '':'' @ img_tag sample_image)" by (simp add: sample_image_def)
  then have d: "ir_digest (ref_parse (img_repo sample_image @ '':'' @ img_tag sample_image)) = None" by (rule ref_parse_undigested)
  have target: "app_target ex_registry sample_manifest None =
      Inr (DigestOnly, ref_parse (img_repo sample_image @ '':'' @ img_tag sample_image))"
    unfolding app_target_def Let_def m
    by (simp add: catalog_move_def ex_registry_def reg_def and_then_def best_upgrade_no_tags default_update_def)
  have age: "maturity_of (Some 0) (up_maturation_days default_update) 1000000000 = Mature"
    by (simp add: maturity_of_def default_update_def MIN_MATURATION_DAYS_def wrap_i64_def Let_def)
  have new: "img_digest sample_image \<noteq> Some ''d2''" by (simp add: sample_image_def)
  have "app_move ex_registry 1000000000 sample_manifest None = Inr (Some (DigestOnly, ''d2'', Mature))"
    unfolding app_move_def target and_then_def m
    using d new age by (simp add: ex_registry_def reg_def)
  then show ?thesis
    by (simp add: candidate_of_def ex_surrounds_def companion_moves_def own_or_companions_def in_window_def owes_backup_def
        m and_then_def ex_found_def default_update_def)
qed

theorem authorized_is_mature_witness:
  "\<exists>r. ir_digest r = Some ''d2'' \<and> published_before ex_registry r (up_maturation_days default_update) 1000000000"
proof -
  have "authorize (\<lambda>_. []) ex_found False False False 1000000000 = Inr ()"
    by (simp add: authorize_def ex_found_def maturity_refusal_def)
  from authorized_is_mature [OF ex_found_candidate this] show ?thesis
    by (simp add: ex_found_def ex_surrounds_def sample_manifest_def)
qed


section \<open>Images whose publisher signs them\<close>

text \<open>
  An image with a declared signer is let through only when \<open>cosign\<close> verified it or could not
  be started: any failure blocks, an image carrying no signature included.
\<close>

theorem unsigned_image_blocks:
  "verdict_blocks (verify_signed_by cosign img (Some s)) \<longleftrightarrow>
     (\<exists>why. cosign img (identity_regexp s) ISSUER = Failed why)"
  by (auto simp: verdict_blocks_def verify_signed_by_def cosign_verify_def read_failure_def Let_def split: ran.splits)


section \<open>The catalog\<close>

lemma in_later: "set (fst (foldl (later_step now) acc tags)) \<subseteq> set (fst acc) \<union> set (offered (\<lambda>v. version_allows now v Minor) tags)"
proof (induction tags arbitrary: acc)
  case (Cons t tags)
  have "set (fst (later_step now acc t)) \<subseteq> set (fst acc) \<union> set (offered (\<lambda>v. version_allows now v Minor) [t])"
    by (auto simp: later_step_def offered_Cons split: prod.splits option.splits)
  moreover have "offered P (t # tags) = offered P [t] @ offered P tags" for P
    by (simp add: offered_Cons split: option.split)
  ultimately show ?case using Cons.IH [of "later_step now acc t"] by auto
qed simp

lemma later_tag_allowed:
  assumes "tag \<in> set (fst (later_tags cur tags))"
  shows "\<exists>a b. version_parse cur = Some a \<and> version_parse tag = Some b \<and> version_allows a b Minor"
proof -
  obtain a where a: "version_parse cur = Some a" using assms by (auto simp: later_tags_def split: option.splits)
  obtain b where "b \<in> set (fst (foldl (later_step a) ([], None) tags))" "ve_raw b = tag"
    using assms a by (auto simp: later_tags_def newest_first_def split: prod.splits)
  then have "version_parse tag = Some b \<and> version_allows a b Minor"
    using in_later [of a "([], None)" tags] by (auto simp: in_offered)
  then show ?thesis using a by blast
qed

lemma propose_from_to:
  assumes "propose_from rg utc current days now tags p = Inr q" "pp_to q = Some i" "pp_to p = None"
  shows "img_repo i = img_repo current \<and> img_tag i \<in> set tags \<and>
    (\<exists>d. img_digest i = Some d \<and> rg_resolve_digest rg (ref_parse (img_repo current @ '':'' @ img_tag i)) = Inr d \<and>
       published_before rg ((ref_parse (img_repo current @ '':'' @ img_tag i))\<lparr>ir_digest := Some d\<rparr>) days now)"
  using assms
proof (induction tags arbitrary: p)
  case (Cons tag tags)
  obtain d where d: "rg_resolve_digest rg (ref_parse (img_repo current @ '':'' @ tag)) = Inr d"
    using Cons.prems(1) by (auto simp: and_then_Inr_conv reg_Inr)
  show ?case
  proof (cases "tag = img_tag current \<and> img_digest current = Some d")
    case True
    then show ?thesis using Cons.prems d by (simp add: reg_def and_then_def)
  next
    case False
    then obtain pub where pub: "rg_created rg ((ref_parse (img_repo current @ '':'' @ tag))\<lparr>ir_digest := Some d\<rparr>) = Inr pub"
      using Cons.prems(1) d by (auto simp: and_then_Inr_conv reg_Inr split: if_splits)
    show ?thesis
    proof (cases "maturity_refusal utc (maturity_of pub days now) now")
      case None
      then have "maturity_of pub days now = Mature" by (simp add: maturity_refusal_None)
      from maturity_of_Mature [OF pub this] show ?thesis
        using Cons.prems d False pub None by (auto simp: reg_def and_then_def)
    next
      case (Some why)
      then have "propose_from rg utc current days now tags (p\<lparr>pp_held := pp_held p @ [tag @ '': '' @ why]\<rparr>) = Inr q"
        using Cons.prems(1) d False pub by (auto simp: reg_def and_then_def)
      from Cons.IH [OF this Cons.prems(2)] Cons.prems(3) show ?thesis by auto
    qed
  qed
qed simp

text \<open>
  C27: What the catalog is moved to is the same repository, and either the tag it names now or a
  newer one of the same major version, base and precision; pinned to the digest the tag names
  when it is written, which was published at least the days asked for before. Never a major.
\<close>

theorem proposal_never_major:
  assumes "propose rg utc owner current days now = Inr p" "pp_to p = Some i"
  shows "img_repo i = img_repo current \<and>
    (img_tag i = img_tag current \<or>
     (\<exists>a b. version_parse (img_tag current) = Some a \<and> version_parse (img_tag i) = Some b \<and> is_newer_than b a \<and>
        ve_major b = ve_major a \<and> same_flavor a b \<and> precision a = precision b)) \<and>
    (\<exists>d. img_digest i = Some d \<and> rg_resolve_digest rg (ref_parse (img_repo current @ '':'' @ img_tag i)) = Inr d \<and>
       published_before rg ((ref_parse (img_repo current @ '':'' @ img_tag i))\<lparr>ir_digest := Some d\<rparr>) days now)"
proof -
  have built: "\<not> img_built_here current" using assms by (auto simp: propose_def Let_def)
  then obtain tags where tags: "rg_list_tags rg (ref_parse (img_repo current @ '':'' @ img_tag current)) = Inr tags"
    using assms(1) by (auto simp: propose_def Let_def and_then_Inr_conv reg_Inr)
  obtain later major where lm: "later_tags (img_tag current) tags = (later, major)" by fastforce
  obtain q where q: "later_tags (img_tag current) tags = (later, major)"
    "propose_from rg utc current days now (take DATED_AT_MOST (later @ [img_tag current])) q = Inr p" "pp_to q = None"
  proof (rule that [OF lm])
    show "propose_from rg utc current days now (take DATED_AT_MOST (later @ [img_tag current]))
        \<lparr>pp_owner = owner, pp_current = current, pp_to = None, pp_published = None, pp_held = [], pp_major = major\<rparr> = Inr p"
      using assms(1) built tags lm by (simp add: propose_def Let_def and_then_def reg_def)
  qed simp
  note to = propose_from_to [OF q(2) assms(2) q(3)]
  have "img_tag i \<in> set (later @ [img_tag current])" using to in_set_takeD by metis
  moreover have "\<exists>a b. version_parse (img_tag current) = Some a \<and> version_parse (img_tag i) = Some b \<and> is_newer_than b a \<and>
      ve_major b = ve_major a \<and> same_flavor a b \<and> precision a = precision b" if "img_tag i \<in> set later"
  proof -
    have "\<exists>a b. version_parse (img_tag current) = Some a \<and> version_parse (img_tag i) = Some b \<and> version_allows a b Minor"
      by (rule later_tag_allowed [of _ _ tags]) (simp add: q(1) that)
    then obtain a b where ab: "version_parse (img_tag current) = Some a" "version_parse (img_tag i) = Some b" "version_allows a b Minor"
      by blast
    then have "is_newer_than b a \<and> ve_major b = ve_major a \<and> same_flavor a b \<and> precision a = precision b"
      by (auto simp: version_allows_def is_newer_than_def split: if_splits)
    then show ?thesis using ab by blast
  qed
  ultimately show ?thesis using to by auto
qed

lemma later_tags_Nil: "later_tags cur [] = ([], None)"
  by (simp add: later_tags_def newest_first_def split: option.split)

theorem proposal_never_major_witness:
  "\<exists>p i. propose ex_registry (\<lambda>_. []) ''app'' sample_image 7 1000000000 = Inr p \<and> pp_to p = Some i \<and>
     img_repo i = img_repo sample_image"
proof -
  have age: "maturity_of (Some 0) 7 1000000000 = Mature" by (simp add: maturity_of_def wrap_i64_def Let_def)
  let ?i = "\<lparr>img_repo = img_repo sample_image, img_tag = img_tag sample_image, img_digest = Some ''d2'',
      img_built_here = False, img_signed_by = img_signed_by sample_image\<rparr>"
  have "img_digest sample_image \<noteq> Some ''d2''" "\<not> img_built_here sample_image" by (simp_all add: sample_image_def)
  then have p: "propose ex_registry (\<lambda>_. []) ''app'' sample_image 7 1000000000 =
      Inr \<lparr>pp_owner = ''app'', pp_current = sample_image, pp_to = Some ?i, pp_published = Some 0, pp_held = [], pp_major = None\<rparr>"
    by (simp add: propose_def later_tags_Nil ex_registry_def reg_def and_then_def DATED_AT_MOST_def age maturity_refusal_def)
  from proposal_never_major [OF this] show ?thesis using p by auto
qed

lemma match_indices_at:
  "i \<in> set (match_indices pat s k) \<Longrightarrow> i + length pat \<le> length s \<and> take (length pat) (drop i s) = pat"
proof (induction pat s k rule: match_indices.induct)
  case (1 pat s k)
  obtain j where j: "find_sub pat (drop k s) = Some j" "pat \<noteq> []"
    using "1.prems" by (cases "find_sub pat (drop k s)") (auto simp: match_indices.simps [of pat s k] split: if_splits)
  then have i: "i = k + j \<or> i \<in> set (match_indices pat s (k + j + length pat))"
    using "1.prems" by (simp add: match_indices.simps [of pat s k])
  show ?case
  proof (cases "i = k + j")
    case True
    note f = find_sub_Some_split [OF j(1)]
    then have "j + length pat \<le> length s - k" "0 < length pat" using j(2) by auto
    then have "i + length pat \<le> length s" using True by linarith
    moreover have "take (length pat) (drop j (drop k s)) = pat"
      using conjunct2 [OF f] by (metis append_eq_conv_conj append_take_drop_id same_append_eq)
    ultimately show ?thesis using True by (simp add: add.commute)
  next
    case False
    then show ?thesis using "1.IH" [OF j(1) j(2)] i by blast
  qed
qed

text \<open>
  A manifest is rewritten in place: the text before and after the image is kept, and the one
  image line that named the old image, where its fields end, names the new one.
\<close>

theorem rewrite_in_place:
  assumes "rewrite m old_image new_image = Some m'"
  shows "\<exists>a b d. img_digest new_image = Some d \<and> m = a @ image_text old_image (img_digest old_image) @ b \<and>
    m' = a @ image_text new_image (Some d) @ b \<and> (prefix '' }'' b \<or> prefix '', signedBy:'' b)"
proof -
  let ?old = "image_text old_image (img_digest old_image)"
  let ?ok = "\<lambda>i. starts_with (drop (i + length ?old) m) '' }'' \<or> starts_with (drop (i + length ?old) m) '', signedBy:''"
  obtain d where d: "img_digest new_image = Some d" using assms by (auto simp: rewrite_def Let_def split: option.splits)
  obtain i where i: "filter ?ok (match_indices ?old m 0) = [i]"
    "m' = take i m @ image_text new_image (Some d) @ drop (i + length ?old) m"
    using assms d by (auto simp: rewrite_def Let_def split: list.splits)
  have "i \<in> set (filter ?ok (match_indices ?old m 0))" by (simp add: i(1))
  then have at: "i \<in> set (match_indices ?old m 0)" "?ok i" by auto
  have "m = take i m @ ?old @ drop (i + length ?old) m"
    using match_indices_at [OF at(1)] by (metis add.commute append_take_drop_id drop_drop)
  then show ?thesis using d i(2) at(2) by (auto simp: starts_with_def)
qed

definition ex_new_image :: image where
  "ex_new_image = \<lparr>img_repo = ''r'', img_tag = ''2'', img_digest = Some ''d'', img_built_here = False, img_signed_by = None\<rparr>"

definition ex_old_image :: image where
  "ex_old_image = ex_new_image\<lparr>img_tag := ''1'', img_digest := None\<rparr>"

definition ex_manifest_text :: string where
  "ex_manifest_text = ''a: '' @ image_text ex_old_image None @ '' }, b: 1''"

theorem rewrite_in_place_witness:
  "rewrite ex_manifest_text ex_old_image ex_new_image = Some (''a: '' @ image_text ex_new_image (Some ''d'') @ '' }, b: 1'')
   \<and> (\<exists>a b. ex_manifest_text = a @ image_text ex_old_image None @ b \<and> (prefix '' }'' b \<or> prefix '', signedBy:'' b))"
proof -
  have r: "rewrite ex_manifest_text ex_old_image ex_new_image = Some (''a: '' @ image_text ex_new_image (Some ''d'') @ '' }, b: 1'')"
    by code_simp
  from rewrite_in_place [OF r] r show ?thesis by (auto simp: ex_old_image_def)
qed

end
