(* ===== verification/Instant.thy ===== *)
theory Instant
  imports Guide
begin

text \<open>
  Instants (\<open>crates/hlb-backup/src/pitr.rs\<close>): seconds since the epoch, the calendar they are printed
  in and read from, without a calendar library, and that what is printed is read back exactly.
\<close>

text \<open>\<open>trim_end_matches\<close> of one character.\<close>


section \<open>Instants\<close>

text \<open>\<open>{:02}\<close> and \<open>{:04}\<close>: zeros on the left, the sign counted in the width.\<close>

definition show_padded :: "nat \<Rightarrow> nat \<Rightarrow> string" where
  "show_padded w n = replicate (w - length (show_nat n)) CHR ''0'' @ show_nat n"

definition show_year :: "int \<Rightarrow> string" where
  "show_year y = (if y < 0 then CHR ''-'' # show_padded 3 (nat (- y)) else show_padded 4 (nat y))"

record civil_time =
  ct_year :: int
  ct_month :: int
  ct_day :: int
  ct_hour :: int
  ct_minute :: int
  ct_second :: int

text \<open>
  Divisions of numbers that are never negative round the same way in both languages, and
  \<open>div_euclid\<close> by a positive number is \<open>div\<close>. The casts to \<open>u32\<close> change nothing: every field is in
  the range of its unit (\<open>civil_in_range\<close>).
\<close>

definition civil :: "int \<Rightarrow> civil_time" where
  "civil epoch =
     (let days = epoch div 86400;
          remaining = epoch mod 86400;
          z = days + 719468;
          era = z div 146097;
          doe = z mod 146097;
          yoe = (doe - doe div 1460 + doe div 36524 - doe div 146096) div 365;
          y = yoe + era * 400;
          doy = doe - (365 * yoe + yoe div 4 - yoe div 100);
          mp = (5 * doy + 2) div 153;
          d = doy - (153 * mp + 2) div 5 + 1;
          m = (if mp < 10 then mp + 3 else mp - 9)
      in \<lparr>ct_year = (if m \<le> 2 then y + 1 else y), ct_month = m, ct_day = d,
          ct_hour = remaining div 3600, ct_minute = remaining mod 3600 div 60, ct_second = remaining mod 60\<rparr>)"

text \<open>
  The result is wrapped once, by the caller: what follows the first line adds and multiplies only,
  so wrapping at each operation leaves the same.
\<close>

definition days_from_civil :: "int \<Rightarrow> int \<Rightarrow> int \<Rightarrow> int" where
  "days_from_civil y0 m d =
     (let y = (if m \<le> 2 then wrap_i64 (y0 - 1) else y0);
          era = y div 400;
          yoe = y - era * 400;
          mp = (if m > 2 then m - 3 else m + 9);
          doy = (153 * mp + 2) div 5 + d - 1;
          doe = yoe * 365 + yoe div 4 - yoe div 100 + doy
      in era * 146097 + doe - 719468)"

definition clock_text :: "civil_time \<Rightarrow> string" where
  "clock_text c = show_padded 2 (nat (ct_hour c)) @ '':'' @ show_padded 2 (nat (ct_minute c)) @ '':'' @
     show_padded 2 (nat (ct_second c))"

definition date_text :: "civil_time \<Rightarrow> string" where
  "date_text c = show_year (ct_year c) @ ''-'' @ show_padded 2 (nat (ct_month c)) @ ''-'' @
     show_padded 2 (nat (ct_day c))"

definition iso8601 :: "int \<Rightarrow> string" where
  "iso8601 epoch = (let c = civil epoch in date_text c @ '' '' @ clock_text c @ '' UTC'')"

definition pg_timestamp :: "int \<Rightarrow> string" where
  "pg_timestamp epoch = (let c = civil epoch in date_text c @ '' '' @ clock_text c @ ''+00'')"

text \<open>The compact form of the names of directories and of drills.\<close>

definition stamp :: "int \<Rightarrow> string" where
  "stamp at = (let c = civil at in
     show_year (ct_year c) @ show_padded 2 (nat (ct_month c)) @ show_padded 2 (nat (ct_day c)) @ ''T'' @
     show_padded 2 (nat (ct_hour c)) @ show_padded 2 (nat (ct_minute c)) @ show_padded 2 (nat (ct_second c)) @ ''Z'')"

definition directory_name :: "int \<Rightarrow> string" where
  "directory_name at = ''base-'' @ stamp at"

text \<open>\<open>split_once\<close> around the first of several characters.\<close>

fun split_when :: "(char \<Rightarrow> bool) \<Rightarrow> string \<Rightarrow> (string \<times> string) option" where
  "split_when P [] = None"
| "split_when P (c # cs) = (if P c then Some ([], cs) else map_option (\<lambda>(a, b). (c # a, b)) (split_when P cs))"

definition parse_date :: "string \<Rightarrow> (int \<times> int \<times> int) option" where
  "parse_date date =
     (case map parse_i64 (split_char CHR ''-'' date) of
        [Some y, Some m, Some d] \<Rightarrow> if 1 \<le> m \<and> m \<le> 12 \<and> 1 \<le> d \<and> d \<le> 31 then Some (y, m, d) else None
      | _ \<Rightarrow> None)"

definition parse_clock :: "string \<Rightarrow> (int \<times> int \<times> int) option" where
  "parse_clock hour =
     (let fields = (case map parse_i64 (split_char CHR '':'' (trim_end_char CHR ''Z'' hour)) of
          [Some hh, Some mm] \<Rightarrow> Some (hh, mm, 0)
        | [Some hh, Some mm, Some ss] \<Rightarrow> Some (hh, mm, ss)
        | _ \<Rightarrow> None)
      in case fields of
           None \<Rightarrow> None
         | Some (hh, mm, ss) \<Rightarrow> if hh > 23 \<or> mm > 59 \<or> ss > 59 then None else Some (hh, mm, ss))"

definition parse_utc :: "string \<Rightarrow> int option" where
  "parse_utc s =
     Option.bind (split_when (\<lambda>c. c = CHR ''T'' \<or> c = CHR '' '') (trim s)) (\<lambda>(date, hour).
       Option.bind (parse_date date) (\<lambda>(y, m, day).
         Option.bind (parse_clock hour) (\<lambda>(hh, mm, ss).
           let epoch = wrap_i64 (days_from_civil y m day * 86400 + hh * 3600 + mm * 60 + ss);
               c = civil epoch in
           if ct_year c \<noteq> y \<or> ct_month c \<noteq> m \<or> ct_day c \<noteq> day then None else Some epoch)))"


section \<open>What is printed is read back\<close>

definition year_of_era :: "int \<Rightarrow> int" where
  "year_of_era doe = (doe - doe div 1460 + doe div 36524 - doe div 146096) div 365"

definition year_start :: "int \<Rightarrow> int" where
  "year_start y = 365 * y + y div 4 - y div 100"

lemma div_up:
  fixes k :: int
  assumes "0 < k"
  shows "(x + 1) div k \<le> x div k + 1" "x div k \<le> (x + 1) div k"
proof -
  have "(x + 1) div k \<le> (x + k) div k" using assms by (intro zdiv_mono1) auto
  also have "(x + k) div k = x div k + 1" using assms by (simp add: div_add_self2)
  finally show "(x + 1) div k \<le> x div k + 1" .
  show "x div k \<le> (x + 1) div k" using assms by (intro zdiv_mono1) auto
qed

lemma div_within:
  fixes t b k :: int
  assumes "a \<le> t" "t \<le> b" "0 < k"
  shows "a div k \<le> t div k" "t div k \<le> b div k"
  using assms by (auto intro: zdiv_mono1)

lemma year_of_era_step:
  assumes "0 \<le> x" "x < 146096"
  shows "year_of_era x \<le> year_of_era (x + 1)"
proof -
  show ?thesis
  proof (cases "x = 146095")
    case False
    then have z: "x div 146096 = 0" "(x + 1) div 146096 = 0" using assms by auto
    show ?thesis unfolding year_of_era_def z
      by (rule zdiv_mono1) (use div_up(1) [of 1460 x] div_up(2) [of 36524 x] in linarith, simp)
  qed (simp add: year_of_era_def)
qed

lemma year_of_era_mono:
  assumes "0 \<le> x" "x \<le> y" "y \<le> 146096"
  shows "year_of_era x \<le> year_of_era y"
  using assms(2,1,3)
proof (induction y rule: int_ge_induct)
  case (step i)
  then have "year_of_era x \<le> year_of_era i" "year_of_era i \<le> year_of_era (i + 1)"
    using year_of_era_step [of i] by auto
  then show ?case by simp
qed simp

lemma year_table:
  "list_all (\<lambda>y. year_of_era (year_start y) = y \<and> (y = 399 \<or> year_of_era (year_start (y + 1) - 1) = y)) [0..399]"
  by code_simp

lemma year_ends:
  assumes "0 \<le> y" "y \<le> 399"
  shows "year_of_era (year_start y) = y" "y \<noteq> 399 \<Longrightarrow> year_of_era (year_start (y + 1) - 1) = y"
proof -
  have "y \<in> set [0..399]" using assms by simp
  then show "year_of_era (year_start y) = y" "y \<noteq> 399 \<Longrightarrow> year_of_era (year_start (y + 1) - 1) = y"
    using year_table unfolding list_all_iff by blast+
qed

lemma year_start_bounds:
  assumes "0 \<le> y" "y \<le> 399"
  shows "0 \<le> year_start y" "year_start y \<le> 146096" "year_start (y + 1) \<le> year_start y + 366"
proof -
  have q: "0 \<le> y div 4" "y div 4 \<le> 99" "0 \<le> y div 100" "y div 100 \<le> 3"
    using div_within [of 0 y 399 4] div_within [of 0 y 399 100] assms by simp_all
  show "0 \<le> year_start y" "year_start y \<le> 146096"
    using assms q by (simp_all add: year_start_def)
  show "year_start (y + 1) \<le> year_start y + 366"
    using div_up(1) [of 4 y] div_up(2) [of 100 y] by (simp add: year_start_def)
qed

lemma day_of_year:
  assumes "0 \<le> doe" "doe \<le> 146096"
  shows "0 \<le> year_of_era doe" "year_of_era doe \<le> 399"
    "year_start (year_of_era doe) \<le> doe" "doe - year_start (year_of_era doe) \<le> 365"
proof -
  let ?y = "year_of_era doe"
  have "year_of_era 0 \<le> ?y" "?y \<le> year_of_era 146096"
    using assms by (auto intro: year_of_era_mono)
  then show y: "0 \<le> ?y" "?y \<le> 399" by (simp_all add: year_of_era_def)
  show "year_start ?y \<le> doe"
  proof (rule ccontr)
    assume "\<not> year_start ?y \<le> doe"
    moreover from this have "?y \<noteq> 0" using assms(1) by (auto simp: year_start_def)
    ultimately have le: "doe \<le> year_start (?y - 1 + 1) - 1" "0 \<le> ?y - 1" "?y - 1 \<le> 399" "?y - 1 \<noteq> 399"
      using y by auto
    have "year_start (?y - 1 + 1) - 1 \<le> 146096" using year_start_bounds(2) [OF y] by simp
    then have "?y \<le> year_of_era (year_start (?y - 1 + 1) - 1)"
      by (rule year_of_era_mono [OF assms(1) le(1)])
    then show False using year_ends(2) [OF le(2-4)] by simp
  qed
  show "doe - year_start ?y \<le> 365"
  proof (cases "?y = 399")
    case True
    then show ?thesis using assms(2) by (simp add: year_start_def)
  next
    case False
    have "doe < year_start (?y + 1)"
    proof (rule ccontr)
      assume "\<not> doe < year_start (?y + 1)"
      then have le: "year_start (?y + 1) \<le> doe" by simp
      have b: "0 \<le> ?y + 1" "?y + 1 \<le> 399" using y False by auto
      have "year_of_era (year_start (?y + 1)) \<le> ?y"
        by (rule year_of_era_mono [OF year_start_bounds(1) [OF b] le assms(2)])
      then show False using year_ends(1) [OF b] by simp
    qed
    then show ?thesis using year_start_bounds(3) [OF y] by linarith
  qed
qed

text \<open>The month counted from March, and its first day.\<close>

lemma month_of_day:
  fixes doy :: int
  assumes "0 \<le> doy" "doy \<le> 365"
  defines "mp \<equiv> (5 * doy + 2) div 153"
  shows "0 \<le> mp" "mp \<le> 11" "0 \<le> doy - (153 * mp + 2) div 5" "doy - (153 * mp + 2) div 5 \<le> 30"
proof -
  show "0 \<le> mp" "mp \<le> 11"
    using div_within [of 0 "5 * doy + 2" 1827 153] assms(1,2) unfolding mp_def by simp_all
  define r where "r = (5 * doy + 2) mod 153"
  have r: "5 * doy + 2 = 153 * mp + r" "0 \<le> r" "r < 153" unfolding mp_def r_def by simp_all
  define q t where "q = (153 * mp + 2) div 5" and "t = (153 * mp + 2) mod 5"
  have q: "153 * mp + 2 = 5 * q + t" "0 \<le> t" "t < 5" unfolding q_def t_def by simp_all
  have "5 * (doy - q) = t + r - 4" using r(1) q(1) by simp
  then have "0 \<le> doy - q" "doy - q \<le> 30" using r(2,3) q(2,3) by presburger+
  then show "0 \<le> doy - (153 * mp + 2) div 5" "doy - (153 * mp + 2) div 5 \<le> 30" by (simp_all add: q_def)
qed

text \<open>An instant's fields, and the days they are.\<close>

text \<open>The fields of an instant, over the day of its year and the month counted from March.\<close>

definition era_day :: "int \<Rightarrow> int" where
  "era_day e = (e div 86400 + 719468) mod 146097"

definition year_day :: "int \<Rightarrow> int" where
  "year_day e = era_day e - year_start (year_of_era (era_day e))"

definition month_from_march :: "int \<Rightarrow> int" where
  "month_from_march e = (5 * year_day e + 2) div 153"

definition march_year :: "int \<Rightarrow> int" where
  "march_year e = year_of_era (era_day e) + (e div 86400 + 719468) div 146097 * 400"

lemma civil_fields:
  "ct_month (civil e) = (if month_from_march e < 10 then month_from_march e + 3 else month_from_march e - 9)"
  "ct_day (civil e) = year_day e - (153 * month_from_march e + 2) div 5 + 1"
  "ct_year (civil e) = (if ct_month (civil e) \<le> 2 then march_year e + 1 else march_year e)"
  "ct_hour (civil e) = e mod 86400 div 3600"
  "ct_minute (civil e) = e mod 86400 mod 3600 div 60"
  "ct_second (civil e) = e mod 86400 mod 60"
  by (simp_all only: civil_def Let_def civil_time.select_convs march_year_def month_from_march_def year_day_def
      era_day_def year_of_era_def year_start_def)

lemma era_day_bounds: "0 \<le> era_day e" "era_day e \<le> 146096"
  using pos_mod_bound [of 146097 "e div 86400 + 719468"] pos_mod_sign [of 146097 "e div 86400 + 719468"]
  unfolding era_day_def by linarith+

lemma year_day_bounds: "0 \<le> year_day e" "year_day e \<le> 365"
  using day_of_year(3,4) [OF era_day_bounds(1) era_day_bounds(2), of e] unfolding year_day_def by linarith+

lemmas march_month = month_of_day [OF year_day_bounds(1) year_day_bounds(2), folded month_from_march_def]

lemma civil_in_range:
  "1 \<le> ct_month (civil e)" "ct_month (civil e) \<le> 12" "1 \<le> ct_day (civil e)" "ct_day (civil e) \<le> 31"
  "0 \<le> ct_hour (civil e)" "ct_hour (civil e) \<le> 23" "0 \<le> ct_minute (civil e)" "ct_minute (civil e) \<le> 59"
  "0 \<le> ct_second (civil e)" "ct_second (civil e) \<le> 59"
proof -
  show "1 \<le> ct_month (civil e)" "ct_month (civil e) \<le> 12"
    unfolding civil_fields(1) using march_month(1,2) [of e] by (simp_all split: if_split)
  show "1 \<le> ct_day (civil e)" "ct_day (civil e) \<le> 31"
    unfolding civil_fields(2) using march_month(3,4) [of e] by linarith+
  have t: "0 \<le> x mod n" "x mod n \<le> n - 1" if "0 < n" for x n :: int
    using that pos_mod_bound [OF that, of x] by simp_all
  show "0 \<le> ct_hour (civil e)" "ct_hour (civil e) \<le> 23"
    unfolding civil_fields(4) using div_within [of 0 "e mod 86400" 86399 3600] t [of 86400 e] by simp_all
  show "0 \<le> ct_minute (civil e)" "ct_minute (civil e) \<le> 59"
    unfolding civil_fields(5) using div_within [of 0 "e mod 86400 mod 3600" 3599 60] t [of 3600 "e mod 86400"] by simp_all
  show "0 \<le> ct_second (civil e)" "ct_second (civil e) \<le> 59"
    unfolding civil_fields(6) using t [of 60 "e mod 86400"] by simp_all
qed

lemma era_bounds:
  fixes e :: int
  assumes "- (2 ^ 63) \<le> e" "e < 2 ^ 63"
  shows "- (2 ^ 33) \<le> (e div 86400 + 719468) div 146097" "(e div 86400 + 719468) div 146097 \<le> 2 ^ 33"
proof -
  have "- (2 ^ 63) div 86400 \<le> e div 86400" "e div 86400 \<le> 2 ^ 63 div 86400"
    using div_within [of "- (2 ^ 63)" e "2 ^ 63" 86400] assms by simp_all
  then have z: "- 106751991167301 \<le> e div 86400 + 719468" "e div 86400 + 719468 \<le> 106751991900000" by simp_all
  from div_within [OF z, of 146097]
  show "- (2 ^ 33) \<le> (e div 86400 + 719468) div 146097" "(e div 86400 + 719468) div 146097 \<le> 2 ^ 33" by simp_all
qed

lemma march_year_bounds:
  assumes "- (2 ^ 63) \<le> e" "e < 2 ^ 63"
  shows "- (2 ^ 50) \<le> march_year e" "march_year e \<le> 2 ^ 50"
  using era_bounds [OF assms] day_of_year(1,2) [OF era_day_bounds(1) era_day_bounds(2), of e] unfolding march_year_def by simp_all

lemma civil_days:
  assumes "- (2 ^ 63) \<le> e" "e < 2 ^ 63"
  shows "days_from_civil (ct_year (civil e)) (ct_month (civil e)) (ct_day (civil e)) = e div 86400"
proof -
  let ?era = "(e div 86400 + 719468) div 146097" and ?yoe = "year_of_era (era_day e)"
  note m = march_month [of e]
  have "wrap_i64 (march_year e) = march_year e"
    by (rule wrap_i64_id) (use march_year_bounds [OF assms] in simp_all)
  then have y: "(if ct_month (civil e) \<le> 2 then wrap_i64 (ct_year (civil e) - 1) else ct_year (civil e)) = march_year e"
    by (simp add: civil_fields(3))
  have mp: "(if ct_month (civil e) > 2 then ct_month (civil e) - 3 else ct_month (civil e) + 9) = month_from_march e"
    unfolding civil_fields(1) using m(1,2) by (simp split: if_split)
  have era: "march_year e div 400 = ?era"
    using day_of_year(1,2) [OF era_day_bounds(1) era_day_bounds(2), of e] by (simp add: march_year_def)
  have "e div 86400 + 719468 = ?era * 146097 + era_day e" by (simp add: era_day_def)
  moreover have "march_year e - ?era * 400 = ?yoe" by (simp add: march_year_def)
  ultimately show ?thesis
    unfolding days_from_civil_def Let_def y mp era civil_fields(2) by (simp add: year_start_def year_day_def)
qed

lemma civil_clock: "ct_hour (civil e) * 3600 + ct_minute (civil e) * 60 + ct_second (civil e) = e mod 86400"
proof -
  define r where "r = e mod 86400"
  have "r mod 3600 mod 60 = r mod 60" by (rule mod_mod_cancel) simp
  moreover have "r = r div 3600 * 3600 + r mod 3600" "r mod 3600 = r mod 3600 div 60 * 60 + r mod 3600 mod 60"
    by simp_all
  ultimately show ?thesis unfolding civil_fields r_def [symmetric] by linarith
qed

lemma digits_value_zeros: "digits_value (replicate k CHR ''0'' @ s) = digits_value s"
proof (induction k)
  case (Suc k)
  have "digits_value (CHR ''0'' # t) = digits_value t" for t
    by (simp add: digits_value_def digit_value_def)
  then show ?case using Suc by simp
qed simp

lemma show_padded_digits: "list_all is_ascii_digit (show_padded w n)" "show_padded w n \<noteq> []"
  by (simp_all add: show_padded_def show_nat_digits list_all_iff is_ascii_digit_def)
    (use show_nat_digits [of n] in \<open>auto simp: list_all_iff is_ascii_digit_def\<close>)

lemma digit_not_sign: "is_ascii_digit c \<Longrightarrow> c \<notin> {CHR ''-'', CHR ''+'', CHR '':'', CHR '' '', CHR ''T'', CHR ''Z''}"
  by (auto simp: is_ascii_digit_def)

lemma parse_i64_padded:
  assumes "int n \<le> I64_MAX"
  shows "parse_i64 (show_padded w n) = Some (int n)"
proof -
  obtain c cs where s: "show_padded w n = c # cs" using show_padded_digits(2) [of w n] by (cases "show_padded w n") auto
  then have "is_ascii_digit c" using show_padded_digits(1) [of w n] by simp
  note c = digit_not_sign [OF this]
  have "parse_digits (c # cs) = Some n"
    using show_padded_digits [of w n] unfolding s [symmetric]
    by (simp add: parse_digits_def show_padded_def digits_value_zeros digits_value_show_nat)
  then show ?thesis using c assms by (simp add: parse_i64_def s in_i64_def)
qed

lemma split_when_first: "(\<And>c. c \<in> set a \<Longrightarrow> \<not> P c) \<Longrightarrow> P d \<Longrightarrow> split_when P (a @ d # b) = Some (a, b)"
  by (induction a) auto

lemma padded_free: "c \<in> set (show_padded w n) \<Longrightarrow> is_ascii_digit c"
  using show_padded_digits(1) [of w n] by (auto simp: list_all_iff)

definition typed_back :: "int \<Rightarrow> string" where
  "typed_back e = (let c = civil e in date_text c @ '' '' @ clock_text c)"

lemma fits: "int (nat x) \<le> I64_MAX" if "x \<le> I64_MAX" for x
  using that by (simp add: I64_MAX_def)

lemma parse_date_text:
  assumes "0 \<le> ct_year (civil e)" "ct_year (civil e) \<le> I64_MAX"
  shows "parse_date (date_text (civil e)) = Some (ct_year (civil e), ct_month (civil e), ct_day (civil e))"
proof -
  let ?c = "civil e"
  let ?ws = "[show_padded 4 (nat (ct_year ?c)), show_padded 2 (nat (ct_month ?c)), show_padded 2 (nat (ct_day ?c))]"
  have "date_text ?c = join_with ''-'' ?ws"
    using assms by (simp add: date_text_def show_year_def)
  moreover have "split_char CHR ''-'' (join_with ''-'' ?ws) = ?ws"
    by (rule split_char_join) (auto dest!: padded_free digit_not_sign)
  moreover have "ct_month ?c \<le> I64_MAX" "ct_day ?c \<le> I64_MAX"
    using civil_in_range [of e] by (auto simp: I64_MAX_def)
  ultimately show ?thesis
    using civil_in_range [of e] assms by (simp add: parse_date_def parse_i64_padded fits)
qed

lemma parse_clock_text: "parse_clock (clock_text (civil e)) = Some (ct_hour (civil e), ct_minute (civil e), ct_second (civil e))"
proof -
  let ?c = "civil e"
  let ?s = "show_padded 2 (nat (ct_second ?c))"
  let ?ws = "[show_padded 2 (nat (ct_hour ?c)), show_padded 2 (nat (ct_minute ?c)), ?s]"
  have j: "clock_text ?c = join_with '':'' ?ws" by (simp add: clock_text_def)
  moreover have "split_char CHR '':'' (join_with '':'' ?ws) = ?ws"
    by (rule split_char_join) (auto dest!: padded_free digit_not_sign)
  moreover have "trim_end_char CHR ''Z'' (clock_text ?c) = clock_text ?c"
  proof -
    obtain x y where s: "?s = x @ [y]" using show_padded_digits(2) by (cases ?s rule: rev_cases) auto
    then have "is_ascii_digit y" using padded_free [of y] by (metis in_set_conv_decomp)
    then have "y \<noteq> CHR ''Z''" using digit_not_sign by blast
    then show ?thesis by (simp add: clock_text_def s trim_end_char_def)
  qed
  moreover have "ct_hour ?c \<le> I64_MAX" "ct_minute ?c \<le> I64_MAX" "ct_second ?c \<le> I64_MAX"
    using civil_in_range [of e] by (auto simp: I64_MAX_def)
  ultimately show ?thesis
    using civil_in_range [of e] by (simp add: parse_clock_def parse_i64_padded fits)
qed

lemma trim_typed_back:
  assumes "0 \<le> ct_year (civil e)"
  shows "trim (typed_back e) = typed_back e"
proof (rule trim_visible)
  have vis: "is_ascii_digit c \<Longrightarrow> visible c" for c by (simp add: is_ascii_digit_def visible_def)
  let ?y = "show_padded 4 (nat (ct_year (civil e)))" and ?s = "show_padded 2 (nat (ct_second (civil e)))"
  obtain c cs where y: "?y = c # cs" using show_padded_digits(2) by (cases ?y) auto
  obtain x d where s: "?s = x @ [d]" using show_padded_digits(2) by (cases ?s rule: rev_cases) auto
  have "is_ascii_digit c" "is_ascii_digit d"
    using padded_free [of c] padded_free [of d] y s by (metis list.set_intros(1), metis in_set_conv_decomp)
  then have "visible c" "visible d" using vis by auto
  then show "typed_back e \<noteq> []" "visible (hd (typed_back e))" "visible (last (typed_back e))"
    using assms by (simp_all add: typed_back_def Let_def date_text_def clock_text_def show_year_def y s)
qed

text \<open>
  C31: The date and the time printed for an instant, typed back as the target of a restore, are that
  instant: to the second, leap years and centuries included, for every instant from year 0 on.
\<close>

theorem typed_back_is_the_instant:
  assumes "0 \<le> ct_year (civil e)" "e < 2 ^ 63"
  shows "parse_utc (typed_back e) = Some e"
proof -
  let ?c = "civil e"
  have lo: "- (2 ^ 63) \<le> e"
  proof (rule ccontr)
    assume low: "\<not> - (2 ^ 63) \<le> e"
    then have "e div 86400 \<le> - (2 ^ 40)" using div_within(2) [of e e "- (2 ^ 63)" 86400] by simp
    then have "(e div 86400 + 719468) div 146097 \<le> - 1000"
      using div_within(2) [of _ "e div 86400 + 719468" "- (2 ^ 39)" 146097] by simp
    then show False
      using day_of_year(2) [OF era_day_bounds(1) era_day_bounds(2), of e] assms(1) by (simp add: civil_fields(3) march_year_def split: if_splits)
  qed
  have hi: "ct_year ?c \<le> I64_MAX"
    using march_year_bounds(2) [OF lo assms(2)] by (simp add: civil_fields(3) I64_MAX_def split: if_splits)
  have split: "split_when (\<lambda>c. c = CHR ''T'' \<or> c = CHR '' '') (typed_back e) = Some (date_text ?c, clock_text ?c)"
  proof -
    have "\<not> (ch = CHR ''T'' \<or> ch = CHR '' '')" if "ch \<in> set (date_text ?c)" for ch
      using that assms(1) by (auto simp: date_text_def show_year_def dest!: padded_free digit_not_sign)
    then show ?thesis unfolding typed_back_def Let_def by (simp add: split_when_first)
  qed
  have epoch: "days_from_civil (ct_year ?c) (ct_month ?c) (ct_day ?c) * 86400 + ct_hour ?c * 3600 + ct_minute ?c * 60 + ct_second ?c = e"
    using civil_days [OF lo assms(2)] civil_clock [of e] div_mult_mod_eq [of e 86400] by linarith
  show ?thesis
    unfolding parse_utc_def trim_typed_back [OF assms(1)] split
    using parse_date_text [OF assms(1) hi] parse_clock_text [of e] wrap_i64_id [OF lo assms(2)]
    by (simp add: epoch Let_def)
qed

theorem typed_back_is_the_instant_witness:
  "parse_utc ''2024-02-29 23:59:59'' = Some 1709251199"
proof -
  have t: "typed_back 1709251199 = ''2024-02-29 23:59:59''" "0 \<le> ct_year (civil 1709251199)"
    by code_simp+
  show ?thesis using typed_back_is_the_instant [of 1709251199] t by simp
qed

end
