(* ===== verification/Pitr.thy ===== *)
theory Pitr
  imports Updater Checks Instant
begin

text \<open>
  Point-in-time restores of PostgreSQL (\<open>crates/hlb-backup/src/pitr.rs\<close>): the base backups and the journals archived, the window that can be
  restored, the base a target is replayed from, and the settings and commands written for it.
  Directories are listed by the caller; running a command is left out.
\<close>

section \<open>Characters outside ASCII in texts\<close>

definition ellipsis :: string where
  "ellipsis = [CHR 0xE2, CHR 0x80, CHR 0xA6]"

definition bullet :: string where
  "bullet = [CHR 0xE2, CHR 0x80, CHR 0xA2]"

definition single_quote :: string where
  "single_quote = [CHR 0x27]"

definition slash :: char where
  "slash = CHR 0x2F"

section \<open>What is archived\<close>

record base_backup =
  bb_id :: string
  bb_finished_at :: int

record restore_window =
  rw_earliest :: int
  rw_latest :: int

definition window_contains :: "restore_window \<Rightarrow> int \<Rightarrow> bool" where
  "window_contains w t \<longleftrightarrow> t \<ge> rw_earliest w \<and> t \<le> rw_latest w"

definition window_describe :: "restore_window \<Rightarrow> string" where
  "window_describe w = (''from '' @ (iso8601 (rw_earliest w)) @ '' to '' @ (iso8601 (rw_latest w)))"

text \<open>A \<open>WalArchive\<close> is its directory.\<close>

type_synonym wal_archive = string

definition archive_command :: "wal_archive \<Rightarrow> string" where
  "archive_command d = (let dir = trim_end_char slash d in
     (''test ! -f '' @ dir @ ''/%f && cp %p '' @ dir @ ''/%f.tmp && mv '' @ dir @ ''/%f.tmp '' @ dir @
      ''/%f''))"

definition restore_command :: "wal_archive \<Rightarrow> string" where
  "restore_command d = (''cp '' @ trim_end_char slash d @ ''/%f %p'')"

definition render_wal_settings :: "wal_archive \<Rightarrow> string" where
  "render_wal_settings d =
     (''# Generated by Homelabus '' @ em_dash @ '' do not edit by hand.'' @ newline @ ''# '' @
      warning_sign @ '' These three settings require a RESTART, not a reload.'' @ newline @
      ''wal_level = replica'' @ newline @ ''archive_mode = on'' @ newline @ ''archive_command = '' @
      single_quote @ archive_command d @ single_quote @ newline @
      ''# Replay margin: an orphan 16 MB segment beats a hole.'' @ newline @ ''archive_timeout = 300'' @
      newline @ ''wal_keep_size = 1024'' @ newline)"

record segment_file =
  sg_name :: string
  sg_archived_at :: int

text \<open>
  \<open>u32::from_str_radix\<close>: an optional \<open>+\<close>, then at least one hexadecimal digit.
\<close>

definition hex_value :: "char \<Rightarrow> nat" where
  "hex_value c =
     (if is_ascii_digit c then of_char c - 48 else if is_ascii_lowercase c then of_char c - 87 else of_char c - 55)"

definition parse_hex_below :: "nat \<Rightarrow> string \<Rightarrow> nat option" where
  "parse_hex_below bound s =
     (let ds = (case s of c # cs \<Rightarrow> if c = CHR ''+'' then cs else s | [] \<Rightarrow> []);
          n = foldl (\<lambda>n c. 16 * n + hex_value c) 0 ds in
      if ds \<noteq> [] \<and> list_all is_ascii_hexdigit ds \<and> n < bound then Some n else None)"

definition timeline :: "segment_file \<Rightarrow> nat option" where
  "timeline s = (if length (sg_name s) < 8 then None else parse_hex_below (2 ^ 32) (take 8 (sg_name s)))"

definition is_segment :: "string \<Rightarrow> bool" where
  "is_segment name \<longleftrightarrow> length name = 24 \<and> list_all is_ascii_hexdigit name"

text \<open>
  The inventory of a directory. \<open>None\<close> is a failure to list it, to read one entry, or the metadata
  of one that is looked at; the metadata says whether the entry is a file and its time, if any.
\<close>

type_synonym dir_entry = "string \<times> (bool \<times> int option) option"

definition scan_entry :: "segment_file list \<Rightarrow> dir_entry option \<Rightarrow> segment_file list option" where
  "scan_entry out e =
     (case e of
        None \<Rightarrow> None
      | Some (name, meta) \<Rightarrow>
          if \<not> is_segment name then Some out
          else (case meta of
                  None \<Rightarrow> None
                | Some (is_file, modified) \<Rightarrow>
                    if \<not> is_file then Some out
                    else Some (out @ [\<lparr>sg_name = name, sg_archived_at = (case modified of Some at \<Rightarrow> at | None \<Rightarrow> 0)\<rparr>])))"

definition scan_archive :: "dir_entry option list option \<Rightarrow> segment_file list option" where
  "scan_archive listing =
     (case listing of
        None \<Rightarrow> None
      | Some es \<Rightarrow> map_option (sort_key sg_name) (foldl (\<lambda>out e. Option.bind out (\<lambda>found. scan_entry found e)) (Some []) es))"

text \<open>\<open>max\<close> and \<open>min\<close> of an iterator.\<close>

definition max_of :: "int list \<Rightarrow> int option" where
  "max_of xs = (case xs of [] \<Rightarrow> None | x # rest \<Rightarrow> Some (foldl max x rest))"

definition min_of :: "int list \<Rightarrow> int option" where
  "min_of xs = (case xs of [] \<Rightarrow> None | x # rest \<Rightarrow> Some (foldl min x rest))"

definition wal_coverage :: "segment_file list \<Rightarrow> int option" where
  "wal_coverage segments = max_of (map sg_archived_at segments)"


section \<open>What can be restored\<close>

datatype unreachable =
    NoBaseBackupKept
  | BeforeOldestBase int
  | AfterLastWal int

fun unreachable_describe :: "unreachable \<Rightarrow> string" where
  "unreachable_describe NoBaseBackupKept = ''no base backup: WAL alone restores nothing''"
| "unreachable_describe (BeforeOldestBase oldest) = (''earlier than the oldest base backup ('' @ iso8601 oldest @ '')'')"
| "unreachable_describe (AfterLastWal last_at) = (''later than the last archived journal ('' @ iso8601 last_at @ '')'')"

definition recoverable_window :: "base_backup list \<Rightarrow> int \<Rightarrow> restore_window option" where
  "recoverable_window bases last_wal_at =
     (case min_of (map bb_finished_at bases) of
        None \<Rightarrow> None
      | Some oldest \<Rightarrow>
          if last_wal_at < oldest then None else Some \<lparr>rw_earliest = oldest, rw_latest = last_wal_at\<rparr>)"

definition base_for :: "base_backup list \<Rightarrow> int \<Rightarrow> int \<Rightarrow> unreachable + base_backup" where
  "base_for bases target last_wal_at =
     (if bases = [] then Inl NoBaseBackupKept
      else if target > last_wal_at then Inl (AfterLastWal last_wal_at)
      else case max_by bb_finished_at (filter (\<lambda>b. bb_finished_at b \<le> target) bases) of
             Some b \<Rightarrow> Inr b
           | None \<Rightarrow> Inl (BeforeOldestBase (case min_of (map bb_finished_at bases) of Some t \<Rightarrow> t | None \<Rightarrow> target)))"

definition wal_prunable_before :: "base_backup list \<Rightarrow> int option" where
  "wal_prunable_before bases = min_of (map bb_finished_at bases)"

definition render_recovery :: "wal_archive \<Rightarrow> int \<Rightarrow> string" where
  "render_recovery archive target =
     (''# Generated by Homelabus '' @ em_dash @ '' point-in-time recovery.'' @ newline @ ''# '' @
      warning_sign @ '' ALSO create an empty `recovery.signal` file in the data directory:'' @ newline @
      ''# without it, PostgreSQL starts normally and ignores all of this.'' @ newline @
      ''restore_command = '' @ single_quote @ restore_command archive @ single_quote @ newline @
      ''recovery_target_time = '' @ single_quote @ pg_timestamp target @ single_quote @ newline @
      ''# `promote`: the server becomes writable once the target is reached. The'' @ newline @
      ''# default (`pause`) leaves it read-only, which looks a great deal like a'' @ newline @
      ''# failed restore.'' @ newline @ ''recovery_target_action = '' @ single_quote @ ''promote'' @
      single_quote @ newline @
      ''# After a recovery, PostgreSQL creates a new timeline. Without this setting,'' @ newline @
      ''# a SECOND restore to the same point would follow the original timeline and'' @ newline @
      ''# would not find the expected journals.'' @ newline @ ''recovery_target_timeline = '' @
      single_quote @ ''latest'' @ single_quote @ newline)"

record recovery_plan =
  rp_base :: base_backup
  rp_target :: int
  rp_wal_replay_secs :: int
  rp_config :: string

text \<open>A refusal is the target and the reason of the \<open>Pitr\<close> error.\<close>

definition plan_recovery :: "base_backup list \<Rightarrow> int \<Rightarrow> int \<Rightarrow> wal_archive \<Rightarrow> (string \<times> string) + recovery_plan" where
  "plan_recovery bases last_wal_at target archive =
     (case base_for bases target last_wal_at of
        Inl u \<Rightarrow> Inl (iso8601 target, unreachable_describe u)
      | Inr base \<Rightarrow>
          Inr \<lparr>rp_base = base, rp_target = target, rp_wal_replay_secs = wrap_i64 (target - bb_finished_at base),
               rp_config = render_recovery archive target\<rparr>)"

text \<open>\<open>i64\<close> printed, and the divisions of the source, which round to zero.\<close>

definition show_i64 :: "int \<Rightarrow> string" where
  "show_i64 n = (if n < 0 then CHR ''-'' # show_nat (nat (- n)) else show_nat (nat n))"

definition i64_div :: "int \<Rightarrow> int \<Rightarrow> int" where
  "i64_div a b = (if a < 0 then - ((- a) div b) else a div b)"

definition i64_rem :: "int \<Rightarrow> int \<Rightarrow> int" where
  "i64_rem a b = a - i64_div a b * b"

definition show_i64_padded :: "nat \<Rightarrow> int \<Rightarrow> string" where
  "show_i64_padded w n = (if n < 0 then CHR ''-'' # show_padded (w - 1) (nat (- n)) else show_padded w (nat n))"

definition recovery_describe :: "recovery_plan \<Rightarrow> string" where
  "recovery_describe p =
     (''base '' @ (bb_id (rp_base p)) @ '' ('' @ (iso8601 (bb_finished_at (rp_base p))) @
      ''), replaying '' @ (show_i64 (i64_div (rp_wal_replay_secs p) 3600)) @ '' h '' @
      (show_i64_padded 2 (i64_div (i64_rem (rp_wal_replay_secs p) 3600) 60)) @ '' min up to '' @
      (iso8601 (rp_target p)))"


section \<open>Producing a base backup\<close>

definition POSTGRES_CLIENT :: string where
  "POSTGRES_CLIENT = ''postgres:17-alpine@sha256:b0f9560a2de083e2cc7382e75f808c7381a32852a7ec49117deedb300e552b24''"

record base_target =
  bt_destination :: string
  bt_host :: string
  bt_port :: u16
  bt_user :: string
  bt_password :: string
  bt_network :: "string option"
  bt_image :: string

definition base_target_new :: "string \<Rightarrow> string \<Rightarrow> base_target" where
  "base_target_new destination host =
     \<lparr>bt_destination = destination, bt_host = host, bt_port = 5432, bt_user = ''postgres'', bt_password = [],
      bt_network = None, bt_image = POSTGRES_CLIENT\<rparr>"

definition base_target_credentials :: "string \<Rightarrow> string \<Rightarrow> base_target \<Rightarrow> base_target" where
  "base_target_credentials user password t = t\<lparr>bt_user := user, bt_password := password\<rparr>"

definition base_target_network :: "string \<Rightarrow> base_target \<Rightarrow> base_target" where
  "base_target_network net t = t\<lparr>bt_network := Some net\<rparr>"

definition base_target_image :: "string \<Rightarrow> base_target \<Rightarrow> base_target" where
  "base_target_image i t = t\<lparr>bt_image := i\<rparr>"

definition basebackup_args :: "string \<Rightarrow> string list" where
  "basebackup_args label =
     [''pg_basebackup'', ''--pgdata=/backup'', ''--format=tar'', ''--gzip'', ''--wal-method=stream'',
      ''--checkpoint=fast'', ''--progress'', ''--no-password''] @ [''--label='' @ label]"

text \<open>
  A command is its arguments and the variables of its environment. \<open>pass_by_name\<close> names every
  variable on the command line and keeps its value in the environment.
\<close>

record command =
  cmd_args :: "string list"
  cmd_env :: "(string \<times> string) list"

definition pass_by_name :: "(string \<times> string) list \<Rightarrow> command \<Rightarrow> command" where
  "pass_by_name env c =
     foldl (\<lambda>c (k, v). c\<lparr>cmd_args := cmd_args c @ [''-e'', k], cmd_env := cmd_env c @ [(k, v)]\<rparr>) c env"

definition with_args :: "string list \<Rightarrow> command \<Rightarrow> command" where
  "with_args args c = c\<lparr>cmd_args := cmd_args c @ args\<rparr>"

definition network_args :: "string option \<Rightarrow> string list" where
  "network_args net = (case net of Some n \<Rightarrow> [''--network'', n] | None \<Rightarrow> [])"

definition basebackup_env :: "base_target \<Rightarrow> (string \<times> string) list" where
  "basebackup_env t =
     [(''PGHOST'', bt_host t), (''PGPORT'', show_word (bt_port t)), (''PGUSER'', bt_user t),
      (''PGPASSWORD'', bt_password t)]"

definition basebackup_command :: "base_target \<Rightarrow> string \<Rightarrow> command" where
  "basebackup_command t name =
     with_args ([''-v'', trim_end_char slash (bt_destination t) @ ''/'' @ name @ '':/backup'', bt_image t] @
                basebackup_args name)
       (pass_by_name (basebackup_env t)
         (with_args (network_args (bt_network t)) \<lparr>cmd_args = [''run'', ''--rm''], cmd_env = []\<rparr>))"

definition explain_basebackup :: "string \<Rightarrow> string" where
  "explain_basebackup stderr =
     (if str_contains stderr ''no pg_hba.conf entry for replication'' then
        (stderr @ newline @ newline @ red_circle @
         '' pg_basebackup uses the REPLICATION protocol, which pg_hba.conf'' @ newline @
         ''treats as a separate database. Connecting with psql therefore proves'' @ newline @
         ''nothing. The official postgres image only allows it from 127.0.0.1 '' @ em_dash @ newline @
         ''never from another container.'' @ newline @ newline @
         ''Add this line to pg_hba.conf, then reload:'' @ newline @
         ''    host replication all all scram-sha-256'' @ newline @ ''    psql -U postgres -c '' @
         single_quote @ ''SELECT pg_reload_conf()'' @ single_quote)
      else if str_contains stderr ''must be superuser or replication role'' \<or>
              str_contains stderr ''permission denied to start WAL sender'' then
        (stderr @ newline @ newline @ red_circle @ '' The user does not have the REPLICATION attribute:'' @
         newline @ ''    ALTER ROLE <user> REPLICATION;'')
      else if str_contains stderr ''directory'' \<and> str_contains stderr ''exists and is not empty'' then
        (stderr @ newline @ newline @
         ''A backup already carries this name. We NEVER overwrite an existing'' @ newline @
         ''backup: move it or delete it by hand if it is useless.'')
      else stderr)"


section \<open>The credentials of a URL\<close>

record db_credentials =
  dc_user :: string
  dc_password :: string
  dc_host :: string
  dc_port :: nat

text \<open>
  \<open>String::from_utf8_lossy\<close>: each maximal start of a sequence that goes no further is one
  replacement character. What may follow a byte is the ranges of the bytes after it.
\<close>

definition replacement_character :: string where
  "replacement_character = [CHR 0xEF, CHR 0xBF, CHR 0xBD]"

definition byte_in_range :: "nat \<times> nat \<Rightarrow> char \<Rightarrow> bool" where
  "byte_in_range r c \<longleftrightarrow> fst r \<le> of_char c \<and> of_char c \<le> snd r"

definition utf8_follow :: "char \<Rightarrow> (nat \<times> nat) list option" where
  "utf8_follow c =
     (let b = (of_char c :: nat); t = (128, 191) in
      if b < 128 then Some []
      else if 194 \<le> b \<and> b \<le> 223 then Some [t]
      else if b = 224 then Some [(160, 191), t]
      else if b = 237 then Some [(128, 159), t]
      else if 225 \<le> b \<and> b \<le> 239 then Some [t, t]
      else if b = 240 then Some [(144, 191), t, t]
      else if 241 \<le> b \<and> b \<le> 243 then Some [t, t, t]
      else if b = 244 then Some [(128, 143), t, t]
      else None)"

fun follows :: "(nat \<times> nat) list \<Rightarrow> string \<Rightarrow> nat" where
  "follows (r # rs) (c # cs) = (if byte_in_range r c then Suc (follows rs cs) else 0)"
| "follows _ _ = 0"

function from_utf8_lossy :: "string \<Rightarrow> string" where
  "from_utf8_lossy [] = []"
| "from_utf8_lossy (c # cs) =
     (case utf8_follow c of
        None \<Rightarrow> replacement_character @ from_utf8_lossy cs
      | Some rs \<Rightarrow>
          (let n = follows rs cs in
           (if n = length rs then c # take n cs else replacement_character) @ from_utf8_lossy (drop n cs)))"
  by pat_completeness auto
termination by (relation "measure length") auto

text \<open>
  \<open>percent_decode\<close>. The two bytes after the sign are a number to the source's \<open>from_str_radix\<close>,
  which takes a sign: \<open>%+5\<close> is the byte 5. A byte outside ASCII is never a digit.
\<close>

fun percent_bytes :: "string \<Rightarrow> string" where
  "percent_bytes (c # a # b # s) =
     (if c = CHR ''%'' then
        (case parse_hex_below 256 [a, b] of
           Some v \<Rightarrow> char_of v # percent_bytes s
         | None \<Rightarrow> c # percent_bytes (a # b # s))
      else c # percent_bytes (a # b # s))"
| "percent_bytes (c # s) = c # percent_bytes s"
| "percent_bytes [] = []"

definition percent_decode :: "string \<Rightarrow> string" where
  "percent_decode s = from_utf8_lossy (percent_bytes s)"

definition split_port :: "nat \<Rightarrow> string \<Rightarrow> string \<times> nat" where
  "split_port default_port host =
     (case rsplit_once CHR '':'' host of
        Some (h, p) \<Rightarrow> (h, (case parse_below (2 ^ 16) p of Some n \<Rightarrow> n | None \<Rightarrow> default_port))
      | None \<Rightarrow> (host, default_port))"

definition parse_url_after_scheme :: "string \<Rightarrow> nat \<Rightarrow> db_credentials option" where
  "parse_url_after_scheme remaining default_port =
     Option.bind (rsplit_once CHR ''@'' remaining) (\<lambda>(credentials, rest).
       let (user, password) = (case split_once CHR '':'' credentials of Some p \<Rightarrow> p | None \<Rightarrow> (credentials, []));
           (host, port) = split_port default_port (takeWhile (\<lambda>c. c \<noteq> slash \<and> c \<noteq> CHR ''?'') rest) in
       if host = [] \<or> user = [] then None
       else Some \<lparr>dc_user = percent_decode user, dc_password = percent_decode password, dc_host = host, dc_port = port\<rparr>)"

definition parse_pg_url :: "string \<Rightarrow> db_credentials option" where
  "parse_pg_url url =
     (case strip_prefix url ''postgres://'' of
        Some r \<Rightarrow> parse_url_after_scheme r 5432
      | None \<Rightarrow>
          (case strip_prefix url ''postgresql://'' of
             Some r \<Rightarrow> parse_url_after_scheme r 5432
           | None \<Rightarrow> None))"

definition parse_maria_url :: "string \<Rightarrow> db_credentials option" where
  "parse_maria_url url =
     (case strip_prefix url ''mysql://'' of
        Some r \<Rightarrow> parse_url_after_scheme r 3306
      | None \<Rightarrow>
          (case strip_prefix url ''mariadb://'' of
             Some r \<Rightarrow> parse_url_after_scheme r 3306
           | None \<Rightarrow> None))"

end
