(* ===== verification/Backup.thy ===== *)
theory Backup
  imports Pitr Users Update_Apply
begin

text \<open>
  Backups (\<open>crates/hlb-backup\<close>): how long copies are kept, when one is due, where each class of an
  app's data goes and how fresh it is there, whether a destination's credential can erase it, the
  repository commands, what an app would get back and with what confidence, the drills, and the
  promotion of a database to another node.
\<close>

section \<open>Retention\<close>

record retention_policy =
  rt_hourly :: u32
  rt_daily :: u32
  rt_weekly :: u32
  rt_monthly :: u32
  rt_yearly :: u32

definition default_retention :: retention_policy where
  "default_retention = \<lparr>rt_hourly = 24, rt_daily = 14, rt_weekly = 8, rt_monthly = 12, rt_yearly = 3\<rparr>"

definition retention_args :: "retention_policy \<Rightarrow> string list" where
  "retention_args p =
     concat (map (\<lambda>(flag, n). if n > 0 then [flag, show_word n] else [])
       [(''--keep-hourly'', rt_hourly p), (''--keep-daily'', rt_daily p), (''--keep-weekly'', rt_weekly p),
        (''--keep-monthly'', rt_monthly p), (''--keep-yearly'', rt_yearly p)])"

definition keeps_something :: "retention_policy \<Rightarrow> bool" where
  "keeps_something p \<longleftrightarrow> rt_hourly p + rt_daily p + rt_weekly p + rt_monthly p + rt_yearly p > 0"

definition horizon_days :: "retention_policy \<Rightarrow> u32" where
  "horizon_days p =
     (let d = (0 :: u32);
          d = (if rt_yearly p > 0 then max d (rt_yearly p * 365) else d);
          d = (if rt_monthly p > 0 then max d (rt_monthly p * 30) else d);
          d = (if rt_weekly p > 0 then max d (rt_weekly p * 7) else d) in
      if rt_daily p > 0 then max d (rt_daily p) else d)"


section \<open>Schedules\<close>

text \<open>
  A \<open>Duration\<close> in nanoseconds. \<open>Duration * u32\<close> panics past the largest one: \<open>None\<close>.
\<close>

definition NANOS :: nat where
  "NANOS = 1000000000"

definition DURATION_MAX :: nat where
  "DURATION_MAX = 2 ^ 64 * NANOS - 1"

definition from_secs :: "nat \<Rightarrow> nat" where
  "from_secs s = s * NANOS"

definition default_schedule :: nat where
  "default_schedule = from_secs (4 * 3600)"

definition backup_due :: "nat \<Rightarrow> nat option \<Rightarrow> bool" where
  "backup_due every since = (case since of None \<Rightarrow> True | Some age \<Rightarrow> age \<ge> every)"

definition time_until_due :: "nat \<Rightarrow> nat option \<Rightarrow> nat" where
  "time_until_due every since = (case since of None \<Rightarrow> 0 | Some age \<Rightarrow> every - age)"

definition overdue_after :: "nat \<Rightarrow> nat option" where
  "overdue_after every = (if every * 3 \<le> DURATION_MAX then Some (every * 3) else None)"

definition is_overdue :: "nat \<Rightarrow> nat option \<Rightarrow> bool option" where
  "is_overdue every since =
     (case since of None \<Rightarrow> Some False | Some age \<Rightarrow> map_option (\<lambda>d. age \<ge> d) (overdue_after every))"

definition print_duration :: "nat \<Rightarrow> string" where
  "print_duration d =
     (let secs = d div NANOS in
      if secs mod 86400 = 0 \<and> secs > 0 then show_nat (secs div 86400) @ ''d''
      else if secs mod 3600 = 0 \<and> secs > 0 then show_nat (secs div 3600) @ ''h''
      else if secs mod 60 = 0 \<and> secs > 0 then show_nat (secs div 60) @ ''m''
      else show_nat secs @ ''s'')"

text \<open>
  \<open>split_at\<close> panics inside a character: the outer \<open>None\<close>. The multiplications are those of \<open>u64\<close>.
\<close>

definition char_boundary :: "string \<Rightarrow> nat \<Rightarrow> bool" where
  "char_boundary s i \<longleftrightarrow>
     i = 0 \<or> i = length s \<or> (i < length s \<and> \<not> (128 \<le> (of_char (s ! i) :: nat) \<and> (of_char (s ! i) :: nat) < 192))"

definition unit_secs :: "string \<Rightarrow> nat option" where
  "unit_secs u =
     (if u = ''s'' then Some 1 else if u = ''m'' then Some 60 else if u = ''h'' then Some 3600
      else if u = ''d'' then Some 86400 else None)"

definition parse_duration :: "string \<Rightarrow> nat option option" where
  "parse_duration s0 =
     (let s = trim s0 in
      if s = [] then Some None
      else if \<not> char_boundary s (length s - 1) then None
      else Some
        (case parse_below (2 ^ 64) (butlast s) of
           None \<Rightarrow> None
         | Some n \<Rightarrow>
             (case unit_secs [last s] of
                None \<Rightarrow> None
              | Some k \<Rightarrow>
                  (let secs = (n * k) mod 2 ^ 64 in if secs > 0 then Some (from_secs secs) else None))))"


section \<open>Errors\<close>

datatype backup_error =
    PitrError string string
  | ResticMissing string
  | ResticFailed string string
  | EmptyRetention
  | DumpFailed string string
  | Unexpected string
  | BackupIo string


section \<open>Destinations\<close>

datatype data_class = Critical | Bulky

fun class_name :: "data_class \<Rightarrow> string" where
  "class_name Critical = ''critical''"
| "class_name Bulky = ''bulky''"

definition class_parse :: "string \<Rightarrow> data_class option" where
  "class_parse s =
     (let w = map to_ascii_lowercase (trim s) in
      if w = ''critical'' \<or> w = ''dumps'' then Some Critical
      else if w = ''bulky'' \<or> w = ''volumes'' \<or> w = ''bulk'' then Some Bulky
      else None)"

record destination =
  ds_name :: string
  ds_location :: string
  ds_classes :: "data_class list"
  ds_credentials_secret :: "string option"

definition is_s3 :: "destination \<Rightarrow> bool" where
  "is_s3 d \<longleftrightarrow> (let l = trim_start (ds_location d) in starts_with l ''s3:'' \<or> starts_with l ''s3s:'')"

definition is_remote :: "destination \<Rightarrow> bool" where
  "is_remote d \<longleftrightarrow> is_s3 d \<or> starts_with (trim_start (ds_location d)) ''rest:''"

definition accepts_class :: "destination \<Rightarrow> data_class \<Rightarrow> bool" where
  "accepts_class d c \<longleftrightarrow> c \<in> set (ds_classes d)"

definition masked_location :: "destination \<Rightarrow> string" where
  "masked_location d =
     (case split_once CHR ''@'' (ds_location d) of
        Some (before, after) \<Rightarrow>
          if str_contains before ''://''
          then (let schema = (case split_once_str ''://'' before of Some (s, _) \<Rightarrow> s | None \<Rightarrow> ''s3'') in
                (schema @ ''://'' @ bullet @ bullet @ bullet @ bullet @ ''@'' @ after))
          else ds_location d
      | None \<Rightarrow> ds_location d)"

definition destination_describe :: "destination \<Rightarrow> string" where
  "destination_describe d =
     (let location = masked_location d; classes = map class_name (ds_classes d) in
      if classes = []
      then (ds_name d @ '' -> '' @ location @ ''  '' @ warning_sign @
            '' accepts NO class: nothing will be sent there'')
      else (ds_name d @ '' -> '' @ location @ ''  ['' @ (join_with '', '' classes) @ '']''))"

definition destination_env :: "destination \<Rightarrow> string option \<Rightarrow> backup_error + (string \<times> string) list" where
  "destination_env d credentials =
     (if \<not> is_s3 d then Inr []
      else case credentials of
        None \<Rightarrow> Inl (Unexpected
          (''destination '' @ quote_mark @ ds_name d @ quote_mark @
           '': S3 repository with no credentials. Store them with '' @ quote_mark @ ''hlb backup dest add '' @
           ds_name d @ '' --location '' @ ellipsis @ '' --access-key '' @ ellipsis @ quote_mark))
      | Some i \<Rightarrow>
          (case split_once CHR '':'' i of
             None \<Rightarrow> Inl (Unexpected
               (''destination '' @ quote_mark @ ds_name d @ quote_mark @
              '': unreadable credentials, expected format '' @ quote_mark @ ''access_key:secret_key'' @ quote_mark))
           | Some (key, secret) \<Rightarrow>
               Inr [(''AWS_ACCESS_KEY_ID'', key), (''AWS_SECRET_ACCESS_KEY'', secret)]))"

text \<open>The container a command runs in (\<open>runner.rs\<close>).\<close>

definition RESTIC :: string where
  "RESTIC = (''restic/restic:0.19.1@sha256:136600b6ff6843d61d355f7f71f460a166429f35de6fd11b568fece3c9a4d5'' @
             ''10'')"

record container_runner =
  cr_image :: string
  cr_mounts :: "(string \<times> string) list"
  cr_network :: "string option"

definition container_new :: "string \<Rightarrow> container_runner" where
  "container_new i = \<lparr>cr_image = i, cr_mounts = [], cr_network = None\<rparr>"

definition container_network :: "string \<Rightarrow> container_runner \<Rightarrow> container_runner" where
  "container_network net r = r\<lparr>cr_network := Some net\<rparr>"

definition container_mount :: "string \<Rightarrow> string \<Rightarrow> container_runner \<Rightarrow> container_runner" where
  "container_mount host container r = r\<lparr>cr_mounts := cr_mounts r @ [(host, container)]\<rparr>"

definition container_default :: container_runner where
  "container_default = container_new RESTIC"

definition container_docker ::
  "container_runner \<Rightarrow> string list \<Rightarrow> (string \<times> string) list \<Rightarrow> string option \<Rightarrow> command" where
  "container_docker r args env name =
     with_args (concat (map (\<lambda>(h, c). [''-v'', h @ '':'' @ c]) (cr_mounts r)) @ network_args (cr_network r) @
                [cr_image r] @ args)
       (pass_by_name env
         (with_args (case name of Some n \<Rightarrow> [''-i'', ''--name'', n] | None \<Rightarrow> [])
           \<lparr>cmd_args = [''run'', ''--rm''], cmd_env = []\<rparr>))"

definition container_command :: "container_runner \<Rightarrow> string list \<Rightarrow> (string \<times> string) list \<Rightarrow> command" where
  "container_command r args env = container_docker r args env None"

definition destination_runner :: "destination \<Rightarrow> string option \<Rightarrow> container_runner \<times> string" where
  "destination_runner d network =
     (if is_remote d
      then ((case network of Some n \<Rightarrow> container_network n container_default | None \<Rightarrow> container_default), ds_location d)
      else (container_mount (ds_location d) ''/repo'' container_default, ''/repo''))"


section \<open>Coverage\<close>

datatype copy_state = NeverCopied | Fresh int | Stale int

definition judge :: "int option \<Rightarrow> int \<Rightarrow> copy_state" where
  "judge age threshold =
     (case age of None \<Rightarrow> NeverCopied | Some a \<Rightarrow> if a > threshold then Stale a else Fresh a)"

definition is_alarming :: "copy_state \<Rightarrow> bool" where
  "is_alarming s = (case s of Fresh _ \<Rightarrow> False | _ \<Rightarrow> True)"

record coverage =
  cv_app :: string
  cv_per_destination :: "(string \<times> copy_state) list"
  cv_classes :: "data_class list"

definition needs_backup :: "coverage \<Rightarrow> bool" where
  "needs_backup c \<longleftrightarrow> cv_classes c \<noteq> []"

definition worst_key :: "copy_state \<Rightarrow> int" where
  "worst_key s = (case s of NeverCopied \<Rightarrow> I64_MAX | Stale a \<Rightarrow> a | Fresh a \<Rightarrow> wrap_i64 (- a))"

definition worst :: "coverage \<Rightarrow> copy_state option" where
  "worst c = max_by worst_key (map snd (cv_per_destination c))"

definition alarming :: "coverage \<Rightarrow> (string \<times> copy_state) list" where
  "alarming c = filter (\<lambda>(_, s). is_alarming s) (cv_per_destination c)"

definition up_to_date_copies :: "coverage \<Rightarrow> nat" where
  "up_to_date_copies c = length (filter (\<lambda>(_, s). case s of Fresh _ \<Rightarrow> True | _ \<Rightarrow> False) (cv_per_destination c))"

text \<open>What the trait \<open>CoverageSource\<close> answers.\<close>

record coverage_source =
  co_destinations :: "destination list"
  co_route :: "string \<Rightarrow> data_class \<Rightarrow> string list"
  co_classes :: "string \<Rightarrow> data_class list"
  co_age_of :: "string \<Rightarrow> string \<Rightarrow> data_class \<Rightarrow> int option"

definition destinations_for :: "coverage_source \<Rightarrow> string \<Rightarrow> data_class \<Rightarrow> destination list" where
  "destinations_for src app c =
     (let explicit = co_route src app c in
      if explicit = [] then filter (\<lambda>d. accepts_class d c) (co_destinations src)
      else filter (\<lambda>d. ds_name d \<in> set explicit) (co_destinations src))"

fun older :: "int option \<Rightarrow> int option \<Rightarrow> int option" where
  "older (Some a) (Some b) = Some (max a b)"
| "older _ _ = None"

definition age_step ::
  "coverage_source \<Rightarrow> string \<Rightarrow> data_class \<Rightarrow> (string, int option) btree_map \<Rightarrow> destination \<Rightarrow> (string, int option) btree_map" where
  "age_step src app c ages d =
     (let age = co_age_of src app (ds_name d) c;
          worst_age = (case bt_get ages (ds_name d) of None \<Rightarrow> age | Some seen \<Rightarrow> older seen age) in
      bt_insert (ds_name d) worst_age ages)"

definition ages_of :: "coverage_source \<Rightarrow> string \<Rightarrow> data_class list \<Rightarrow> (string, int option) btree_map" where
  "ages_of src app classes =
     foldl (\<lambda>ages c. foldl (age_step src app c) ages (destinations_for src app c)) [] classes"

definition coverage_of :: "coverage_source \<Rightarrow> string \<Rightarrow> int \<Rightarrow> coverage" where
  "coverage_of src app threshold =
     (let classes = co_classes src app in
      \<lparr>cv_app = app, cv_per_destination = map (\<lambda>(n, age). (n, judge age threshold)) (ages_of src app classes),
       cv_classes = classes\<rparr>)"


section \<open>Erasure\<close>

datatype erasure = Kept string | Erasable string | Unproven string

fun erasure_verdict :: "erasure \<Rightarrow> string" where
  "erasure_verdict (Kept _) = ''kept''"
| "erasure_verdict (Erasable _) = ''erasable''"
| "erasure_verdict (Unproven _) = ''unproven''"

fun erasure_detail :: "erasure \<Rightarrow> string" where
  "erasure_detail (Kept how) = how"
| "erasure_detail (Erasable why) = why"
| "erasure_detail (Unproven why) = why"

definition from_stored :: "string \<Rightarrow> string \<Rightarrow> erasure" where
  "from_stored verdict detail =
     (if verdict = ''kept'' then Kept detail else if verdict = ''erasable'' then Erasable detail else Unproven detail)"

fun erasure_describe :: "erasure \<Rightarrow> string" where
  "erasure_describe (Kept how) = (''cannot be erased with its credential '' @ em_dash @ '' '' @ how)"
| "erasure_describe (Erasable why) = (warning_sign @ '' can be erased '' @ em_dash @ '' '' @ why)"
| "erasure_describe (Unproven why) = (''not proven '' @ em_dash @ '' '' @ why)"

datatype erasure_proof = PathProof | RestProof | S3Proof

definition proof_for :: "destination \<Rightarrow> erasure_proof" where
  "proof_for d =
     (if is_s3 d then S3Proof
      else if starts_with (trim_start (ds_location d)) ''rest:'' then RestProof
      else PathProof)"

definition path_erasure :: erasure where
  "path_erasure = Erasable
     (''a directory: whoever is root on the machine holding it erases it '' @ em_dash @
      '' a restic REST server in --append-only mode, or a versioned S3 bucket, is not'')"

text \<open>The id of a snapshot is hexadecimal: its first eight bytes are characters.\<close>

definition short_id :: "string \<Rightarrow> string" where
  "short_id i = take 8 i"

definition rest_erasure :: "string + unit \<Rightarrow> string \<Rightarrow> erasure" where
  "rest_erasure forget witness =
     (case forget of
        Inr _ \<Rightarrow> Erasable
          (''the witness snapshot '' @ short_id witness @
           '' was deleted: start the REST server with --append-only'')
      | Inl e \<Rightarrow>
          if str_contains e ''response (403)'' \<or> str_contains e ''403 Forbidden''
          then Kept (''the server refused to delete the witness snapshot '' @ short_id witness)
          else Unproven (''deleting the witness failed for another reason: '' @ e))"

record s3_steps =
  s3_versioning :: "(nat \<times> string option) option"
  s3_put :: "(nat \<times> string option) option"
  s3_delete_version :: "nat option"
  s3_get_version :: "nat option"

definition success_code :: "nat \<Rightarrow> bool" where
  "success_code n \<longleftrightarrow> 200 \<le> n \<and> n < 300"

definition debug_code :: "nat option \<Rightarrow> string" where
  "debug_code n = (case n of None \<Rightarrow> ''None'' | Some k \<Rightarrow> ''Some('' @ show_nat k @ '')'')"

definition lifecycle_warning :: string where
  "lifecycle_warning =
     (''a lifecycle rule expiring old versions would still erase them: refuse '' @
      ''s3:PutLifecycleConfiguration to this credential (not tried '' @ em_dash @
      '' trying writes a rule)'')"

definition unversioned :: "s3_steps \<Rightarrow> string option \<Rightarrow> string option" where
  "unversioned st version =
     (case s3_versioning st of
        Some (code, Some s) \<Rightarrow>
          if code = 200 then (if s = ''Enabled'' then None else Some (''versioning is '' @ s))
          else if version = None then Some ''the witness got no version'' else None
      | Some (code, None) \<Rightarrow>
          if code = 200 \<or> code = 501 then Some ''the bucket keeps no versions''
          else if version = None then Some ''the witness got no version'' else None
      | None \<Rightarrow> if version = None then Some ''the witness got no version'' else None)"

definition version_outcome :: "nat option \<Rightarrow> nat option \<Rightarrow> string \<Rightarrow> string \<Rightarrow> erasure" where
  "version_outcome deleted got version witness =
     (case deleted of
        Some d \<Rightarrow>
          if success_code d \<and> got = Some 200 then
            Unproven (''deleting the witness'' @ single_quote @ ''s version was answered '' @ show_nat d @
              '', and it is still there'')
          else if success_code d then
            Erasable (''the credential deleted the witness'' @ single_quote @ ''s version '' @ version @
              '': whoever holds it erases every version '' @ em_dash @
              '' DENY it s3:DeleteObjectVersion (on MinIO, leaving it out is not enough: s3:DeleteObject '' @
              ''deletes versions too)'')
          else if d = 403 \<and> got = Some 200 then
            Kept (''versioned, and deleting the witness'' @ single_quote @ ''s version was refused; '' @ witness @
              '' is still there. '' @ warning_sign @ '' '' @ lifecycle_warning)
          else if d = 403 then
            Unproven (''the witness'' @ single_quote @ ''s version could not be read back ('' @ debug_code got @ '')'')
          else Unproven (''deleting the witness'' @ single_quote @ ''s version was answered '' @ (debug_code (Some d)))
      | None \<Rightarrow> Unproven (''deleting the witness'' @ single_quote @ ''s version was answered '' @ debug_code None))"

definition s3_erasure :: "s3_steps \<Rightarrow> string \<Rightarrow> erasure" where
  "s3_erasure st witness =
     (case s3_put st of
        None \<Rightarrow> Unproven ''the witness was never written''
      | Some (put, version) \<Rightarrow>
          if \<not> success_code put then
            Unproven (''writing the witness '' @ witness @ '' was answered '' @ show_nat put)
          else case unversioned st version of
            Some said \<Rightarrow> Erasable
              (said @ '': a deletion is final '' @ em_dash @ '' and this credential writes, so it deletes'')
          | None \<Rightarrow>
              (case version of
                 None \<Rightarrow> Unproven ''the bucket says it is versioned, and the witness got no version''
               | Some v \<Rightarrow> version_outcome (s3_delete_version st) (s3_get_version st) v witness))"


section \<open>The repository\<close>

record run_output =
  ro_status :: int
  ro_stdout :: string
  ro_stderr :: string

definition output_ok :: "run_output \<Rightarrow> bool" where
  "output_ok r \<longleftrightarrow> ro_status r = 0"

text \<open>
  A runner is an argument with a state of its own; \<open>ru_from\<close> is handed a stream, here its bytes.
\<close>

record 's restic_runner =
  ru_run :: "string list \<Rightarrow> (string \<times> string) list \<Rightarrow> 's \<Rightarrow> (backup_error + run_output) \<times> 's"
  ru_from :: "string list \<Rightarrow> (string \<times> string) list \<Rightarrow> string \<Rightarrow> 's \<Rightarrow> (backup_error + run_output) \<times> 's"

text \<open>\<open>lines\<close>: the separators dropped, with the return before one.\<close>

definition strip_cr :: "string \<Rightarrow> string" where
  "strip_cr l = (case strip_suffix l [CHR 0x0D] of Some r \<Rightarrow> r | None \<Rightarrow> l)"

definition str_lines :: "string \<Rightarrow> string list" where
  "str_lines s =
     (let ps = split_char CHR 0x0A s in
      map strip_cr (butlast ps) @ (if last ps = [] then [] else [last ps]))"

text \<open>Parsing JSON is an argument.\<close>

definition summary_line :: "(string \<Rightarrow> json option) \<Rightarrow> string \<Rightarrow> string option" where
  "summary_line parse_json l =
     Option.bind (parse_json l) (\<lambda>v.
       case report_get v ''message_type'' of
         Some (JString m) \<Rightarrow>
           if m = ''summary'' then
             (case report_get v ''snapshot_id'' of Some (JString i) \<Rightarrow> Some i | _ \<Rightarrow> None)
           else None
       | _ \<Rightarrow> None)"

fun find_map :: "('a \<Rightarrow> 'b option) \<Rightarrow> 'a list \<Rightarrow> 'b option" where
  "find_map f [] = None"
| "find_map f (x # xs) = (case f x of Some y \<Rightarrow> Some y | None \<Rightarrow> find_map f xs)"

definition summary_id :: "(string \<Rightarrow> json option) \<Rightarrow> string \<Rightarrow> backup_error + string" where
  "summary_id parse_json stdout =
     (case find_map (summary_line parse_json) (rev (str_lines stdout)) of
        Some i \<Rightarrow> Inr i
      | None \<Rightarrow> Inl (Unexpected ''restic returned no snapshot id''))"

record snapshot =
  sn_id :: string
  sn_time :: string
  sn_paths :: "string list"
  sn_tags :: "string list"
  sn_hostname :: string

definition snapshot_short_id :: "snapshot \<Rightarrow> string" where
  "snapshot_short_id s = take 8 (sn_id s)"

text \<open>\<open>rfind\<close> of several characters.\<close>

definition rfind_when :: "(char \<Rightarrow> bool) \<Rightarrow> string \<Rightarrow> nat option" where
  "rfind_when P s = (case split_when P (rev s) of None \<Rightarrow> None | Some (a, _) \<Rightarrow> Some (length s - length a - 1))"

definition clock_offset :: "string \<Rightarrow> string \<Rightarrow> (string \<times> int) option" where
  "clock_offset t clock =
     (case strip_suffix clock ''Z'' of
        Some _ \<Rightarrow> Some (take (length t - 1) t, 0)
      | None \<Rightarrow>
          Option.bind (rfind_when (\<lambda>c. c = CHR ''+'' \<or> c = CHR ''-'') clock) (\<lambda>at.
            let sign = (if starts_with (drop at clock) ''-'' then -1 else 1 :: int) in
            Option.bind (split_once CHR '':'' (drop (at + 1) clock)) (\<lambda>(h, m).
              case (parse_i64 h, parse_i64 m) of
                (Some h, Some m) \<Rightarrow>
                  Some (take (length t - (length clock - at)) t, wrap_i64 (sign * wrap_i64 (h * 3600 + m * 60)))
              | _ \<Rightarrow> None)))"

definition snapshot_epoch :: "snapshot \<Rightarrow> int option" where
  "snapshot_epoch s =
     (let t = trim (sn_time s) in
      Option.bind (split_once CHR ''T'' t) (\<lambda>(_, clock).
        Option.bind (clock_offset t clock) (\<lambda>(local, offset).
          map_option (\<lambda>e. wrap_i64 (e - offset)) (parse_utc (hd (split_char CHR ''.'' local))))))"

definition DEFAULT_HOST :: string where
  "DEFAULT_HOST = ''homelabus''"

definition LOCK_WAIT :: string where
  "LOCK_WAIT = ''10m''"

definition NFS4_ACL :: string where
  "NFS4_ACL = ''system.nfs4_acl''"

definition DUMP_KIND :: string where
  "DUMP_KIND = ''kind:sql-dump''"

definition waiting_args :: "string list \<Rightarrow> string list" where
  "waiting_args args = args @ [''--retry-lock'', LOCK_WAIT]"

record 's repository =
  re_runner :: "'s restic_runner"
  re_location :: string
  re_password :: string
  re_host :: string
  re_extra_env :: "(string \<times> string) list"

definition repository_new :: "'s restic_runner \<Rightarrow> string \<Rightarrow> string \<Rightarrow> 's repository" where
  "repository_new r location password =
     \<lparr>re_runner = r, re_location = location, re_password = password, re_host = DEFAULT_HOST, re_extra_env = []\<rparr>"

definition with_extra_env :: "(string \<times> string) list \<Rightarrow> 's repository \<Rightarrow> 's repository" where
  "with_extra_env vars r = r\<lparr>re_extra_env := vars\<rparr>"

definition with_host :: "string \<Rightarrow> 's repository \<Rightarrow> 's repository" where
  "with_host h r = r\<lparr>re_host := h\<rparr>"

definition repository_env :: "'s repository \<Rightarrow> (string \<times> string) list" where
  "repository_env r =
     [(''RESTIC_REPOSITORY'', re_location r), (''RESTIC_PASSWORD'', re_password r)] @ re_extra_env r"

definition restic_exec :: "'s repository \<Rightarrow> string list \<Rightarrow> 's \<Rightarrow> (backup_error + run_output) \<times> 's" where
  "restic_exec r args s =
     (case ru_run (re_runner r) (waiting_args args) (repository_env r) s of
        (Inl e, s') \<Rightarrow> (Inl e, s')
      | (Inr out, s') \<Rightarrow>
          (if output_ok out then Inr out else Inl (ResticFailed (join_with '' '' args) (trim (ro_stderr out))), s'))"

definition already_there :: "run_output \<Rightarrow> bool" where
  "already_there out \<longleftrightarrow> str_contains (ro_stderr out) ''already initialized'' \<or>
     str_contains (ro_stderr out) ''already exists'' \<or> str_contains (ro_stdout out) ''already initialized''"

definition restic_init :: "'s repository \<Rightarrow> 's \<Rightarrow> (backup_error + unit) \<times> 's" where
  "restic_init r s =
     (case ru_run (re_runner r) [''init''] (repository_env r) s of
        (Inl e, s') \<Rightarrow> (Inl e, s')
      | (Inr out, s') \<Rightarrow>
          (if output_ok out \<or> already_there out then Inr ()
           else Inl (ResticFailed ''init'' (trim (ro_stderr out))), s'))"

definition tag_args :: "string list \<Rightarrow> string list" where
  "tag_args tags = concat (map (\<lambda>t. [''--tag'', t]) tags)"

definition backup_paths ::
  "(string \<Rightarrow> json option) \<Rightarrow> 's repository \<Rightarrow> string list \<Rightarrow> string list \<Rightarrow> 's \<Rightarrow> (backup_error + string) \<times> 's" where
  "backup_paths parse_json r paths tags s =
     (case restic_exec r ([''backup''] @ paths @ [''--json'', ''--host'', re_host r] @ tag_args tags) s of
        (Inl e, s') \<Rightarrow> (Inl e, s')
      | (Inr out, s') \<Rightarrow> (summary_id parse_json (ro_stdout out), s'))"

definition backup_path ::
  "(string \<Rightarrow> json option) \<Rightarrow> 's repository \<Rightarrow> string \<Rightarrow> string list \<Rightarrow> 's \<Rightarrow> (backup_error + string) \<times> 's" where
  "backup_path parse_json r path tags = backup_paths parse_json r [path] tags"

definition backup_stdin ::
  "(string \<Rightarrow> json option) \<Rightarrow> 's repository \<Rightarrow> string \<Rightarrow> string list \<Rightarrow> string \<Rightarrow> 's \<Rightarrow> (backup_error + string) \<times> 's" where
  "backup_stdin parse_json r name tags input s =
     (case ru_from (re_runner r)
             (waiting_args ([''backup'', ''--stdin'', ''--stdin-filename'', name, ''--json''] @
                            [''--host'', re_host r] @ tag_args tags))
             (repository_env r) input s of
        (Inl e, s') \<Rightarrow> (Inl e, s')
      | (Inr out, s') \<Rightarrow>
          (if \<not> output_ok out then Inl (ResticFailed ''backup --stdin'' (trim (ro_stderr out)))
           else summary_id parse_json (ro_stdout out), s'))"

text \<open>Reading the list of snapshots is an argument: the snapshots, or what is wrong with the text.\<close>

definition list_snapshots ::
  "(string \<Rightarrow> string + snapshot list) \<Rightarrow> 's repository \<Rightarrow> string option \<Rightarrow> 's \<Rightarrow> (backup_error + snapshot list) \<times> 's" where
  "list_snapshots read r tag s =
     (case restic_exec r ([''snapshots'', ''--json''] @ (case tag of Some t \<Rightarrow> [''--tag'', t] | None \<Rightarrow> [])) s of
        (Inl e, s') \<Rightarrow> (Inl e, s')
      | (Inr out, s') \<Rightarrow>
          ((case read (ro_stdout out) of
              Inl e \<Rightarrow> Inl (Unexpected (''unreadable snapshot list: '' @ e))
            | Inr l \<Rightarrow> Inr l), s'))"

definition exec_only :: "'s repository \<Rightarrow> string list \<Rightarrow> 's \<Rightarrow> (backup_error + unit) \<times> 's" where
  "exec_only r args s = (case restic_exec r args s of (Inl e, s') \<Rightarrow> (Inl e, s') | (Inr _, s') \<Rightarrow> (Inr (), s'))"

definition restore_snapshot :: "'s repository \<Rightarrow> string \<Rightarrow> string \<Rightarrow> 's \<Rightarrow> (backup_error + unit) \<times> 's" where
  "restore_snapshot r snap target = exec_only r [''restore'', snap, ''--target'', target]"

definition restore_path :: "'s repository \<Rightarrow> string \<Rightarrow> string \<Rightarrow> 's \<Rightarrow> (backup_error + unit) \<times> 's" where
  "restore_path r snap path =
     exec_only r [''restore'', snap @ '':'' @ path, ''--target'', path, ''--delete'', ''--exclude-xattr'', NFS4_ACL]"

definition restore_files_in :: "'s repository \<Rightarrow> string \<Rightarrow> string \<Rightarrow> 's \<Rightarrow> (backup_error + unit) \<times> 's" where
  "restore_files_in r snap dir =
     exec_only r [''restore'', snap @ '':'' @ dir, ''--target'', dir, ''--exclude-xattr'', NFS4_ACL]"

definition forget_snapshot :: "'s repository \<Rightarrow> string \<Rightarrow> 's \<Rightarrow> (backup_error + unit) \<times> 's" where
  "forget_snapshot r i = exec_only r [''forget'', i]"

definition forget_passes :: "retention_policy \<Rightarrow> bool \<Rightarrow> backup_error + string list list" where
  "forget_passes policy prune =
     (if \<not> keeps_something policy then Inl EmptyRetention
      else Inr
        [[''forget''] @ retention_args policy,
         [''forget'', ''--tag'', DUMP_KIND, ''--group-by'', ''host,tags''] @ retention_args policy @
           (if prune then [''--prune''] else [])])"

fun exec_all :: "'s repository \<Rightarrow> string list list \<Rightarrow> 's \<Rightarrow> (backup_error + unit) \<times> 's" where
  "exec_all r [] s = (Inr (), s)"
| "exec_all r (args # rest) s =
     (case exec_only r args s of (Inl e, s') \<Rightarrow> (Inl e, s') | (Inr _, s') \<Rightarrow> exec_all r rest s')"

definition restic_forget :: "'s repository \<Rightarrow> retention_policy \<Rightarrow> bool \<Rightarrow> 's \<Rightarrow> (backup_error + unit) \<times> 's" where
  "restic_forget r policy prune s =
     (case forget_passes policy prune of Inl e \<Rightarrow> (Inl e, s) | Inr passes \<Rightarrow> exec_all r passes s)"

definition restic_check :: "'s repository \<Rightarrow> 's \<Rightarrow> (backup_error + unit) \<times> 's" where
  "restic_check r = exec_only r [''check'']"

end
