(* ===== verification/Recovery.thy ===== *)
theory Recovery
  imports Backup
begin

text \<open>
  Getting a service back (\<open>crates/hlb-backup\<close>): the standbys of a database and what promoting one
  would cost, what an app would get back and with what confidence, the drills and what they may
  touch, and the promotion of a database to a smaller node.
\<close>

section \<open>Drills\<close>

definition ISOLATION :: string where
  "ISOLATION = (''-c listen_addresses='' @ single_quote @ single_quote @
              '' -c archive_mode=off -c max_logical_replication_workers=0'')"

record drill_target =
  dt_container :: string
  dt_disposable :: bool

definition drill_startup_args :: "drill_target \<Rightarrow> string \<Rightarrow> string \<Rightarrow> string list" where
  "drill_startup_args target mount i =
     [''run'', ''-d'', ''--name'', dt_container target, ''--network'', ''none'', ''--entrypoint'', ''sleep'',
      ''-v'', mount, i, ''600'']"

datatype drill_scope = ScopePostgres | ScopeSqlDump

fun scope_describe :: "drill_scope \<Rightarrow> string" where
  "scope_describe ScopePostgres = ''PostgreSQL base backup''"
| "scope_describe ScopeSqlDump = ''logical dump''"

datatype drill_refused =
    NotDisposable string
  | LooksLikeProduction string string
  | NothingToRestore

primrec refused_describe :: "drill_refused \<Rightarrow> string" where
  "refused_describe (NotDisposable container) =
     (red_circle @ '' '' @ quote_mark @ container @ quote_mark @
      '' is not declared disposable. A drill that touches production turns a rehearsal into a '' @
      ''real incident '' @ em_dash @
      '' on a day when everything was fine. Pass --disposable if the target really is a container '' @
      ''created for the occasion.'')"
| "refused_describe (LooksLikeProduction container pattern) =
     (red_circle @ '' '' @ quote_mark @ container @ quote_mark @ '' contains '' @ quote_mark @ pattern @
      quote_mark @ '': that name looks like production. Even with --disposable we refuse '' @ em_dash @
      '' a typo in a container name must not cost a database.'')"
| "refused_describe NothingToRestore =
     (''no backup to restore: the drill would have nothing to prove. Run `hlb backup pitr base '' @
      ''--apply` first.'')"

definition FORBIDDEN_NAMES :: "string list" where
  "FORBIDDEN_NAMES = [''prod'', ''production'', ''live'', ''main'', ''primary'', ''primaire'']"

definition drill_authorize :: "drill_target \<Rightarrow> bool \<Rightarrow> drill_refused + unit" where
  "drill_authorize target has_backup =
     (case find (\<lambda>m. str_contains (lowercase (dt_container target)) m) FORBIDDEN_NAMES of
        Some m \<Rightarrow> Inl (LooksLikeProduction (dt_container target) m)
      | None \<Rightarrow>
          if \<not> dt_disposable target then Inl (NotDisposable (dt_container target))
          else if \<not> has_backup then Inl NothingToRestore
          else Inr ())"

record drill_outcome =
  do_scope :: drill_scope
  do_opened :: bool
  do_tables :: "int option"
  do_seconds :: nat
  do_detail :: string

definition drill_succeeded :: "drill_outcome \<Rightarrow> bool" where
  "drill_succeeded r \<longleftrightarrow> do_opened r \<and> (case do_tables r of Some n \<Rightarrow> n > 0 | None \<Rightarrow> False)"

definition plural_tables :: "int \<Rightarrow> string" where
  "plural_tables n = (if n = 1 then show_i64 n @ '' table'' else show_i64 n @ '' tables'')"

definition drill_describe :: "drill_outcome \<Rightarrow> string" where
  "drill_describe r =
     (let tables = plural_tables (case do_tables r of Some n \<Rightarrow> n | None \<Rightarrow> 0) in
      if drill_succeeded r then
        ((scope_describe (do_scope r)) @ '' restored in '' @ (show_nat (do_seconds r)) @ '' s '' @ em_dash @
         '' '' @ tables @ '' readable'')
      else if do_opened r then
        ((scope_describe (do_scope r)) @ '' opens but holds NOTHING ('' @ tables @
         ''). An empty database restores perfectly '' @ em_dash @
         '' the worst possible result, because it looks like a success.'')
      else ((scope_describe (do_scope r)) @ '' does not open: '' @ do_detail r))"

definition INTERVAL_DAYS :: int where
  "INTERVAL_DAYS = 30"

definition LATE_DAYS :: int where
  "LATE_DAYS = 60"

datatype readiness = Ready int | DueSince int | OverdueSince int | NeverDrilled

definition from_days :: "int option \<Rightarrow> readiness" where
  "from_days days =
     (case days of
        None \<Rightarrow> NeverDrilled
      | Some d \<Rightarrow> if d > LATE_DAYS then OverdueSince d else if d > INTERVAL_DAYS then DueSince d else Ready d)"

definition drill_needs_attention :: "readiness \<Rightarrow> bool" where
  "drill_needs_attention r = (case r of Ready _ \<Rightarrow> False | _ \<Rightarrow> True)"

primrec readiness_describe :: "readiness \<Rightarrow> string" where
  "readiness_describe (Ready days) = (''drilled '' @ show_i64 days @ '' d ago'')"
| "readiness_describe (DueSince days) = (''drilled '' @ show_i64 days @ '' d ago '' @ em_dash @ '' the target is every 30 d'')"
| "readiness_describe (OverdueSince days) =
     (''drilled '' @ show_i64 days @ '' d ago. Past '' @ show_i64 LATE_DAYS @
      '' d the procedure has had time to diverge: a path that moves, a password that rotates, a '' @
      ''version that changes.'')"
| "readiness_describe NeverDrilled =
     (''NEVER drilled. The restore is the least-travelled code path in the system, and the only '' @
      ''one you discover on the worst day.'')"

text \<open>The script of a drill: the directory filled from the archive, the server started isolated.\<close>

definition restore_script :: string where
  "restore_script =
     (''set -e; mkdir -p /var/lib/postgresql/data; rm -rf /var/lib/postgresql/data/*; tar xzf '' @
      ''/backup/base.tar.gz -C /var/lib/postgresql/data; mkdir -p '' @
      ''/var/lib/postgresql/data/pg_wal; tar xzf /backup/pg_wal.tar.gz -C '' @
      ''/var/lib/postgresql/data/pg_wal 2>/dev/null || true; chown -R postgres:postgres '' @
      ''/var/lib/postgresql/data; chmod 700 /var/lib/postgresql/data; su postgres -c '' @ quote_mark @
      ''pg_ctl -D /var/lib/postgresql/data -w -t 60 -l /tmp/pg.log -o '' @ [CHR 0x5C] @ quote_mark @
      ISOLATION @ [CHR 0x5C] @ quote_mark @ '' start'' @ quote_mark @ '' || (cat /tmp/pg.log; exit 1)'')"

definition drill_container_name :: "int \<Rightarrow> string" where
  "drill_container_name at = ''hlb-exercice-'' @ stamp at"


section \<open>What an app would get back\<close>

record restorability =
  rs_app :: string
  rs_rpo_s :: "int option"
  rs_copies :: nat
  rs_stale_since_s :: "int option"
  rs_verified_s_ago :: "int option"
  rs_verification_failed :: bool
  rs_pitr_depth_s :: "int option"
  rs_drills :: readiness

datatype confidence = NoConfidence | Assumed | Previous | Verified

fun confidence_describe :: "confidence \<Rightarrow> string" where
  "confidence_describe NoConfidence = ''none: nothing proves anything at all would come back''"
| "confidence_describe Assumed = ''supposed: copies exist, none has ever been read back''"
| "confidence_describe Previous = ''old: the last successful restore goes back a long way''"
| "confidence_describe Verified = ''verified: a restore succeeded recently''"

definition VERIFICATION_STALE_S :: int where
  "VERIFICATION_STALE_S = 45 * 86400"

definition fresh_age :: "copy_state \<Rightarrow> int option" where
  "fresh_age s = (case s of Fresh a \<Rightarrow> Some a | _ \<Rightarrow> None)"

definition stale_age :: "copy_state \<Rightarrow> int option" where
  "stale_age s = (case s of Stale a \<Rightarrow> Some a | _ \<Rightarrow> None)"

definition compute_restorability :: "coverage \<Rightarrow> int option \<Rightarrow> int option \<Rightarrow> readiness \<Rightarrow> restorability" where
  "compute_restorability c verified_s_ago pitr_depth_s drills =
     (let states = map snd (cv_per_destination c);
          rpo = min_of (List.map_filter fresh_age states) in
      \<lparr>rs_app = cv_app c, rs_rpo_s = rpo, rs_copies = up_to_date_copies c,
       rs_stale_since_s = (if rpo = None then min_of (List.map_filter stale_age states) else None),
       rs_verified_s_ago = verified_s_ago, rs_verification_failed = False, rs_pitr_depth_s = pitr_depth_s,
       rs_drills = drills\<rparr>)"

definition with_failed_verification :: "bool \<Rightarrow> restorability \<Rightarrow> restorability" where
  "with_failed_verification failed r = r\<lparr>rs_verification_failed := failed\<rparr>"

definition confidence_of :: "restorability \<Rightarrow> confidence" where
  "confidence_of r =
     (if rs_rpo_s r = None \<or> rs_copies r = 0 then NoConfidence
      else if rs_verification_failed r then NoConfidence
      else case rs_verified_s_ago r of
             None \<Rightarrow> Assumed
           | Some age \<Rightarrow>
               if age > VERIFICATION_STALE_S then Previous
               else if rs_copies r \<ge> 2 then Verified
               else Previous)"

definition humanise :: "int \<Rightarrow> string" where
  "humanise s =
     (if s < 90 then show_i64 s @ '' s''
      else if s < 5400 then show_i64 (s div 60) @ '' min''
      else if s < 172800 then show_i64 (s div 3600) @ '' h''
      else show_i64 (s div 86400) @ '' d'')"

definition verdict_sentence :: "restorability \<Rightarrow> string" where
  "verdict_sentence r =
     (case rs_rpo_s r of
        None \<Rightarrow>
          (case rs_stale_since_s r of
             Some age \<Rightarrow> (''NO up-to-date copy: the most recent one is '' @ humanise age @
              '' old, and backups have stopped succeeding since.'')
           | None \<Rightarrow> ''NO restore possible: this application has NEVER been backed up.'')
      | Some rpo \<Rightarrow>
          (let copies = (if rs_copies r = 1 then ''the single up-to-date copy''
                         else show_nat (rs_copies r) @ '' up-to-date copies'');
               base = (''you would lose roughly '' @ humanise rpo @ '' of data, from '' @ copies) in
           case rs_pitr_depth_s r of
             Some p \<Rightarrow> (base @ ''. Restore possible at any instant in the past '' @ humanise p @ ''.'')
           | None \<Rightarrow> (base @ ''. Restore possible at the instants of the backups.'')))"

definition remedies :: "restorability \<Rightarrow> string list" where
  "remedies r =
     (if rs_rpo_s r = None then
        [case rs_stale_since_s r of
           Some _ \<Rightarrow> (''understand why the backups are failing: '' @ quote_mark @ ''hlb backup status'' @ quote_mark @
              '' names the destination and its consecutive failure count'')
         | None \<Rightarrow> (''configure a backup: '' @ quote_mark @ ''hlb backup dest add <name> --location <path> --apply'' @
              quote_mark)]
      else
        (if rs_copies r < 2 then
           [''add a second destination: a single copy disappears with the machine carrying it''] else []) @
        (if rs_verification_failed r then
           [(''find out why the last restore verification failed: '' @ quote_mark @ ''hlb backup verify <app>'' @
             quote_mark @ '' says what did not come back'')] else []) @
        (case rs_verified_s_ago r of
           None \<Rightarrow> [(''verify a restore: '' @ quote_mark @ ''hlb backup verify <app>'' @ quote_mark @ '' '' @ em_dash @
              '' a backup never read back is a hypothesis'')]
         | Some age \<Rightarrow>
             if age > VERIFICATION_STALE_S then [(''re-verify a restore: the last one goes back '' @ humanise age)]
             else []) @
        (case rs_drills r of
           NeverDrilled \<Rightarrow> [(''run a recovery drill: '' @ quote_mark @ ''hlb dr exercise'' @ quote_mark @ '' '' @ em_dash @
              '' it is the only reliable indicator'')]
         | OverdueSince _ \<Rightarrow> [(''run a recovery drill: '' @ quote_mark @ ''hlb dr exercise'' @ quote_mark @ '' '' @ em_dash @
              '' it is the only reliable indicator'')]
         | _ \<Rightarrow> []))"


section \<open>Standbys\<close>

definition MAX_SLOT_WAL_KEEP :: string where
  "MAX_SLOT_WAL_KEEP = ''8GB''"

text \<open>
  One character at a time: the bytes that continue one are dropped, and a character outside ASCII
  is then a byte that is neither a letter nor a digit.
\<close>

definition slot_chars :: "string \<Rightarrow> string" where
  "slot_chars s =
     map (\<lambda>c. if is_ascii_lowercase c \<or> is_ascii_uppercase c \<or> is_ascii_digit c then c else CHR ''_'')
       (filter (\<lambda>c. \<not> (128 \<le> (of_char c :: nat) \<and> (of_char c :: nat) < 192)) (lowercase s))"

definition slot_name :: "string \<Rightarrow> backup_error + string" where
  "slot_name standby =
     (let sanitized = slot_chars standby in
      if sanitized = [] \<or> length sanitized > 55
      then Inl (Unexpected (quote_mark @ standby @ quote_mark @ '': standby name unusable as a slot (1 to 55 characters)''))
      else Inr (''hlb_'' @ sanitized))"

definition primary_settings :: "u32 \<Rightarrow> string" where
  "primary_settings max_standbys =
     (''# Generated by Homelabus '' @ em_dash @ '' primary.'' @ newline @ ''# '' @ warning_sign @
      '' wal_level and max_wal_senders require a RESTART, not a reload.'' @ newline @
      ''wal_level = replica'' @ newline @
      ''# One sender per standby, plus a margin for pg_basebackup, which consumes'' @ newline @
      ''# one for the duration of the copy.'' @ newline @ ''max_wal_senders = '' @
      (show_word (max_standbys + 2)) @ newline @ ''max_replication_slots = '' @
      (show_word (max_standbys + 2)) @ newline @ newline @ ''# '' @ red_circle @
      '' THE line that stops a dead standby from saturating the primary'' @ single_quote @ ''s disk.'' @
      newline @ ''# The default (-1) retains WAL WITHOUT LIMIT: past this threshold the slot'' @ newline @
      ''# is invalidated and the standby will have to be rebuilt '' @ em_dash @ '' much preferable'' @
      newline @ ''# to a primary stopped for lack of space.'' @ newline @ ''max_slot_wal_keep_size = '' @
      MAX_SLOT_WAL_KEEP @ newline @ newline @
      ''# Asynchronous: in synchronous mode the primary BLOCKS if the standby goes'' @ newline @
      ''# down. On two nodes, that turns the fallback'' @ single_quote @
      ''s failure into a total outage.'' @ newline @ ''synchronous_commit = on'' @ newline @
      ''synchronous_standby_names = '' @ single_quote @ single_quote @ newline)"

definition standby_settings :: "string \<Rightarrow> u16 \<Rightarrow> string \<Rightarrow> string \<Rightarrow> string" where
  "standby_settings primary_host port slot user =
     (''# Generated by Homelabus '' @ em_dash @ '' standby.'' @ newline @ ''# '' @ warning_sign @
      '' Write into postgresql.auto.conf AFTER `pg_basebackup -R` (which rewrites'' @ newline @
      ''# that file), or apply through ALTER SYSTEM. Before, it is lost.'' @ newline @ ''# '' @
      warning_sign @ '' The `standby.signal` file (EMPTY) must exist in the data directory.'' @ newline @
      ''# Without it, PostgreSQL starts as an independent primary and replicates'' @ newline @
      ''# NOTHING '' @ em_dash @ '' without the slightest warning.'' @ newline @ ''# '' @ red_circle @
      '' The password, the one given to CREATE ROLE: this line replaces the one'' @ newline @
      ''# pg_basebackup wrote, and without it the standby is refused ('' @ quote_mark @ ''no password'' @
      newline @ ''# supplied'' @ quote_mark @ ''), stays in recovery, answers reads '' @ em_dash @
      '' and replicates nothing.'' @ newline @ ''primary_conninfo = '' @ single_quote @ ''host='' @
      primary_host @ '' port='' @ show_word port @ '' user='' @ user @ '' password='' @ ellipsis @
      '' application_name='' @ slot @ single_quote @ newline @ ''primary_slot_name = '' @ single_quote @
      slot @ single_quote @ newline @ newline @
      ''# Answers read queries: that is what allows CHECKING that replication is'' @ newline @
      ''# advancing, instead of discovering it at promotion time.'' @ newline @ ''hot_standby = on'' @
      newline @ newline @ ''# Reports its position to the primary, which feeds pg_stat_replication and'' @
      newline @ ''# makes the lag measurable.'' @ newline @ ''hot_standby_feedback = on'' @ newline)"

record standby_status =
  sb_application_name :: string
  sb_state :: string
  sb_lag_bytes :: "int option"

text \<open>\<open>contains\<close> over what was pushed so far is membership.\<close>

definition indistinguishable :: "standby_status list \<Rightarrow> string list" where
  "indistinguishable standbys =
     (let names = sort (map sb_application_name standbys) in
      foldl (\<lambda>ambiguous name.
          if length (filter (\<lambda>n. n = name) names) > 1 \<and> name \<notin> set ambiguous then ambiguous @ [name] else ambiguous)
        [] names)"

datatype standby_health = Streaming | CatchingUp | Lagging | Disconnected

definition MAX_LAG_BYTES :: int where
  "MAX_LAG_BYTES = 64 * 1024 * 1024"

definition wal_size :: "int \<Rightarrow> string" where
  "wal_size bytes =
     (if bytes < 1024 then show_i64 bytes @ '' B''
      else if bytes < 1024 * 1024 then show_i64 (bytes div 1024) @ '' KB''
      else show_i64 (bytes div (1024 * 1024)) @ '' MB'')"

definition standby_health_of :: "standby_status \<Rightarrow> standby_health" where
  "standby_health_of s =
     (if sb_state s = ''streaming'' then
        (case sb_lag_bytes s of
           Some l \<Rightarrow> if l > MAX_LAG_BYTES then Lagging else Streaming
         | None \<Rightarrow> CatchingUp)
      else if sb_state s = ''catchup'' \<or> sb_state s = ''startup'' then CatchingUp
      else Lagging)"

definition standby_describe :: "standby_status \<Rightarrow> string" where
  "standby_describe s =
     (let lag = (case sb_lag_bytes s of None \<Rightarrow> ''?'' | Some l \<Rightarrow> wal_size l); name = sb_application_name s in
      case standby_health_of s of
        Streaming \<Rightarrow> (check_mark @ '' '' @ name @ '' is keeping up ('' @ lag @ '' behind)'')
      | CatchingUp \<Rightarrow> (orange_circle @ '' '' @ name @ '' is catching up ('' @ lag @ '')'')
      | Lagging \<Rightarrow> (red_circle @ '' '' @ name @ '' has fallen behind '' @ em_dash @ '' state '' @ quote_mark @
              sb_state s @ quote_mark @ '', '' @ lag @ '' behind'')
      | Disconnected \<Rightarrow> (red_circle @ '' '' @ name @ '' is no longer connected''))"

record orphan_slot =
  os_name :: string
  os_retained_bytes :: int
  os_invalidated :: bool

definition is_dangerous :: "orphan_slot \<Rightarrow> bool" where
  "is_dangerous s \<longleftrightarrow> \<not> os_invalidated s \<and> os_retained_bytes s > MAX_LAG_BYTES"

definition orphan_describe :: "orphan_slot \<Rightarrow> string" where
  "orphan_describe s =
     (if os_invalidated s then
        (orange_circle @ '' slot '' @ quote_mark @ os_name s @ quote_mark @
         '' INVALIDATED: it no longer retains WAL, but the matching standby is unrecoverable and '' @
         ''must be rebuilt.'')
      else if is_dangerous s then
        (red_circle @ '' slot '' @ quote_mark @ os_name s @ quote_mark @ '' retains '' @
         (show_i64 (i64_div (os_retained_bytes s) (1024 * 1024))) @
         '' MB of WAL with no consumer. It is filling the PRIMARY'' @ single_quote @
         ''s disk. Restart the standby, or drop the slot:'' @ newline @
         ''    SELECT pg_drop_replication_slot('' @ single_quote @ os_name s @ single_quote @ '');'')
      else
        (orange_circle @ '' slot '' @ quote_mark @ os_name s @ quote_mark @ '' with no consumer, '' @
         (show_i64 (i64_div (os_retained_bytes s) 1024)) @ '' KB retained so far. It will grow up to '' @
         MAX_SLOT_WAL_KEEP @ '' then be invalidated.''))"

datatype promotion =
    Switchover
  | SwitchoverWouldLose int
  | LagUnknown
  | Failover "int option"
  | UnknownStandby

definition decide :: "standby_status list option \<Rightarrow> string \<Rightarrow> promotion" where
  "decide standbys target =
     (case standbys of
        None \<Rightarrow> Failover None
      | Some l \<Rightarrow>
          (case find (\<lambda>s. sb_application_name s = target) l of
             None \<Rightarrow> UnknownStandby
           | Some s \<Rightarrow>
               (case sb_lag_bytes s of
                  Some bytes \<Rightarrow>
                    if standby_health_of s = Streaming \<and> bytes = 0 then Switchover else SwitchoverWouldLose bytes
                | None \<Rightarrow> LagUnknown)))"

definition promotion_is_safe :: "promotion \<Rightarrow> bool" where
  "promotion_is_safe p \<longleftrightarrow> p = Switchover"

fun promotion_describe :: "promotion \<Rightarrow> string" where
  "promotion_describe Switchover = ''the standby is keeping up: promoting it loses nothing''"
| "promotion_describe (SwitchoverWouldLose bytes) =
     (''the standby is '' @ wal_size bytes @
      '' behind. Promoting it now DROPS what it has not replayed - stop the writes and let it '' @
      ''catch up first'')"
| "promotion_describe LagUnknown =
     (''the standby has replayed nothing the primary can measure: what promoting it would drop is '' @
      ''unknown'')"
| "promotion_describe (Failover (Some l)) =
     (''the primary does not answer. The last known lag was '' @ (show_i64 (i64_div l (1024 * 1024))) @
      '' MB, and it may have written since: what is lost cannot be known from here'')"
| "promotion_describe (Failover None) =
     ''the primary does not answer: what is lost cannot be known from here''"
| "promotion_describe UnknownStandby =
     (''this standby is not replicating: it is absent from pg_stat_replication, and its copy is '' @
      ''frozen at whenever it last connected'')"

text \<open>The fields of a line of \<open>psql\<close>: the missing ones are empty texts or nothing, as read.\<close>

definition field :: "nat \<Rightarrow> string list \<Rightarrow> string option" where
  "field i fs = (if i < length fs then Some (fs ! i) else None)"

definition parse_standby :: "string \<Rightarrow> standby_status option" where
  "parse_standby l =
     (let c = split_char CHR ''|'' (trim l); name = trim (hd c) in
      if name = [] then None
      else Some \<lparr>sb_application_name = name,
                 sb_state = trim (case field 1 c of Some v \<Rightarrow> v | None \<Rightarrow> []),
                 sb_lag_bytes = Option.bind (field 2 c) (\<lambda>v. parse_i64 (trim v))\<rparr>)"

definition parse_standbys :: "string \<Rightarrow> standby_status list" where
  "parse_standbys out = List.map_filter parse_standby (str_lines out)"

definition parse_slot :: "string \<Rightarrow> orphan_slot option" where
  "parse_slot l =
     (let c = split_char CHR ''|'' (trim l); name = trim (hd c);
          active = (trim (case field 1 c of Some v \<Rightarrow> v | None \<Rightarrow> []) = ''t'');
          kept = (case Option.bind (field 2 c) (\<lambda>v. parse_i64 (trim v)) of Some k \<Rightarrow> k | None \<Rightarrow> 0);
          invalid = (trim (case field 3 c of Some v \<Rightarrow> v | None \<Rightarrow> []) = ''t'') in
      if name = [] then None
      else if \<not> active then Some \<lparr>os_name = name, os_retained_bytes = kept, os_invalidated = invalid\<rparr>
      else None)"

definition parse_slots :: "string \<Rightarrow> orphan_slot list" where
  "parse_slots out = List.map_filter parse_slot (str_lines out)"


section \<open>Promotion to another node\<close>

datatype pg_profile = NormalProfile | MinimalProfile

definition for_memory :: "nat \<Rightarrow> pg_profile" where
  "for_memory mb = (if mb \<ge> 7168 then NormalProfile else MinimalProfile)"

fun profile_settings :: "pg_profile \<Rightarrow> (string \<times> string) list" where
  "profile_settings NormalProfile =
     [(''shared_buffers'', ''2GB''), (''work_mem'', ''32MB''), (''maintenance_work_mem'', ''512MB''),
      (''max_connections'', ''200''), (''effective_cache_size'', ''6GB'')]"
| "profile_settings MinimalProfile =
     [(''shared_buffers'', ''512MB''), (''work_mem'', ''8MB''), (''maintenance_work_mem'', ''128MB''),
      (''max_connections'', ''50''), (''effective_cache_size'', ''1GB'')]"

fun profile_describe :: "pg_profile \<Rightarrow> string" where
  "profile_describe NormalProfile = ''normal''"
| "profile_describe MinimalProfile = ''reduced (degraded mode)''"

fun tradeoffs :: "pg_profile \<Rightarrow> string list" where
  "tradeoffs NormalProfile = []"
| "tradeoffs MinimalProfile =
     [''analytical queries markedly slower (work_mem divided by 4)'',
      (''50 connections instead of 200 '' @ em_dash @ '' PgBouncer becomes MANDATORY''),
      ''reindexing and VACUUM slower (maintenance_work_mem reduced)'',
      ''no margin: a second heavy app on this node will bring it down'']"

datatype blocked =
    PrimaryStillAlive string
  | NoBaseBackup
  | NotEnoughMemory string nat nat
  | TargetUnreachable string

primrec blocked_describe :: "blocked \<Rightarrow> string" where
  "blocked_describe (PrimaryStillAlive node) =
     (red_circle @ '' '' @ node @
      '' still answers. Promoting now would give TWO PostgreSQL writing, and the two datasets '' @
      ''would diverge. Stop the old primary for good first: docker node update --availability '' @
      ''drain '' @ node)"
| "blocked_describe NoBaseBackup =
     (red_circle @
      '' no base backup: there is nothing to restore. WAL journals alone do not rebuild a '' @
      ''database.'')"
| "blocked_describe (NotEnoughMemory node mb needed_mb) =
     (red_circle @ '' '' @ node @ '' only has '' @ show_nat mb @ '' MB, at least '' @ show_nat needed_mb @
      '' are needed even on the reduced profile. A PostgreSQL that starts then gets killed by the '' @
      ''OOM is worse than a clean refusal: the service looks like it came back.'')"
| "blocked_describe (TargetUnreachable node) =
     (red_circle @ '' '' @ node @ '' does not answer '' @ em_dash @
      '' we do not fail over into the unknown.'')"

definition MIN_MEMORY_MB :: nat where
  "MIN_MEMORY_MB = 2048"

record promotion_plan =
  pm_target_node :: string
  pm_profile :: pg_profile
  pm_base_backup :: string
  pm_recover_to :: int
  pm_apps_resumed :: "string list"
  pm_apps_paused :: "string list"

definition list_or_none :: "string list \<Rightarrow> string" where
  "list_or_none v = (if v = [] then ''none'' else join_with '', '' v)"

definition promotion_plan_describe :: "promotion_plan \<Rightarrow> string" where
  "promotion_plan_describe p =
     (''Promoting PostgreSQL on '' @ pm_target_node p @ '' with the '' @
      (profile_describe (pm_profile p)) @ '' profile'' @ newline) @
     (''  base     : '' @ pm_base_backup p @ '' (replay up to '' @ (iso8601 (pm_recover_to p)) @ '')'' @
      newline) @
     (''  resumed  : '' @ (list_or_none (pm_apps_resumed p)) @ newline) @
     (''  on hold  : '' @ (list_or_none (pm_apps_paused p)) @ newline)"

record host_candidate =
  hc_node :: string
  hc_memory_mb :: nat
  hc_reachable :: bool

definition plan_promotion ::
  "host_candidate \<Rightarrow> string option \<Rightarrow> bool \<Rightarrow> base_backup list \<Rightarrow> int option \<Rightarrow> (string \<times> bool) list \<Rightarrow>
   blocked + promotion_plan" where
  "plan_promotion target primary primary_alive bases coverage apps =
     (if primary_alive then Inl (PrimaryStillAlive (case primary of Some p \<Rightarrow> p | None \<Rightarrow> ''the old primary''))
      else if \<not> hc_reachable target then Inl (TargetUnreachable (hc_node target))
      else if hc_memory_mb target < MIN_MEMORY_MB then
        Inl (NotEnoughMemory (hc_node target) (hc_memory_mb target) MIN_MEMORY_MB)
      else case max_by bb_finished_at bases of
        None \<Rightarrow> Inl NoBaseBackup
      | Some b \<Rightarrow>
          (let recover_to =
                 (case coverage of
                    Some c \<Rightarrow> if c \<ge> bb_finished_at b then c else bb_finished_at b
                  | None \<Rightarrow> bb_finished_at b);
               profile = for_memory (hc_memory_mb target);
               on_hold = (\<lambda>(_, heavy). heavy \<and> profile = MinimalProfile) in
           Inr \<lparr>pm_target_node = hc_node target, pm_profile = profile, pm_base_backup = bb_id b,
                pm_recover_to = recover_to, pm_apps_resumed = map fst (filter (\<lambda>a. \<not> on_hold a) apps),
                pm_apps_paused = map fst (filter on_hold apps)\<rparr>))"

definition render_profile :: "pg_profile \<Rightarrow> string" where
  "render_profile p =
     (''# Generated by Homelabus '' @ em_dash @ '' PostgreSQL resource profile.'' @ newline) @
     (if p = MinimalProfile then
        (''# '' @ red_circle @ '' DEGRADED MODE. These values fit a '' @ quote_mark @ ''light'' @
         quote_mark @ '' node that is already'' @ newline @
         ''# running other things. Raising them will get PostgreSQL killed by the OOM'' @ newline @
         ''# killer '' @ em_dash @ '' sometimes right away, sometimes three days later.'' @ newline @ ''#'' @
         newline @ ''# '' @ warning_sign @
         '' max_connections=50 REQUIRES a PgBouncer in front: without one, the'' @ newline @
         ''# third app gets no connection and fails on '' @ quote_mark @ ''too many clients'' @ quote_mark @
         ''.'' @ newline)
      else []) @
     concat (map (\<lambda>(k, v). (k @ '' = '' @ v @ newline)) (profile_settings p))"

end
