(* ===== verification/Backup_Props.thy ===== *)
theory Backup_Props
  imports Recovery
begin

text \<open>
  What the backup model promises: a restore starts from the right base, no rule of retention
  forgets everything, a destination is fresh only when every class sent to it is, a copy is called
  verified or kept only on evidence, no secret is on a command line, and a promotion called safe
  loses nothing.
\<close>

section \<open>The greatest and the least\<close>

lemma max_by_from:
  fixes key :: "'a \<Rightarrow> 'k::linorder"
  shows "\<exists>b. foldl (\<lambda>best x. case best of None \<Rightarrow> Some x | Some b \<Rightarrow> if key b \<le> key x then Some x else best) (Some a) xs = Some b \<and>
     b \<in> insert a (set xs) \<and> (\<forall>x \<in> insert a (set xs). key x \<le> key b)"
proof (induction xs arbitrary: a)
  case (Cons x xs)
  show ?case
  proof (cases "key a \<le> key x")
    case True
    from Cons.IH [of x] obtain b where b: "foldl (\<lambda>best x. case best of None \<Rightarrow> Some x | Some b \<Rightarrow> if key b \<le> key x then Some x else best) (Some x) xs = Some b"
      "b \<in> insert x (set xs)" "\<forall>y \<in> insert x (set xs). key y \<le> key b" by blast
    moreover have "key a \<le> key b" using b(3) True by (meson insertI1 order_trans)
    ultimately show ?thesis using True by auto
  next
    case False
    from Cons.IH [of a] obtain b where b: "foldl (\<lambda>best x. case best of None \<Rightarrow> Some x | Some b \<Rightarrow> if key b \<le> key x then Some x else best) (Some a) xs = Some b"
      "b \<in> insert a (set xs)" "\<forall>y \<in> insert a (set xs). key y \<le> key b" by blast
    moreover have "key x \<le> key b" using b(3) False by (meson insertI1 le_cases order_trans)
    ultimately show ?thesis using False by auto
  qed
qed simp

lemma max_by_None: "max_by key xs = None \<longleftrightarrow> xs = []"
proof (cases xs)
  case (Cons x ys)
  then show ?thesis using max_by_from [of key x ys] by (auto simp: max_by_def)
qed (simp add: max_by_def)

lemma max_by_Some: "max_by key xs = Some b \<Longrightarrow> b \<in> set xs \<and> (\<forall>x \<in> set xs. key x \<le> key b)"
proof (cases xs)
  case (Cons x ys)
  moreover assume "max_by key xs = Some b"
  ultimately show ?thesis using max_by_from [of key x ys] by (auto simp: max_by_def)
qed (simp add: max_by_def)

lemma foldl_min: "foldl min a xs \<le> a \<and> (\<forall>x \<in> set xs. foldl min a xs \<le> x) \<and> foldl min a xs \<in> insert a (set xs)"
  for a :: int
proof (induction xs arbitrary: a)
  case (Cons x xs)
  show ?case using Cons.IH [of "min a x"] by (auto simp: min_def split: if_splits)
qed simp

lemma min_of_None [simp]: "min_of xs = None \<longleftrightarrow> xs = []"
  by (simp add: min_of_def split: list.split)

lemma min_of_Some: "min_of xs = Some t \<Longrightarrow> t \<in> set xs \<and> (\<forall>x \<in> set xs. t \<le> x)"
  by (cases xs) (use foldl_min in \<open>auto simp: min_of_def\<close>)


section \<open>The base a restore starts from\<close>

text \<open>
  C32: A restore is planned exactly for the targets of the announced window, from the last base
  finished at or before the target, and its journals are never among those that may be pruned.
\<close>

theorem restore_starts_from_newest_base:
  "(\<exists>p. plan_recovery bases last_at target archive = Inr p) = (\<exists>w. recoverable_window bases last_at = Some w \<and> window_contains w target) \<and>
   (\<forall>p \<in> {p. plan_recovery bases last_at target archive = Inr p}.
      rp_base p \<in> set bases \<and> bb_finished_at (rp_base p) \<le> target \<and> target \<le> last_at \<and>
      (\<forall>b \<in> {b \<in> set bases. bb_finished_at b \<le> target}. bb_finished_at b \<le> bb_finished_at (rp_base p)) \<and>
      (\<exists>t. wal_prunable_before bases = Some t \<and> t \<le> bb_finished_at (rp_base p)))"
proof -
  let ?below = "filter (\<lambda>b. bb_finished_at b \<le> target) bases"
  have base: "b \<in> set bases \<and> bb_finished_at b \<le> target \<and> target \<le> last_at \<and> (\<forall>x \<in> set ?below. bb_finished_at x \<le> bb_finished_at b)"
    if "base_for bases target last_at = Inr b" for b
    using that max_by_Some [of bb_finished_at ?below b] by (auto simp: base_for_def split: if_splits option.splits)
  have plan: "plan_recovery bases last_at target archive = Inr p \<Longrightarrow> base_for bases target last_at = Inr (rp_base p)" for p
    by (auto simp: plan_recovery_def split: sum.splits)
  have ex: "(\<exists>p. plan_recovery bases last_at target archive = Inr p) \<longleftrightarrow> (\<exists>b. base_for bases target last_at = Inr b)"
    by (auto simp: plan_recovery_def split: sum.splits)
  have "(\<exists>b. base_for bases target last_at = Inr b) \<longleftrightarrow> target \<le> last_at \<and> ?below \<noteq> []"
    using max_by_None [of bb_finished_at ?below]
    by (auto simp: base_for_def split: option.splits)
  also have "\<dots> \<longleftrightarrow> (\<exists>w. recoverable_window bases last_at = Some w \<and> window_contains w target)"
  proof (cases "min_of (map bb_finished_at bases)")
    case None
    then have "bases = []" by simp
    then show ?thesis by (simp add: recoverable_window_def min_of_def)
  next
    case (Some t)
    note t = min_of_Some [OF Some]
    then have "?below \<noteq> [] \<longleftrightarrow> t \<le> target" by (fastforce simp: filter_empty_conv)
    then show ?thesis using Some by (auto simp: recoverable_window_def window_contains_def)
  qed
  finally have iff: "(\<exists>b. base_for bases target last_at = Inr b) \<longleftrightarrow>
      (\<exists>w. recoverable_window bases last_at = Some w \<and> window_contains w target)" .
  have prune: "\<exists>t. wal_prunable_before bases = Some t \<and> t \<le> bb_finished_at b" if "b \<in> set bases" for b
    using that min_of_Some [of "map bb_finished_at bases"]
    by (cases "min_of (map bb_finished_at bases)") (auto simp: wal_prunable_before_def)
  show ?thesis using ex iff base [OF plan] prune by auto
qed

theorem restore_starts_from_newest_base_witness:
  "\<exists>p. plan_recovery [\<lparr>bb_id = ''a'', bb_finished_at = 10\<rparr>, \<lparr>bb_id = ''b'', bb_finished_at = 20\<rparr>] 40 25 ''/wal'' = Inr p \<and>
     bb_id (rp_base p) = ''b''"
proof -
  let ?bases = "[\<lparr>bb_id = ''a'', bb_finished_at = 10\<rparr>, \<lparr>bb_id = ''b'', bb_finished_at = 20\<rparr>]"
  have w: "recoverable_window ?bases 40 = Some \<lparr>rw_earliest = 10, rw_latest = 40\<rparr>"
    by (simp add: recoverable_window_def min_of_def)
  note T = restore_starts_from_newest_base [of ?bases 40 25 "''/wal''"]
  have ex: "\<exists>w. recoverable_window ?bases 40 = Some w \<and> window_contains w 25"
    by (rule exI [of _ "\<lparr>rw_earliest = 10, rw_latest = 40\<rparr>"]) (simp add: w window_contains_def)
  have "\<exists>p. plan_recovery ?bases 40 25 ''/wal'' = Inr p" unfolding conjunct1 [OF T] by (rule ex)
  then obtain p where p: "plan_recovery ?bases 40 25 ''/wal'' = Inr p" by (elim exE)
  have r: "rp_base p \<in> set ?bases" "\<forall>b \<in> {b \<in> set ?bases. bb_finished_at b \<le> 25}. bb_finished_at b \<le> bb_finished_at (rp_base p)"
    using bspec [OF conjunct2 [OF T], of p] p by simp_all
  have "20 \<le> bb_finished_at (rp_base p)"
    using bspec [OF r(2), of "\<lparr>bb_id = ''b'', bb_finished_at = 20\<rparr>"] by simp
  moreover have "(bb_id b, bb_finished_at b) \<in> {(''a'', 10), (''b'', 20)}" if "b \<in> set ?bases" for b
    using that by auto
  ultimately have "bb_id (rp_base p) = ''b''" using r(1) by fastforce
  with p show ?thesis by (intro exI conjI)
qed


section \<open>Retention\<close>

lemma concat_keeps:
  fixes fs :: "(string \<times> u32) list"
  assumes "(f, n) \<in> set fs" "n \<noteq> 0"
  shows "\<exists>pre post. concat (map (\<lambda>(flag, n). if n > 0 then [flag, show_word n] else []) fs) = pre @ [f, show_nat (unat n)] @ post"
proof -
  obtain xs ys where "fs = xs @ (f, n) # ys" using split_list [OF assms(1)] by blast
  then show ?thesis using assms(2) by (simp add: show_word_def word_gt_0) blast
qed

lemma retention_args_keep:
  assumes "keeps_something p"
  shows "\<exists>pre flag n post. retention_args p = pre @ [flag, show_nat n] @ post \<and> prefix ''--keep-'' flag \<and> 0 < n"
proof -
  define fs where "fs = [(''--keep-hourly'', rt_hourly p), (''--keep-daily'', rt_daily p), (''--keep-weekly'', rt_weekly p),
        (''--keep-monthly'', rt_monthly p), (''--keep-yearly'', rt_yearly p)]"
  have "\<exists>e \<in> set fs. snd e \<noteq> 0"
  proof (rule ccontr)
    assume "\<not> ?thesis"
    then have "rt_hourly p = 0 \<and> rt_daily p = 0 \<and> rt_weekly p = 0 \<and> rt_monthly p = 0 \<and> rt_yearly p = 0"
      by (simp add: fs_def)
    then show False using assms by (simp add: keeps_something_def)
  qed
  then obtain f n where fn: "(f, n) \<in> set fs" "n \<noteq> 0" by auto
  have "list_all (\<lambda>e. prefix ''--keep-'' (fst e)) fs" by (simp add: fs_def)
  then have "prefix ''--keep-'' f" using fn(1) unfolding list_all_iff by fastforce
  moreover have "0 < unat n" using fn(2) by (simp add: unat_gt_0)
  moreover have "retention_args p = concat (map (\<lambda>(flag, n). if n > 0 then [flag, show_word n] else []) fs)"
    unfolding retention_args_def fs_def by (rule refl)
  moreover obtain pre post where
    "concat (map (\<lambda>(flag, n). if n > 0 then [flag, show_word n] else []) fs) = pre @ [f, show_nat (unat n)] @ post"
    using concat_keeps [OF fn] by (elim exE)
  ultimately show ?thesis by (intro exI conjI) simp_all
qed

text \<open>
  C33: Retention never runs a command that forgets every copy: each of its passes asks to keep a
  positive number of copies of some period, whatever the numbers and even when their sum wraps.
\<close>

theorem no_pass_forgets_everything:
  assumes "forget_passes policy prune = Inr passes" "args \<in> set passes"
  shows "\<exists>pre flag n post. args = pre @ [flag, show_nat n] @ post \<and> prefix ''--keep-'' flag \<and> 0 < n"
proof -
  have "keeps_something policy" using assms(1) by (simp add: forget_passes_def split: if_splits)
  then obtain pre flag n post where r: "retention_args policy = pre @ [flag, show_nat n] @ post"
    "prefix ''--keep-'' flag \<and> 0 < n" using retention_args_keep by blast
  have "args \<in> {[''forget''] @ retention_args policy @ [],
      [''forget'', ''--tag'', DUMP_KIND, ''--group-by'', ''host,tags''] @ retention_args policy @
        (if prune then [''--prune''] else [])}"
    using assms by (simp add: forget_passes_def split: if_splits; auto)
  then obtain before after where "args = before @ retention_args policy @ after" by blast
  then have "args = (before @ pre) @ [flag, show_nat n] @ (post @ after)" using r(1) by simp
  then show ?thesis using r(2) by blast
qed

theorem no_pass_forgets_everything_witness:
  "\<exists>pre flag n post. [''forget''] @ retention_args default_retention = pre @ [flag, show_nat n] @ post \<and>
     prefix ''--keep-'' flag \<and> 0 < n"
proof -
  have k: "keeps_something default_retention" by (simp add: keeps_something_def default_retention_def)
  let ?first = "[''forget''] @ retention_args default_retention"
  have "\<exists>rest. forget_passes default_retention True = Inr (?first # rest)"
    unfolding forget_passes_def using k by (simp only: not_True_eq_False if_False) (rule exI, rule refl)
  then obtain rest where "forget_passes default_retention True = Inr (?first # rest)" by (elim exE)
  then show ?thesis by (rule no_pass_forgets_everything) (rule list.set_intros(1))
qed


section \<open>Freshness\<close>

definition sent :: "coverage_source \<Rightarrow> string \<Rightarrow> string \<Rightarrow> data_class set" where
  "sent src app n = {c \<in> set (co_classes src app). n \<in> ds_name ` set (destinations_for src app c)}"

definition arrived_within :: "int \<Rightarrow> int option \<Rightarrow> bool" where
  "arrived_within threshold age = (case age of Some a \<Rightarrow> a \<le> threshold | None \<Rightarrow> False)"

lemma within_older: "arrived_within t (older a b) \<longleftrightarrow> arrived_within t a \<and> arrived_within t b"
  by (cases a; cases b) (auto simp: arrived_within_def)

lemma ages_of_pairs:
  "ages_of src app classes =
     foldl (\<lambda>ages (c, d). age_step src app c ages d) []
       (concat (map (\<lambda>c. map (Pair c) (destinations_for src app c)) classes))"
proof -
  have inner: "foldl (\<lambda>ages (c, d). age_step src app c ages d) acc (map (Pair c) ds) = foldl (age_step src app c) acc ds"
    for acc c ds by (induction ds arbitrary: acc) auto
  have "foldl (\<lambda>ages c. foldl (age_step src app c) ages (destinations_for src app c)) acc classes =
      foldl (\<lambda>ages (c, d). age_step src app c ages d) acc (concat (map (\<lambda>c. map (Pair c) (destinations_for src app c)) classes))"
    for acc by (induction classes arbitrary: acc) (auto simp: inner)
  then show ?thesis by (simp add: ages_of_def)
qed

lemma ages_loop:
  "let m = foldl (\<lambda>ages (c, d). age_step src app c ages d) [] L in
    bt_wf m \<and> (\<forall>n. (case bt_get m n of None \<Rightarrow> n \<notin> (ds_name \<circ> snd) ` set L
      | Some age \<Rightarrow> n \<in> (ds_name \<circ> snd) ` set L \<and>
          (arrived_within t age \<longleftrightarrow> (\<forall>(c, d) \<in> set L. ds_name d = n \<longrightarrow> arrived_within t (co_age_of src app n c)))))"
  unfolding Let_def
proof (induction L rule: rev_induct)
  case (snoc p L)
  obtain c d where p: "p = (c, d)" by fastforce
  let ?m = "foldl (\<lambda>ages (c, d). age_step src app c ages d) [] L"
  have wf: "bt_wf ?m" using snoc by blast
  have at: "(case bt_get ?m n of None \<Rightarrow> n \<notin> (ds_name \<circ> snd) ` set L
      | Some age \<Rightarrow> n \<in> (ds_name \<circ> snd) ` set L \<and>
          (arrived_within t age \<longleftrightarrow> (\<forall>(c, d) \<in> set L. ds_name d = n \<longrightarrow> arrived_within t (co_age_of src app n c))))" for n
    using snoc by blast
  show ?case
  proof (intro conjI allI)
    show "bt_wf (foldl (\<lambda>ages (c, d). age_step src app c ages d) [] (L @ [p]))"
      using wf by (simp add: p age_step_def Let_def bt_wf_insert)
  next
    fix n
    show "case bt_get (foldl (\<lambda>ages (c, d). age_step src app c ages d) [] (L @ [p])) n of
        None \<Rightarrow> n \<notin> (ds_name \<circ> snd) ` set (L @ [p])
      | Some age \<Rightarrow> n \<in> (ds_name \<circ> snd) ` set (L @ [p]) \<and>
          (arrived_within t age \<longleftrightarrow> (\<forall>(c, d) \<in> set (L @ [p]). ds_name d = n \<longrightarrow> arrived_within t (co_age_of src app n c)))"
    proof (cases "ds_name d = n")
      case True
      show ?thesis
        using at [of n] True
        by (cases "bt_get ?m n") (auto simp: p age_step_def Let_def bt_get_insert_fun within_older image_iff)
    next
      case False
      then show ?thesis using at [of n] by (auto simp: p age_step_def Let_def bt_get_insert_fun split: option.splits)
    qed
  qed
qed (simp add: bt_get_def)

lemma judge_Fresh: "(\<exists>a. judge age t = Fresh a) \<longleftrightarrow> arrived_within t age"
  by (auto simp: judge_def arrived_within_def split: option.splits)

text \<open>
  C34: A destination is shown fresh exactly when something of the app is sent to it and every class
  sent there arrived within the threshold: neither another destination's success nor another
  class's ever stands in for a copy that is late or never came.
\<close>

theorem fresh_means_every_class:
  "(\<exists>a. (n, Fresh a) \<in> set (cv_per_destination (coverage_of src app threshold))) \<longleftrightarrow>
     sent src app n \<noteq> {} \<and> (\<forall>c \<in> sent src app n. arrived_within threshold (co_age_of src app n c))"
proof -
  let ?L = "concat (map (\<lambda>c. map (Pair c) (destinations_for src app c)) (co_classes src app))"
  let ?m = "ages_of src app (co_classes src app)"
  have wf: "bt_wf ?m" and at: "case bt_get ?m n of None \<Rightarrow> n \<notin> (ds_name \<circ> snd) ` set ?L
      | Some age \<Rightarrow> n \<in> (ds_name \<circ> snd) ` set ?L \<and>
          (arrived_within threshold age \<longleftrightarrow> (\<forall>(c, d) \<in> set ?L. ds_name d = n \<longrightarrow> arrived_within threshold (co_age_of src app n c)))"
    using ages_loop [of src app ?L threshold] unfolding ages_of_pairs Let_def by blast+
  have L: "n \<in> (ds_name \<circ> snd) ` set ?L \<longleftrightarrow> sent src app n \<noteq> {}" by (auto simp: sent_def image_iff; blast)
  have all: "(\<forall>(c, d) \<in> set ?L. ds_name d = n \<longrightarrow> arrived_within threshold (co_age_of src app n c)) \<longleftrightarrow>
       (\<forall>c \<in> sent src app n. arrived_within threshold (co_age_of src app n c))"
    by (auto simp: sent_def image_iff; blast)
  have "(n, s) \<in> set (map (\<lambda>(n, age). (n, judge age threshold)) m) \<longleftrightarrow> (\<exists>age. (n, age) \<in> set m \<and> judge age threshold = s)"
    for s m by (induction m) auto
  then have "(\<exists>a. (n, Fresh a) \<in> set (cv_per_destination (coverage_of src app threshold))) \<longleftrightarrow>
      (\<exists>age. (n, age) \<in> set ?m \<and> (\<exists>a. judge age threshold = Fresh a))"
    by (simp only: coverage_of_def Let_def coverage.select_convs) blast
  also have "\<dots> \<longleftrightarrow> (\<exists>age. bt_get ?m n = Some age \<and> arrived_within threshold age)"
    using bt_get_Some_set [OF wf] by (simp add: judge_Fresh)
  also have "\<dots> \<longleftrightarrow> sent src app n \<noteq> {} \<and> (\<forall>c \<in> sent src app n. arrived_within threshold (co_age_of src app n c))"
  proof (cases "bt_get ?m n")
    case None
    then have "sent src app n = {}" using at L by (simp only: option.simps not_not)
    then show ?thesis using None by simp
  next
    case (Some age)
    then have "sent src app n \<noteq> {}" "arrived_within threshold age \<longleftrightarrow> (\<forall>c \<in> sent src app n. arrived_within threshold (co_age_of src app n c))"
      using at [unfolded Some, simplified option.simps] L all by blast+
    then show ?thesis using Some by simp
  qed
  finally show ?thesis .
qed

definition ex_nas :: destination where
  "ex_nas = \<lparr>ds_name = ''nas'', ds_location = ''/mnt/nas'', ds_classes = [Critical, Bulky], ds_credentials_secret = None\<rparr>"

definition ex_source :: coverage_source where
  "ex_source = \<lparr>co_destinations = [ex_nas], co_route = \<lambda>_ _. [], co_classes = \<lambda>_. [Critical, Bulky],
     co_age_of = \<lambda>_ _ c. if c = Critical then Some 7200 else None\<rparr>"

theorem fresh_means_every_class_witness:
  "\<not> (\<exists>a. (''nas'', Fresh a) \<in> set (cv_per_destination (coverage_of ex_source ''wiki'' 43200)))"
  unfolding fresh_means_every_class
  by (auto simp: sent_def arrived_within_def ex_source_def ex_nas_def destinations_for_def accepts_class_def Let_def)

text \<open>
  A restore is called verified exactly when at least two copies are up to date, the last
  verification did not fail, and one succeeded within forty-five days.
\<close>

theorem verified_means_two_copies_read_back:
  "confidence_of (with_failed_verification failed (compute_restorability c verified pitr drills)) = Verified \<longleftrightarrow>
     \<not> failed \<and> 2 \<le> up_to_date_copies c \<and> (\<exists>age. verified = Some age \<and> age \<le> VERIFICATION_STALE_S)"
proof -
  let ?states = "map snd (cv_per_destination c)"
  have "length (filter (\<lambda>(_, s). case s of Fresh _ \<Rightarrow> True | _ \<Rightarrow> False) xs) = length (List.map_filter fresh_age (map snd xs))"
    for xs :: "(string \<times> copy_state) list"
    by (induction xs) (auto simp: List.map_filter_simps fresh_age_def split: copy_state.splits)
  then have "up_to_date_copies c \<noteq> 0 \<longleftrightarrow> List.map_filter fresh_age ?states \<noteq> []"
    by (simp only: up_to_date_copies_def length_0_conv)
  moreover have "rs_rpo_s (compute_restorability c verified pitr drills) = None \<longleftrightarrow> List.map_filter fresh_age ?states = []"
    by (simp add: compute_restorability_def Let_def)
  ultimately show ?thesis
    by (auto simp: confidence_of_def with_failed_verification_def compute_restorability_def Let_def
        split: option.splits if_splits)
qed

text \<open>
  The worst of several destinations that are all fresh is the one copied last: the youngest copy,
  and not the oldest.
\<close>

lemma worst_of_fresh_is_youngest:
  assumes "cv_per_destination c = [(''nas'', Fresh 60), (''offsite'', Fresh 40000)]"
  shows "worst c = Some (Fresh 60)"
  using assms by (simp add: worst_def max_by_def worst_key_def wrap_i64_def)


section \<open>Evidence that a copy cannot be erased\<close>

text \<open>
  An S3 destination is called safe exactly when the witness was written under a version the
  bucket keeps, its deletion with the destination's credential was refused, and it was read back.
\<close>

theorem kept_only_on_evidence:
  "(\<exists>how. s3_erasure st witness = Kept how) \<longleftrightarrow>
     (\<exists>code v. s3_put st = Some (code, Some v) \<and> success_code code \<and> unversioned st (Some v) = None \<and>
        s3_delete_version st = Some 403 \<and> s3_get_version st = Some 200)"
proof (cases "s3_put st")
  case (Some p)
  obtain code version where p: "p = (code, version)" by fastforce
  have none: "version = None \<Longrightarrow> unversioned st version = None \<Longrightarrow> s3_erasure st witness \<noteq> Kept how" for how
    by (simp add: s3_erasure_def Some p)
  have some: "version_outcome d g v w = Kept how \<Longrightarrow> d = Some 403 \<and> g = Some 200" for d g v w how
    by (auto simp: version_outcome_def success_code_def split: option.splits if_splits)
  have both: "\<exists>how. version_outcome (Some 403) (Some 200) v w = Kept how" for v w
    by (simp add: version_outcome_def success_code_def)
  show ?thesis
  proof (cases "success_code code \<and> unversioned st version = None")
    case True
    then show ?thesis using none some both by (cases version) (auto simp: s3_erasure_def Some p)
  next
    case False
    then show ?thesis by (auto simp: s3_erasure_def Some p split: option.splits)
  qed
qed (simp add: s3_erasure_def)


section \<open>Secrets and command lines\<close>

lemma pass_by_name_args: "cmd_args (pass_by_name env c) = cmd_args c @ concat (map (\<lambda>(k, _). [''-e'', k]) env)"
proof (induction env arbitrary: c)
  case (Cons e env)
  then show ?case by (cases e) (simp add: pass_by_name_def)
qed (simp add: pass_by_name_def)

text \<open>
  C35: No value of a variable is on the command line of a container: whatever the passwords and the
  keys handed to the repository's commands or to a base backup, the arguments are the same.
\<close>

theorem secrets_never_on_command_line:
  "cmd_args (container_docker r args (map (\<lambda>(k, v). (k, f k v)) env) name) = cmd_args (container_docker r args env name) \<and>
   cmd_args (basebackup_command (t\<lparr>bt_password := p\<rparr>) label) = cmd_args (basebackup_command t label)"
proof -
  have "concat (map (\<lambda>(k, _). [''-e'', k]) (map (\<lambda>(k, v). (k, f k v)) env)) = concat (map (\<lambda>(k, _). [''-e'', k]) env)"
    by (induction env) auto
  then show ?thesis
    by (simp add: container_docker_def basebackup_command_def with_args_def pass_by_name_args basebackup_env_def)
qed


section \<open>Promotions\<close>

lemma parse_standby_fields:
  assumes "parse_standby l = Some s" "sb_lag_bytes s = Some n"
  shows "\<exists>a b c rest. split_char CHR ''|'' (trim l) = a # b # c # rest \<and> trim a = sb_application_name s \<and>
    trim b = sb_state s \<and> parse_i64 (trim c) = Some n"
proof -
  obtain c where c: "field 2 (split_char CHR ''|'' (trim l)) = Some c" "parse_i64 (trim c) = Some n"
    using assms by (auto simp: parse_standby_def Let_def bind_eq_Some_conv split: if_splits)
  then have "2 < length (split_char CHR ''|'' (trim l))" by (auto simp: field_def split: if_splits)
  then obtain a b d rest where f: "split_char CHR ''|'' (trim l) = a # b # d # rest"
    by (cases "split_char CHR ''|'' (trim l)" rule: remdups_adj.cases; cases "tl (tl (split_char CHR ''|'' (trim l)))") auto
  then show ?thesis using assms(1) c by (auto simp: parse_standby_def Let_def field_def split: if_splits)
qed

text \<open>
  C36: A promotion goes without force only when the primary answered and its answer has a line that
  names this standby as streaming and measures its lag as exactly nothing.
\<close>

theorem safe_promotion_loses_nothing:
  assumes "promotion_is_safe (decide (map_option parse_standbys answer) target)"
  shows "\<exists>out l a b c rest. answer = Some out \<and> l \<in> set (str_lines out) \<and>
    split_char CHR ''|'' (trim l) = a # b # c # rest \<and> trim a = target \<and> trim b = ''streaming'' \<and>
    parse_i64 (trim c) = Some 0"
proof -
  obtain out s where s: "answer = Some out" "find (\<lambda>s. sb_application_name s = target) (parse_standbys out) = Some s"
    "standby_health_of s = Streaming" "sb_lag_bytes s = Some 0"
    using assms by (auto simp: promotion_is_safe_def decide_def split: option.splits if_splits)
  have "s \<in> set (parse_standbys out)" "sb_application_name s = target" using s(2) by (auto simp: find_Some_iff)
  then obtain l where l: "l \<in> set (str_lines out)" "parse_standby l = Some s"
    by (auto simp: parse_standbys_def set_map_filter)
  have "sb_state s = ''streaming''" using s(3) by (auto simp: standby_health_of_def split: if_splits option.splits)
  with parse_standby_fields [OF l(2) s(4)] show ?thesis
    using s(1) l(1) \<open>sb_application_name s = target\<close> by metis
qed

theorem safe_promotion_loses_nothing_witness:
  "\<exists>a b c rest. split_char CHR ''|'' (trim ''db2|streaming|0'') = a # b # c # rest \<and> trim b = ''streaming'' \<and>
     parse_i64 (trim c) = Some 0"
proof -
  have lines: "str_lines ''db2|streaming|0'' = [''db2|streaming|0'']" by (simp add: str_lines_def)
  have t: "trim ''db2|streaming|0'' = ''db2|streaming|0''" "trim ''db2'' = ''db2''" "trim ''streaming'' = ''streaming''" "trim ''0'' = ''0''"
    by (rule trim_visible; simp add: visible_def)+
  have "promotion_is_safe (decide (map_option parse_standbys (Some ''db2|streaming|0'')) ''db2'')"
    by (simp add: parse_standbys_def lines List.map_filter_simps parse_standby_def t field_def decide_def
        promotion_is_safe_def standby_health_of_def MAX_LAG_BYTES_def parse_i64_def parse_digits_def digits_value_def
        digit_value_def is_ascii_digit_def in_i64_def I64_MAX_def Let_def numeral_2_eq_2)
  from safe_promotion_loses_nothing [OF this] show ?thesis by (auto simp: lines)
qed

text \<open>
  A database is promoted on another node only when the old primary is not alive, the node
  answers and has the memory; from the newest base, up to an instant that base is replayed to and
  that the journals cover or the base's own end; and every app is resumed or put on hold.
\<close>

theorem promotion_plan_sound:
  assumes "plan_promotion host primary alive bases coverage apps = Inr p"
  shows "\<not> alive \<and> hc_reachable host \<and> MIN_MEMORY_MB \<le> hc_memory_mb host \<and>
    (\<exists>b \<in> set bases. bb_id b = pm_base_backup p \<and> base_for bases (pm_recover_to p) (pm_recover_to p) = Inr b \<and>
       list_all (\<lambda>x. bb_finished_at x \<le> bb_finished_at b) bases \<and>
       (pm_recover_to p = bb_finished_at b \<or> coverage = Some (pm_recover_to p))) \<and>
    mset (pm_apps_resumed p) + mset (pm_apps_paused p) = mset (map fst apps)"
proof -
  obtain b where b: "max_by bb_finished_at bases = Some b" "pm_base_backup p = bb_id b"
    "pm_recover_to p = bb_finished_at b \<or> coverage = Some (pm_recover_to p)" "bb_finished_at b \<le> pm_recover_to p"
    using assms by (auto simp: plan_promotion_def Let_def split: if_splits option.splits)
  note m = max_by_Some [OF b(1)]
  then have "filter (\<lambda>x. bb_finished_at x \<le> pm_recover_to p) bases = bases"
    using b(4) by (intro filter_True) (auto intro: order_trans)
  then have "base_for bases (pm_recover_to p) (pm_recover_to p) = Inr b"
    using b(1) m by (auto simp: base_for_def)
  moreover have "mset (pm_apps_resumed p) + mset (pm_apps_paused p) = mset (map fst apps)"
  proof -
    obtain on_hold where "pm_apps_resumed p = map fst (filter (\<lambda>a. \<not> on_hold a) apps)"
      "pm_apps_paused p = map fst (filter on_hold apps)"
      using assms by (auto simp: plan_promotion_def Let_def split: if_splits option.splits)
    moreover have "mset (map fst (filter (\<lambda>a. \<not> on_hold a) apps)) + mset (map fst (filter on_hold apps)) = mset (map fst apps)"
      by (induction apps) auto
    ultimately show ?thesis by simp
  qed
  ultimately show ?thesis
    using assms m b(2,3) by (auto simp: plan_promotion_def list_all_iff split: if_splits)
qed

theorem promotion_plan_sound_witness:
  "\<exists>p. plan_promotion \<lparr>hc_node = ''light-1'', hc_memory_mb = 4096, hc_reachable = True\<rparr> None False
     [\<lparr>bb_id = ''a'', bb_finished_at = 10\<rparr>] (Some 90) [(''wiki'', True)] = Inr p \<and>
     base_for [\<lparr>bb_id = ''a'', bb_finished_at = 10\<rparr>] (pm_recover_to p) (pm_recover_to p) = Inr \<lparr>bb_id = ''a'', bb_finished_at = 10\<rparr>"
proof -
  obtain p where p: "plan_promotion \<lparr>hc_node = ''light-1'', hc_memory_mb = 4096, hc_reachable = True\<rparr> None False
     [\<lparr>bb_id = ''a'', bb_finished_at = 10\<rparr>] (Some 90) [(''wiki'', True)] = Inr p"
    by (simp add: plan_promotion_def MIN_MEMORY_MB_def max_by_def Let_def)
  from promotion_plan_sound [OF this] show ?thesis using p by auto
qed


section \<open>What is read too widely\<close>

text \<open>Negative minutes are read, and go back from the hour; a duration is cut inside a character.\<close>

lemma negative_minutes_read: "parse_utc ''2024-01-01 10:-5'' = parse_utc ''2024-01-01 09:55''"
  by code_simp

lemma duration_cut_inside_a_character: "parse_duration (''30'' @ [CHR 0xC3, CHR 0xA9]) = None"
  by code_simp

text \<open>A location whose secret holds the separator is shown with what follows it.\<close>

lemma masked_up_to_the_first_separator:
  "masked_location \<lparr>ds_name = ''s'', ds_location = ''s3:https://key:se@cret@host/b'', ds_classes = [], ds_credentials_secret = None\<rparr> =
     ''s3:https://'' @ bullet @ bullet @ bullet @ bullet @ ''@cret@host/b''"
  by code_simp

end
