(* ===== verification/Selfupdate.thy ===== *)
theory Selfupdate
  imports Recovery Token
begin

text \<open>
  The update of Homelabus itself (\<open>crates/hlb-selfupdate\<close>): versions and what may talk to what, the
  plan of an update, the signature a downloaded binary is accepted on, and the switch of the binary
  on disk, one system call at a time. Verifying an Ed25519 signature is an argument.
\<close>

section \<open>Versions\<close>

record app_version =
  av_major :: u32
  av_minor :: u32
  av_patch :: u32

definition app_version_new :: "u32 \<Rightarrow> u32 \<Rightarrow> u32 \<Rightarrow> app_version" where
  "app_version_new major minor patch = \<lparr>av_major = major, av_minor = minor, av_patch = patch\<rparr>"

definition parse_u32 :: "string \<Rightarrow> u32 option" where
  "parse_u32 s = map_option of_nat (parse_below (2 ^ 32) s)"

definition app_version_parse :: "string \<Rightarrow> app_version option" where
  "app_version_parse s0 =
     (let s = takeWhile (\<lambda>c. c \<noteq> CHR ''-'' \<and> c \<noteq> CHR ''+'') (dropWhile (\<lambda>c. c = CHR ''v'') (trim s0)) in
      case split_char CHR ''.'' s of
        [a, b] \<Rightarrow>
          (case (parse_u32 a, parse_u32 b) of
             (Some major, Some minor) \<Rightarrow> Some (app_version_new major minor 0)
           | _ \<Rightarrow> None)
      | [a, b, c] \<Rightarrow>
          (case (parse_u32 a, parse_u32 b, parse_u32 c) of
             (Some major, Some minor, Some patch) \<Rightarrow> Some (app_version_new major minor patch)
           | _ \<Rightarrow> None)
      | _ \<Rightarrow> None)"

definition show_version :: "app_version \<Rightarrow> string" where
  "show_version v = show_word (av_major v) @ ''.'' @ show_word (av_minor v) @ ''.'' @ show_word (av_patch v)"

text \<open>The version of the binary is an argument: what it was compiled as.\<close>

definition current_version :: "string \<Rightarrow> app_version" where
  "current_version pkg = (case app_version_parse pkg of Some v \<Rightarrow> v | None \<Rightarrow> app_version_new 0 0 0)"

text \<open>The derived order: major, then minor, then patch.\<close>

definition semver_key :: "app_version \<Rightarrow> u32 \<times> u32 \<times> u32" where
  "semver_key v = (av_major v, av_minor v, av_patch v)"

datatype compatibility = Compatible | Incompatible string

fun compatibility_describe :: "compatibility \<Rightarrow> string" where
  "compatibility_describe Compatible = ''compatibles''"
| "compatibility_describe (Incompatible reason) = reason"

definition compatible :: "app_version \<Rightarrow> app_version \<Rightarrow> compatibility" where
  "compatible agent controller =
     (if av_major agent \<noteq> av_major controller then
        Incompatible (''agent '' @ show_version agent @ '' and controller '' @ show_version controller @
              '': different MAJOR versions. A major changes the dialogue incompatibly; updating one '' @
              ''without the other would cut control of the cluster.'')
      else Compatible)"

datatype jump = NoJump | PatchJump | MinorJump | MajorJump | Downgrade

definition jump_between :: "app_version \<Rightarrow> app_version \<Rightarrow> jump" where
  "jump_between from_v to_v =
     (if semver_key to_v = semver_key from_v then NoJump
      else if semver_key to_v < semver_key from_v then Downgrade
      else if av_major to_v > av_major from_v then MajorJump
      else if av_minor to_v > av_minor from_v then MinorJump
      else PatchJump)"

definition jump_needs_confirmation :: "jump \<Rightarrow> bool" where
  "jump_needs_confirmation j \<longleftrightarrow> j = MajorJump \<or> j = Downgrade"

fun jump_describe :: "jump \<Rightarrow> string" where
  "jump_describe NoJump = ''no change''"
| "jump_describe PatchJump = ''patch''"
| "jump_describe MinorJump = ''minor version''"
| "jump_describe MajorJump = (red_circle @ '' MAJOR version - a deliberate break'')"
| "jump_describe Downgrade = (red_circle @ '' DOWNGRADE'')"


section \<open>The plan of an update\<close>

record agent_node =
  an_node :: string
  an_version :: "app_version option"

datatype blocker =
    IrreversibleMigration string
  | IncompatibleVersions string
  | UnreachableAgents "string list"
  | NoStateBackup
  | StaleStateBackup int
  | AlreadyCurrent

primrec blocker_describe :: "blocker \<Rightarrow> string" where
  "blocker_describe (IrreversibleMigration name) =
     (red_circle @ '' migration '' @ quote_mark @ name @ quote_mark @
      '' has no inverse. If the new version fails, the previous binary will read a schema it does '' @
      ''not understand - and there will be no way back. Write the `down` first.'')"
| "blocker_describe (IncompatibleVersions detail) = detail"
| "blocker_describe (UnreachableAgents nodes) =
     (red_circle @ '' '' @ (show_nat (length nodes)) @ '' unreachable '' @
      (if length nodes = 1 then ''agent'' else ''agents'') @ '': '' @ (join_with '', '' nodes) @
      ''. A fleet you cannot see does not get updated - silent nodes would stay on version N with '' @
      ''no way to know whether they work.'')"
| "blocker_describe NoStateBackup =
     (red_circle @ '' no backup of Homelabus'' @ single_quote @
      ''s state: a failure during migration would be final. Run `hlb backup run --app hlb` first.'')"
| "blocker_describe (StaleStateBackup age_s) =
     (red_circle @ '' the newest backup of Homelabus'' @ single_quote @ ''s state is '' @
      (show_i64 (i64_div age_s 3600)) @
      '' h old: what changed since would be lost with a failed migration. Run `hlb backup run '' @
      ''--app hlb` first.'')"
| "blocker_describe AlreadyCurrent = ''already up to date''"

definition is_refusal :: "blocker \<Rightarrow> bool" where
  "is_refusal b \<longleftrightarrow> b \<noteq> AlreadyCurrent"

record migration =
  mg_name :: string
  mg_reversible :: bool

record update_preflight =
  pf_from :: app_version
  pf_to :: app_version
  pf_agents :: "agent_node list"
  pf_migrations :: "migration list"
  pf_state_backup_age_s :: "int option"
  pf_no_app_installed :: bool

definition STATE_BACKUP_MAX_AGE_S :: int where
  "STATE_BACKUP_MAX_AGE_S = 24 * 3600"

record self_update_plan =
  su_from :: app_version
  su_to :: app_version
  su_jump :: jump
  su_agents :: "string list"
  su_migrations :: "migration list"

definition one_or_many :: "nat \<Rightarrow> string \<Rightarrow> string" where
  "one_or_many n word = (if n = 1 then word else word @ ''s'')"

definition self_update_describe :: "self_update_plan \<Rightarrow> string" where
  "self_update_describe p =
     (''Update '' @ (show_version (su_from p)) @ '' '' @ right_arrow @ '' '' @ (show_version (su_to p)) @
      '' ('' @ (jump_describe (su_jump p)) @ '')'' @ newline) @
     (''  1. state backup'' @ newline @ ''  2. '' @ (show_nat (length (su_agents p))) @ '' '' @
      (one_or_many (length (su_agents p)) ''agent'') @ '', one at a time: '' @
      (if su_agents p = [] then ''none'' else join_with '', '' (su_agents p)) @ newline) @
     (''  3. controller LAST ('' @ (show_nat (length (su_migrations p))) @ '' reversible '' @
      (one_or_many (length (su_migrations p)) ''migration'') @ '')'' @ newline) @
     (''  4. a dry-run reconciliation to check'' @ newline)"

definition stale_backup :: "update_preflight \<Rightarrow> blocker option" where
  "stale_backup p =
     (if pf_no_app_installed p then None
      else case pf_state_backup_age_s p of
             None \<Rightarrow> Some NoStateBackup
           | Some age \<Rightarrow> if age > STATE_BACKUP_MAX_AGE_S then Some (StaleStateBackup age) else None)"

definition cannot_talk :: "app_version \<Rightarrow> agent_node \<Rightarrow> blocker option" where
  "cannot_talk to_v a =
     (case an_version a of
        None \<Rightarrow> None
      | Some v \<Rightarrow>
          (case compatible v to_v of
             Incompatible reason \<Rightarrow> Some (IncompatibleVersions (an_node a @ '' : '' @ reason))
           | Compatible \<Rightarrow> None))"

definition plan_self_update :: "update_preflight \<Rightarrow> blocker + self_update_plan" where
  "plan_self_update p =
     (case find (\<lambda>m. \<not> mg_reversible m) (pf_migrations p) of
        Some m \<Rightarrow> Inl (IrreversibleMigration (mg_name m))
      | None \<Rightarrow>
          (let j = jump_between (pf_from p) (pf_to p) in
           if j = NoJump then Inl AlreadyCurrent
           else if j = Downgrade then
             Inl (IncompatibleVersions
               (red_circle @ '' '' @ (show_version (pf_to p)) @ '' is EARLIER than '' @ (show_version (pf_from p)) @
              '' - this is not an update. To go back, use `hlb self rollback`, which restores the schema '' @
              ''as well.''))
           else case stale_backup p of
             Some b \<Rightarrow> Inl b
           | None \<Rightarrow>
               (let silent = map an_node (filter (\<lambda>a. an_version a = None) (pf_agents p)) in
                if silent \<noteq> [] then Inl (UnreachableAgents silent)
                else case find_map (cannot_talk (pf_to p)) (pf_agents p) of
                  Some b \<Rightarrow> Inl b
                | None \<Rightarrow>
                    Inr \<lparr>su_from = pf_from p, su_to = pf_to p, su_jump = j,
                         su_agents = sort (map an_node (pf_agents p)), su_migrations = pf_migrations p\<rparr>)))"

record rollback_plan =
  rb_previous_version :: app_version
  rb_previous_binary :: string
  rb_state_export :: string
  rb_undo :: "migration list"

definition undo_order :: "rollback_plan \<Rightarrow> migration list" where
  "undo_order r = rev (rb_undo r)"

definition rollback_describe :: "rollback_plan \<Rightarrow> string" where
  "rollback_describe r =
     (''Back to '' @ (show_version (rb_previous_version r)) @ '':'' @ newline @ ''  binary : '' @
      rb_previous_binary r @ newline @ ''  state  : '' @ rb_state_export r @ newline @ ''  '' @
      (show_nat (length (rb_undo r))) @ '' migrations to undo'')"


section \<open>The signature of a release\<close>

record release_manifest =
  rm_version :: app_version
  rm_sha256 :: string
  rm_signature :: string

datatype rejected =
    Unsigned
  | BadSignature
  | ChecksumMismatch string string
  | WrongVersion app_version app_version
  | BadKey string

text \<open>The fingerprints shortened are hexadecimal.\<close>

primrec rejected_describe :: "rejected \<Rightarrow> string" where
  "rejected_describe Unsigned =
     (red_circle @ '' UNSIGNED binary. This is not '' @ quote_mark @ ''less safe'' @ quote_mark @
      '', it is unusable: nothing says where it came from. An update replaces the binary that '' @
      ''holds the vault key and drives Docker.'')"
| "rejected_describe BadSignature =
     (red_circle @
      '' INVALID SIGNATURE. The file was modified after signing, or it does not come from who you '' @
      ''think. Install nothing and check where this download came from.'')"
| "rejected_describe (ChecksumMismatch expected actual) =
     (red_circle @ '' DIFFERENT FINGERPRINT. Expected '' @ take 8 expected @ ''..., got '' @
      take 8 actual @ ''...'' @ newline @
      ''The manifest is signed but does not describe this file: a truncated download, or the '' @
      ''binary alone was substituted.'')"
| "rejected_describe (WrongVersion expected found) =
     (''the manifest announces '' @ show_version found @ '', '' @ show_version expected @
      '' was requested. A manifest signed for ANOTHER version stays cryptographically valid - '' @
      ''that is how an old vulnerable version gets replayed.'')"
| "rejected_describe (BadKey detail) = (''unreadable public key: '' @ detail)"

definition signed_payload :: "app_version \<Rightarrow> string \<Rightarrow> string" where
  "signed_payload v fingerprint_text = (''hlb-release'' @ newline @ ''version='' @ show_version v @ newline @ ''sha256='' @
              fingerprint_text @ newline)"

text \<open>Two characters at a time; \<open>from_str_radix\<close> takes a sign.\<close>

definition from_hex :: "string \<Rightarrow> u8 list option" where
  "from_hex s0 =
     (let s = trim s0 in
      if odd (length s) then None
      else (let vs = map (parse_hex_below 256) (chunks 2 s) in
            if list_all (\<lambda>v. v \<noteq> None) vs then Some (map (\<lambda>v. of_nat (the v)) vs) else None))"

definition parse_release_key :: "(u8 list \<Rightarrow> string + 'k) \<Rightarrow> string \<Rightarrow> rejected + 'k" where
  "parse_release_key read_key h =
     (case from_hex (trim h) of
        None \<Rightarrow> Inl (BadKey ''invalid hexadecimal'')
      | Some bs \<Rightarrow>
          if length bs \<noteq> 32 then Inl (BadKey ''an Ed25519 key is exactly 32 bytes'')
          else case read_key bs of Inl e \<Rightarrow> Inl (BadKey e) | Inr k \<Rightarrow> Inr k)"

definition verify_release ::
  "('k \<Rightarrow> string \<Rightarrow> u8 list \<Rightarrow> bool) \<Rightarrow> 'k \<Rightarrow> release_manifest \<Rightarrow> app_version \<Rightarrow> u8 list \<Rightarrow> rejected + unit" where
  "verify_release ed_verify key m expected binary =
     (if trim (rm_signature m) = [] then Inl Unsigned
      else case from_hex (rm_signature m) of
        None \<Rightarrow> Inl BadSignature
      | Some sig \<Rightarrow>
          if length sig \<noteq> 64 then Inl BadSignature
          else if \<not> ed_verify key (signed_payload (rm_version m) (rm_sha256 m)) sig then Inl BadSignature
          else if rm_version m \<noteq> expected then Inl (WrongVersion expected (rm_version m))
          else (let actual = sha256_hex binary in
                if \<not> constant_eq actual (rm_sha256 m) then Inl (ChecksumMismatch (rm_sha256 m) actual)
                else Inr ()))"


section \<open>The disk\<close>

text \<open>
  A path is the directory it is in and its file name, if it has one. The disk is the names, each
  of an inode, and the inodes: what a file holds and its permissions. Every system call ends as
  told by the next answer: it does what it says, or fails with a text, having written only so
  many bytes of what it was to write. The instants the disk went through are kept, newest first.
\<close>

record bin_path =
  bp_dir :: string
  bp_name :: "string option"

record inode_file =
  if_bytes :: "u8 list"
  if_mode :: nat

type_synonym names = "bin_path \<rightharpoonup> nat"
type_synonym inodes = "nat \<Rightarrow> inode_file"

datatype syscall_answer = Does | FailsWith string nat

record disk =
  dk_names :: names
  dk_inodes :: inodes
  dk_next :: nat
  dk_answers :: "syscall_answer list"
  dk_seen :: "(names \<times> inodes) list"

text \<open>What a path names at an instant.\<close>

definition file_at :: "names \<times> inodes \<Rightarrow> bin_path \<Rightarrow> inode_file option" where
  "file_at nd p = map_option (snd nd) (fst nd p)"

definition disk_now :: "disk \<Rightarrow> names \<times> inodes" where
  "disk_now d = (dk_names d, dk_inodes d)"

definition next_answer :: "disk \<Rightarrow> syscall_answer \<times> disk" where
  "next_answer d =
     (case dk_answers d of
        [] \<Rightarrow> (Does, d)
      | a # rest \<Rightarrow> (a, d\<lparr>dk_answers := rest\<rparr>))"

definition seen :: "disk \<Rightarrow> disk" where
  "seen d = d\<lparr>dk_seen := disk_now d # dk_seen d\<rparr>"

definition set_names :: "names \<Rightarrow> disk \<Rightarrow> disk" where
  "set_names ns d = seen (d\<lparr>dk_names := ns\<rparr>)"

definition put_bytes :: "nat \<Rightarrow> u8 list \<Rightarrow> disk \<Rightarrow> disk" where
  "put_bytes i bs d = seen (d\<lparr>dk_inodes := (dk_inodes d)(i := (dk_inodes d i)\<lparr>if_bytes := bs\<rparr>)\<rparr>)"

definition put_mode :: "nat \<Rightarrow> nat \<Rightarrow> disk \<Rightarrow> disk" where
  "put_mode i mode d = seen (d\<lparr>dk_inodes := (dk_inodes d)(i := (dk_inodes d i)\<lparr>if_mode := mode\<rparr>)\<rparr>)"

text \<open>\<open>File::create\<close>: the file truncated, or a new one with the permissions of a new file.\<close>

definition NEW_FILE_MODE :: nat where
  "NEW_FILE_MODE = 420"

definition sys_create :: "bin_path \<Rightarrow> disk \<Rightarrow> (string + nat) \<times> disk" where
  "sys_create p d0 =
     (let (a, d) = next_answer d0 in
      case a of
        FailsWith e _ \<Rightarrow> (Inl e, d)
      | Does \<Rightarrow>
          (case dk_names d p of
             Some i \<Rightarrow> (Inr i, put_bytes i [] d)
           | None \<Rightarrow>
               (let i = dk_next d;
                    d1 = d\<lparr>dk_next := i + 1, dk_inodes := (dk_inodes d)(i := \<lparr>if_bytes = [], if_mode = NEW_FILE_MODE\<rparr>)\<rparr> in
                (Inr i, set_names ((dk_names d)(p \<mapsto> i)) d1))))"

definition sys_write_all :: "nat \<Rightarrow> u8 list \<Rightarrow> disk \<Rightarrow> (string + unit) \<times> disk" where
  "sys_write_all i bs d0 =
     (let (a, d) = next_answer d0 in
      case a of
        FailsWith e n \<Rightarrow> (Inl e, put_bytes i (take n bs) d)
      | Does \<Rightarrow> (Inr (), put_bytes i bs d))"

text \<open>Calls that change no name and no file: a flush, reading the metadata.\<close>

definition sys_sync :: "disk \<Rightarrow> (string + unit) \<times> disk" where
  "sys_sync d0 =
     (let (a, d) = next_answer d0 in (case a of FailsWith e _ \<Rightarrow> Inl e | Does \<Rightarrow> Inr (), d))"

definition sys_chmod :: "bin_path \<Rightarrow> nat \<Rightarrow> disk \<Rightarrow> (string + unit) \<times> disk" where
  "sys_chmod p mode d0 =
     (let (a, d) = next_answer d0 in
      case (a, dk_names d p) of
        (Does, Some i) \<Rightarrow> (Inr (), put_mode i mode d)
      | (FailsWith e _, _) \<Rightarrow> (Inl e, d)
      | (Does, None) \<Rightarrow> (Inl ''No such file or directory'', d))"

definition sys_mode :: "bin_path \<Rightarrow> disk \<Rightarrow> (string + nat) \<times> disk" where
  "sys_mode p d0 =
     (let (a, d) = next_answer d0 in
      case (a, dk_names d p) of
        (Does, Some i) \<Rightarrow> (Inr (if_mode (dk_inodes d i)), d)
      | (FailsWith e _, _) \<Rightarrow> (Inl e, d)
      | (Does, None) \<Rightarrow> (Inl ''No such file or directory'', d))"

definition sys_remove :: "bin_path \<Rightarrow> disk \<Rightarrow> (string + unit) \<times> disk" where
  "sys_remove p d0 =
     (let (a, d) = next_answer d0 in
      case (a, dk_names d p) of
        (Does, Some i) \<Rightarrow> (Inr (), set_names ((dk_names d)(p := None)) d)
      | (FailsWith e _, _) \<Rightarrow> (Inl e, d)
      | (Does, None) \<Rightarrow> (Inl ''No such file or directory'', d))"

definition sys_hard_link :: "bin_path \<Rightarrow> bin_path \<Rightarrow> disk \<Rightarrow> (string + unit) \<times> disk" where
  "sys_hard_link p q d0 =
     (let (a, d) = next_answer d0 in
      case (a, dk_names d p, dk_names d q) of
        (Does, Some i, None) \<Rightarrow> (Inr (), set_names ((dk_names d)(q \<mapsto> i)) d)
      | (FailsWith e _, _, _) \<Rightarrow> (Inl e, d)
      | (Does, None, _) \<Rightarrow> (Inl ''No such file or directory'', d)
      | (Does, Some _, Some _) \<Rightarrow> (Inl ''File exists'', d))"

text \<open>
  \<open>fs::copy\<close>: the target created or truncated, given the permissions, and written. A failure may
  have written a part. A file copied onto itself is truncated before it is read.
\<close>

definition sys_copy :: "bin_path \<Rightarrow> bin_path \<Rightarrow> disk \<Rightarrow> (string + unit) \<times> disk" where
  "sys_copy p q d0 =
     (case dk_names d0 p of
        None \<Rightarrow> (Inl ''No such file or directory'', snd (next_answer d0))
      | Some i \<Rightarrow>
          (let file = dk_inodes d0 i in
           case sys_create q d0 of
             (Inl e, d) \<Rightarrow> (Inl e, d)
           | (Inr j, d) \<Rightarrow> sys_write_all j (if i = j then [] else if_bytes file) (put_mode j (if_mode file) d)))"

definition sys_rename :: "bin_path \<Rightarrow> bin_path \<Rightarrow> disk \<Rightarrow> (string + unit) \<times> disk" where
  "sys_rename p q d0 =
     (let (a, d) = next_answer d0 in
      case (a, dk_names d p) of
        (Does, Some i) \<Rightarrow>
          (Inr (), if dk_names d q = Some i then d else set_names ((dk_names d)(q \<mapsto> i, p := None)) d)
      | (FailsWith e _, _) \<Rightarrow> (Inl e, d)
      | (Does, None) \<Rightarrow> (Inl ''No such file or directory'', d))"


section \<open>The switch\<close>

datatype swap_error =
    NotWritable string string
  | NotExecutable bin_path
  | NotABinary string
  | SwapIo string string

definition show_path :: "bin_path \<Rightarrow> string" where
  "show_path p =
     (case bp_name p of
        None \<Rightarrow> bp_dir p
      | Some n \<Rightarrow> if bp_dir p = [] then n else if last (bp_dir p) = slash then bp_dir p @ n else bp_dir p @ ''/'' @ n)"

primrec swap_error_describe :: "swap_error \<Rightarrow> string" where
  "swap_error_describe (NotWritable path detail) =
     (red_circle @ '' '' @ path @ '' is not writable ('' @ detail @ '').'' @ newline @
      ''The switch renames files INSIDE that directory: write permission on it is needed, not '' @
      ''just on the binary.'')"
| "swap_error_describe (NotExecutable path) =
     (red_circle @ '' '' @ show_path path @
      '' has no execute bit. After the switch nothing would start - and there would be no tool '' @
      ''left to repair with.'')"
| "swap_error_describe (NotABinary detail) =
     (red_circle @ '' the downloaded file is not an executable ('' @ detail @
      ''). An HTML error page served instead of the binary? An unfollowed redirect?'')"
| "swap_error_describe (SwapIo step detail) = (''failed during '' @ quote_mark @ step @ quote_mark @ '': '' @ detail)"

definition with_suffix :: "bin_path \<Rightarrow> string \<Rightarrow> bin_path" where
  "with_suffix p sfx = p\<lparr>bp_name := Some ((case bp_name p of Some n \<Rightarrow> n | None \<Rightarrow> ''hlb'') @ sfx)\<rparr>"

definition incoming :: "bin_path \<Rightarrow> bin_path" where
  "incoming p = with_suffix p ''.new''"

definition previous :: "bin_path \<Rightarrow> bin_path" where
  "previous p = with_suffix p ''.previous''"

text \<open>\<open>with_extension\<close>: what follows the last dot of the name, unless the dot is its first byte.\<close>

definition file_stem :: "string \<Rightarrow> string" where
  "file_stem n =
     (case rsplit_once CHR ''.'' n of Some (before, _) \<Rightarrow> if before = [] then n else before | None \<Rightarrow> n)"

definition with_extension :: "bin_path \<Rightarrow> string \<Rightarrow> bin_path" where
  "with_extension p ext =
     (case bp_name p of None \<Rightarrow> p | Some n \<Rightarrow> p\<lparr>bp_name := Some (file_stem n @ ''.'' @ ext)\<rparr>)"

text \<open>The first bytes of a native executable: ELF, and the three Mach-O.\<close>

definition MAGICS :: "u8 list list" where
  "MAGICS = [[0x7F, 0x45, 0x4C, 0x46], [0xCF, 0xFA, 0xED, 0xFE], [0xFE, 0xED, 0xFA, 0xCF], [0xCA, 0xFE, 0xBA, 0xBE]]"

definition text_of :: "u8 list \<Rightarrow> string" where
  "text_of bs = map (\<lambda>b. char_of (unat b)) bs"

definition hex_list :: "u8 list \<Rightarrow> string" where
  "hex_list bs = ''['' @ join_with '', '' (map (\<lambda>b. hex [b]) bs) @ '']''"

definition looks_like_binary :: "u8 list \<Rightarrow> swap_error + unit" where
  "looks_like_binary data =
     (if length data < 4 then Inl (NotABinary (((show_nat (length data)) @ '' bytes only'')))
      else if take 4 data \<in> set MAGICS then Inr ()
      else
        (let start = lowercase (from_utf8_lossy (text_of (take 16 data))) in
         Inl (NotABinary
           (if str_contains start ''<!doctype'' \<or> str_contains start ''<html''
            then ''an HTML page received instead of the binary''
            else if starts_with start ''#!'' then ''a script, not a native executable''
            else ''unknown signature: '' @ hex_list (take 4 data)))))"

definition write_probe :: "bin_path \<Rightarrow> bin_path" where
  "write_probe p = \<lparr>bp_dir = bp_dir p, bp_name = Some ''.hlb-write-probe''\<rparr>"

definition swap_preflight :: "bin_path \<Rightarrow> disk \<Rightarrow> (swap_error + unit) \<times> disk" where
  "swap_preflight p d =
     (case sys_create (write_probe p) d of
        (Inl e, d) \<Rightarrow> (Inl (NotWritable (bp_dir p) e), d)
      | (Inr i, d) \<Rightarrow> (Inr (), snd (sys_remove (write_probe p) d)))"

definition write_synced :: "bin_path \<Rightarrow> u8 list \<Rightarrow> disk \<Rightarrow> (swap_error + unit) \<times> disk" where
  "write_synced p bs d =
     (let io = \<lambda>e d. (Inl (SwapIo ''writing the new binary'' e), d) in
      case sys_create p d of
        (Inl e, d) \<Rightarrow> io e d
      | (Inr i, d) \<Rightarrow>
          (case sys_write_all i bs d of
             (Inl e, d) \<Rightarrow> io e d
           | (Inr _, d) \<Rightarrow>
               (case sys_sync d of
                  (Inl e, d) \<Rightarrow> io e d
                | (Inr _, d) \<Rightarrow> (Inr (), d))))"

definition EXECUTABLE :: nat where
  "EXECUTABLE = 493"

definition executable :: "nat \<Rightarrow> bool" where
  "executable mode \<longleftrightarrow> Bit_Operations.and mode 73 \<noteq> 0"

definition check_executable :: "bin_path \<Rightarrow> disk \<Rightarrow> (swap_error + unit) \<times> disk" where
  "check_executable p d =
     (case sys_mode p d of
        (Inl e, d) \<Rightarrow> (Inl (SwapIo ''reading the permissions'' e), d)
      | (Inr mode, d) \<Rightarrow> (if executable mode then Inr () else Inl (NotExecutable p), d))"

text \<open>The old binary is kept by a link, or by a copy where links are not to be had.\<close>

definition keep_old :: "bin_path \<Rightarrow> disk \<Rightarrow> (swap_error + unit) \<times> disk" where
  "keep_old p d0 =
     (let d = snd (sys_remove (previous p) d0) in
      case sys_hard_link p (previous p) d of
        (Inr _, d) \<Rightarrow> (Inr (), d)
      | (Inl _, d) \<Rightarrow>
          (case sys_copy p (previous p) d of
             (Inl e, d) \<Rightarrow> (Inl (SwapIo ''keeping the old binary'' e), d)
           | (Inr _, d) \<Rightarrow> (Inr (), d)))"

text \<open>One step after the other, up to the first that fails.\<close>

definition and_step :: "(swap_error + 'a) \<times> disk \<Rightarrow> (disk \<Rightarrow> (swap_error + 'b) \<times> disk) \<Rightarrow> (swap_error + 'b) \<times> disk" where
  "and_step r go = (case r of (Inl e, d) \<Rightarrow> (Inl e, d) | (Inr _, d) \<Rightarrow> go d)"

definition set_executable :: "bin_path \<Rightarrow> disk \<Rightarrow> (swap_error + unit) \<times> disk" where
  "set_executable p d =
     (case sys_chmod p EXECUTABLE d of
        (Inl e, d) \<Rightarrow> (Inl (SwapIo ''setting the execute bit'' e), d)
      | (Inr _, d) \<Rightarrow> (Inr (), d))"

definition put_in_place :: "bin_path \<Rightarrow> disk \<Rightarrow> (swap_error + unit) \<times> disk" where
  "put_in_place p d =
     (case sys_rename (incoming p) p d of
        (Inl e, d) \<Rightarrow> (Inl (SwapIo ''putting the new binary in place (old one untouched)'' e), d)
      | (Inr _, d) \<Rightarrow> (Inr (), d))"

definition swap_binary :: "bin_path \<Rightarrow> u8 list \<Rightarrow> disk \<Rightarrow> (swap_error + bin_path) \<times> disk" where
  "swap_binary p binary d =
     (case looks_like_binary binary of
        Inl e \<Rightarrow> (Inl e, d)
      | Inr _ \<Rightarrow>
          and_step (swap_preflight p d) (\<lambda>d.
          and_step (write_synced (incoming p) binary d) (\<lambda>d.
          and_step (set_executable (incoming p) d) (\<lambda>d.
          and_step (check_executable (incoming p) d) (\<lambda>d.
          and_step (keep_old p d) (\<lambda>d.
          and_step (put_in_place p d) (\<lambda>d. (Inr (previous p), snd (sys_sync d)))))))))"

definition rollback_binary :: "bin_path \<Rightarrow> disk \<Rightarrow> (swap_error + unit) \<times> disk" where
  "rollback_binary p d =
     (if dk_names d (previous p) = None then
        (Inl (SwapIo ''rollback'' (show_path (previous p) @ '' is missing - nothing to restore'')), d)
      else
        (let aside = with_extension p ''failed'';
             d1 = snd (sys_remove aside d);
             d2 = snd (sys_rename p aside d1) in
         case sys_rename (previous p) p d2 of
           (Inl e, d) \<Rightarrow> (Inl (SwapIo ''restoring the old binary'' e), d)
         | (Inr _, d) \<Rightarrow> (Inr (), d)))"

end
