(* ===== verification/Selfupdate_Props.thy ===== *)
theory Selfupdate_Props
  imports Selfupdate Token_Props
begin

text \<open>
  What the update of Homelabus itself promises: at every instant of a switch the path of the binary
  names a whole one, whatever fails and wherever; a switch is undone by a rollback; a plan is made
  only for an update that can be undone; and what is installed is what the publisher signed for
  the version asked for.
\<close>

section \<open>System calls\<close>

text \<open>What a call that takes an answer leaves as it was.\<close>

definition same_disk :: "disk \<Rightarrow> disk \<Rightarrow> bool" where
  "same_disk d d' \<longleftrightarrow> dk_names d' = dk_names d \<and> dk_inodes d' = dk_inodes d \<and> dk_next d' = dk_next d \<and> dk_seen d' = dk_seen d"

lemma next_answer_same: "next_answer d = (a, d') \<Longrightarrow> same_disk d d'"
  by (auto simp: next_answer_def same_disk_def split: list.splits)

lemma same_disk_refl [simp]: "same_disk d d"
  by (simp add: same_disk_def)

text \<open>
  The old binary is where it was: its path names its inode, the inode holds it, no inode yet to be
  made is in use, and it was there at every instant seen.
\<close>

definition old_in_place :: "bin_path \<Rightarrow> nat \<Rightarrow> inode_file \<Rightarrow> disk \<Rightarrow> bool" where
  "old_in_place p i old d \<longleftrightarrow> dk_names d p = Some i \<and> dk_inodes d i = old \<and>
     (\<forall>q j. dk_names d q = Some j \<longrightarrow> j < dk_next d) \<and> (\<forall>s \<in> set (dk_seen d). file_at s p = Some old)"

lemma old_same: "old_in_place p i old d \<Longrightarrow> same_disk d d' \<Longrightarrow> old_in_place p i old d'"
  by (simp add: old_in_place_def same_disk_def)

lemma old_put_bytes: "old_in_place p i old d \<Longrightarrow> j \<noteq> i \<Longrightarrow> old_in_place p i old (put_bytes j bs d)"
  by (auto simp: old_in_place_def put_bytes_def seen_def disk_now_def file_at_def)

lemma old_put_mode: "old_in_place p i old d \<Longrightarrow> j \<noteq> i \<Longrightarrow> old_in_place p i old (put_mode j m d)"
  by (auto simp: old_in_place_def put_mode_def seen_def disk_now_def file_at_def)

lemma put_simps [simp]:
  "dk_names (put_bytes j bs d) = dk_names d" "dk_names (put_mode j m d) = dk_names d"
  "dk_inodes (put_bytes j bs d) = (dk_inodes d)(j := (dk_inodes d j)\<lparr>if_bytes := bs\<rparr>)"
  "dk_inodes (put_mode j m d) = (dk_inodes d)(j := (dk_inodes d j)\<lparr>if_mode := m\<rparr>)"
  "dk_names (set_names ns d) = ns" "dk_inodes (set_names ns d) = dk_inodes d"
  "dk_next (set_names ns d) = dk_next d"
  "dk_answers (put_bytes j bs d) = dk_answers d" "dk_answers (put_mode j m d) = dk_answers d"
  "dk_answers (set_names ns d) = dk_answers d"
  by (simp_all add: put_bytes_def put_mode_def set_names_def seen_def)

lemma old_set_names:
  assumes "old_in_place p i old d" "ns p = Some i" "\<And>q j. ns q = Some j \<Longrightarrow> j < dk_next d"
  shows "old_in_place p i old (set_names ns d)"
  using assms by (auto simp: old_in_place_def set_names_def seen_def disk_now_def file_at_def)

text \<open>A file made or truncated beside the binary.\<close>

lemma create_beside:
  assumes "sys_create q d = (r, d')" "old_in_place p i old d" "q \<noteq> p" "dk_names d q \<noteq> Some i"
  shows "old_in_place p i old d' \<and> (\<forall>x. x \<noteq> q \<longrightarrow> dk_names d' x = dk_names d x) \<and>
    (\<forall>x j. x \<noteq> q \<longrightarrow> dk_names d x = Some j \<longrightarrow> dk_names d q \<noteq> Some j \<longrightarrow> dk_inodes d' j = dk_inodes d j) \<and>
    (\<forall>j. r = Inr j \<longrightarrow> j \<noteq> i \<and> dk_names d' q = Some j \<and> if_bytes (dk_inodes d' j) = [] \<and>
       (\<forall>x. x \<noteq> q \<longrightarrow> dk_names d x = Some j \<longrightarrow> dk_names d q = Some j)) \<and>
    (\<forall>e. r = Inl e \<longrightarrow> dk_names d' = dk_names d)"
proof -
  obtain a d1 where a: "next_answer d = (a, d1)" by fastforce
  note s = next_answer_same [OF a]
  have o1: "old_in_place p i old d1" by (rule old_same [OF assms(2) s])
  show ?thesis
  proof (cases a)
    case (FailsWith e n)
    then have "r = Inl e" "d' = d1" using assms(1) a by (simp_all add: sys_create_def)
    then show ?thesis using o1 s by (auto simp: same_disk_def)
  next
    case Does
    show ?thesis
    proof (cases "dk_names d q")
      case (Some j)
      then have "r = Inr j" "d' = put_bytes j [] d1" using assms(1) a Does s by (simp_all add: sys_create_def same_disk_def)
      then show ?thesis using old_put_bytes [OF o1, of j] Some assms(4) s by (auto simp: same_disk_def)
    next
      case None
      define d2 where "d2 = d1\<lparr>dk_next := dk_next d1 + 1, dk_inodes := (dk_inodes d1)(dk_next d1 := \<lparr>if_bytes = [], if_mode = NEW_FILE_MODE\<rparr>)\<rparr>"
      have r: "r = Inr (dk_next d)" "d' = set_names ((dk_names d)(q \<mapsto> dk_next d)) d2"
        using assms(1) a Does s None by (simp_all add: sys_create_def same_disk_def d2_def Let_def)
      have fresh: "dk_names d x = Some j \<Longrightarrow> j \<noteq> dk_next d" for x j using assms(2) by (auto simp: old_in_place_def)
      then have i: "i \<noteq> dk_next d" using assms(2) by (auto simp: old_in_place_def)
      have "old_in_place p i old d2"
        using o1 i s by (auto simp: old_in_place_def d2_def same_disk_def less_Suc_eq)
      moreover have "dk_next d2 = dk_next d + 1" using s by (simp add: d2_def same_disk_def)
      ultimately have "old_in_place p i old d'"
        unfolding r(2) using assms(2,3) by (intro old_set_names) (auto simp: old_in_place_def less_Suc_eq split: if_splits)
      then show ?thesis
        using r i fresh None s by (auto simp: d2_def same_disk_def)
    qed
  qed
qed

lemma write_beside:
  assumes "sys_write_all j bs d = (r, d')" "old_in_place p i old d" "j \<noteq> i"
  shows "old_in_place p i old d' \<and> dk_names d' = dk_names d \<and> (\<forall>x. x \<noteq> j \<longrightarrow> dk_inodes d' x = dk_inodes d x) \<and>
    if_mode (dk_inodes d' j) = if_mode (dk_inodes d j) \<and> (\<forall>u. r = Inr u \<longrightarrow> if_bytes (dk_inodes d' j) = bs)"
proof -
  obtain a d1 where a: "next_answer d = (a, d1)" by fastforce
  note s = next_answer_same [OF a]
  have o1: "old_in_place p i old d1" by (rule old_same [OF assms(2) s])
  show ?thesis
    using assms(1) a s old_put_bytes [OF o1 assms(3)] by (cases a) (auto simp: sys_write_all_def same_disk_def)
qed

lemma sync_same: "sys_sync d = (r, d') \<Longrightarrow> same_disk d d'"
  by (auto simp: sys_sync_def split: prod.splits dest: next_answer_same)

lemma mode_same: "sys_mode p d = (r, d') \<Longrightarrow> same_disk d d'"
  by (auto simp: sys_mode_def split: prod.splits syscall_answer.splits option.splits dest: next_answer_same)

lemma chmod_beside:
  assumes "sys_chmod q m d = (r, d')" "old_in_place p i old d" "dk_names d q = Some j" "j \<noteq> i"
  shows "old_in_place p i old d' \<and> dk_names d' = dk_names d \<and> (\<forall>x. x \<noteq> j \<longrightarrow> dk_inodes d' x = dk_inodes d x) \<and>
    (\<forall>u. r = Inr u \<longrightarrow> dk_inodes d' j = (dk_inodes d j)\<lparr>if_mode := m\<rparr>)"
proof -
  obtain a d1 where a: "next_answer d = (a, d1)" by fastforce
  note s = next_answer_same [OF a]
  have o1: "old_in_place p i old d1" by (rule old_same [OF assms(2) s])
  show ?thesis
    using assms(1,3) a s old_put_mode [OF o1 assms(4), of m] o1
    by (cases a) (auto simp: sys_chmod_def same_disk_def)
qed

lemma remove_beside:
  assumes "sys_remove q d = (r, d')" "old_in_place p i old d" "q \<noteq> p"
  shows "old_in_place p i old d' \<and> dk_inodes d' = dk_inodes d \<and> (\<forall>x. x \<noteq> q \<longrightarrow> dk_names d' x = dk_names d x) \<and>
    dk_names d' q \<in> {None, dk_names d q}"
proof -
  obtain a d1 where a: "next_answer d = (a, d1)" by fastforce
  note s = next_answer_same [OF a]
  have o1: "old_in_place p i old d1" by (rule old_same [OF assms(2) s])
  have "old_in_place p i old (set_names ((dk_names d1)(q := None)) d1)"
    using o1 assms(3) by (intro old_set_names [OF o1]) (auto simp: old_in_place_def split: if_splits)
  then show ?thesis
    using assms(1) a s o1 by (cases a; cases "dk_names d q") (auto simp: sys_remove_def same_disk_def)
qed

lemma link_beside:
  assumes "sys_hard_link p q d = (r, d')" "old_in_place p i old d" "q \<noteq> p"
  shows "old_in_place p i old d' \<and> dk_inodes d' = dk_inodes d \<and> (\<forall>x. x \<noteq> q \<longrightarrow> dk_names d' x = dk_names d x) \<and>
    (\<forall>u. r = Inr u \<longrightarrow> dk_names d' q = Some i) \<and> (\<forall>e. r = Inl e \<longrightarrow> dk_names d' = dk_names d)"
proof -
  obtain a d1 where a: "next_answer d = (a, d1)" by fastforce
  note s = next_answer_same [OF a]
  have o1: "old_in_place p i old d1" by (rule old_same [OF assms(2) s])
  have p: "dk_names d p = Some i" "i < dk_next d" using assms(2) by (auto simp: old_in_place_def)
  have "old_in_place p i old (set_names ((dk_names d1)(q \<mapsto> i)) d1)"
    using o1 assms(3) p s by (intro old_set_names [OF o1]) (auto simp: old_in_place_def same_disk_def split: if_splits)
  then show ?thesis
    using assms(1) a s o1 p by (cases a; cases "dk_names d q") (auto simp: sys_hard_link_def same_disk_def)
qed

lemma copy_beside:
  assumes "sys_copy p q d = (r, d')" "old_in_place p i old d" "q \<noteq> p" "dk_names d q \<noteq> Some i"
    and "x \<noteq> q" "dk_names d x = Some k" "dk_names d q \<noteq> Some k"
  shows "old_in_place p i old d' \<and> dk_names d' x = Some k \<and> dk_inodes d' k = dk_inodes d k \<and>
    (\<forall>u. r = Inr u \<longrightarrow> file_at (disk_now d') q = Some old)"
proof -
  have p: "dk_names d p = Some i" "dk_inodes d i = old" using assms(2) by (auto simp: old_in_place_def)
  obtain c d1 where c: "sys_create q d = (c, d1)" by fastforce
  note b = create_beside [OF c assms(2-4)]
  show ?thesis
  proof (cases c)
    case (Inl e)
    then show ?thesis using b assms(1,5-7) p c by (auto simp: sys_copy_def)
  next
    case (Inr j)
    have j: "j \<noteq> i" "j \<noteq> k" "dk_names d1 q = Some j" using b Inr assms(5-7) by blast+
    define d2 where "d2 = put_mode j (if_mode old) d1"
    have o2: "old_in_place p i old d2" unfolding d2_def using b j by (intro old_put_mode) auto
    have w: "sys_write_all j (if_bytes old) d2 = (r, d')"
      using assms(1) p c Inr j by (simp add: sys_copy_def d2_def Let_def)
    note wb = write_beside [OF w o2 j(1)]
    have "dk_names d' x = Some k" "dk_inodes d' k = dk_inodes d k"
      using wb b j assms(5-7) by (auto simp: d2_def)
    moreover have "file_at (disk_now d') q = Some old" if "r = Inr u" for u
      using wb j that by (simp add: file_at_def disk_now_def d2_def)
    ultimately show ?thesis using wb by blast
  qed
qed


section \<open>The switch\<close>

text \<open>
  A disk a switch starts on: the path names the old binary, the names the switch uses are not its
  name nor second names of one file, and nothing was seen yet.
\<close>

definition own_names :: "bin_path \<Rightarrow> bin_path set" where
  "own_names p = {p, incoming p, previous p, write_probe p}"

definition ready_disk :: "bin_path \<Rightarrow> inode_file \<Rightarrow> disk \<Rightarrow> bool" where
  "ready_disk p old d \<longleftrightarrow> file_at (disk_now d) p = Some old \<and> bp_name p \<noteq> Some ''.hlb-write-probe'' \<and>
     (\<forall>q j. dk_names d q = Some j \<longrightarrow> j < dk_next d) \<and> dk_seen d = [] \<and>
     inj_on (dk_names d) (own_names p \<inter> dom (dk_names d))"

lemma own_distinct:
  "incoming p \<noteq> p" "previous p \<noteq> p" "incoming p \<noteq> previous p" "write_probe p \<noteq> incoming p" "write_probe p \<noteq> previous p"
proof -
  have suffixes: "a @ ''.new'' \<noteq> b @ ''.previous''" "''.hlb-write-probe'' \<noteq> a @ ''.new''" "''.hlb-write-probe'' \<noteq> a @ ''.previous''" for a b :: string
    by (auto dest: arg_cong [where f = last])
  show "incoming p \<noteq> p" "previous p \<noteq> p"
    by (auto simp: incoming_def previous_def with_suffix_def bin_path.equality dest!: arg_cong [where f = bp_name] split: option.splits)
  show "incoming p \<noteq> previous p" "write_probe p \<noteq> incoming p" "write_probe p \<noteq> previous p"
    using suffixes by (auto simp: incoming_def previous_def with_suffix_def write_probe_def dest!: arg_cong [where f = bp_name])
qed

lemma other_file:
  assumes "inj_on ns (S \<inter> dom ns)" "a \<in> S" "b \<in> S" "a \<noteq> b" "ns a = Some i"
  shows "ns b \<noteq> Some i"
  using assms by (auto simp: inj_on_def dom_def)

lemma preflight_beside:
  assumes "swap_preflight p d = (r, d')" "old_in_place p i old d" "write_probe p \<noteq> p" "dk_names d (write_probe p) \<noteq> Some i"
  shows "old_in_place p i old d' \<and> (\<forall>x. x \<noteq> write_probe p \<longrightarrow> dk_names d' x = dk_names d x)"
proof -
  obtain c d1 where c: "sys_create (write_probe p) d = (c, d1)" by fastforce
  note b = create_beside [OF c assms(2-4)]
  show ?thesis
  proof (cases c)
    case (Inl e)
    then show ?thesis using assms(1) b c by (auto simp: swap_preflight_def)
  next
    case (Inr j)
    obtain u d2 where u: "sys_remove (write_probe p) d1 = (u, d2)" by fastforce
    have "d' = d2" using assms(1) c Inr u by (simp add: swap_preflight_def)
    then show ?thesis using remove_beside [OF u conjunct1 [OF b] assms(3)] b by auto
  qed
qed

lemma written_beside:
  assumes "write_synced q bs d = (r, d')" "old_in_place p i old d" "q \<noteq> p" "dk_names d q \<noteq> Some i"
  shows "old_in_place p i old d' \<and> (\<forall>x. x \<noteq> q \<longrightarrow> dk_names d' x = dk_names d x) \<and>
    (\<forall>u. r = Inr u \<longrightarrow> (\<exists>j. dk_names d' q = Some j \<and> j \<noteq> i \<and> if_bytes (dk_inodes d' j) = bs \<and>
       (\<forall>x. x \<noteq> q \<longrightarrow> dk_names d x = Some j \<longrightarrow> dk_names d q = Some j)))"
proof -
  obtain c d1 where c: "sys_create q d = (c, d1)" by fastforce
  note b = create_beside [OF c assms(2-4)]
  show ?thesis
  proof (cases c)
    case (Inl e)
    then show ?thesis using assms(1) b c by (auto simp: write_synced_def Let_def)
  next
    case (Inr j)
    obtain w d2 where w: "sys_write_all j bs d1 = (w, d2)" by fastforce
    have "j \<noteq> i" "old_in_place p i old d1" using b Inr by blast+
    note wb = write_beside [OF w this(2,1)]
    obtain y d3 where y: "sys_sync d2 = (y, d3)" by fastforce
    have s: "same_disk d2 d3" by (rule sync_same [OF y])
    then have "old_in_place p i old d3" using wb old_same by blast
    moreover have "d' = d2 \<or> d' = d3" "\<forall>u. r = Inr u \<longrightarrow> w = Inr () \<and> d' = d3"
      using assms(1) c Inr w y by (auto simp: write_synced_def Let_def split: sum.splits)
    ultimately show ?thesis using wb b Inr s by (auto simp: same_disk_def)
  qed
qed

lemma kept_beside:
  assumes "keep_old p d = (r, d')" "old_in_place p i old d" "dk_names d (previous p) \<noteq> Some i"
    and "dk_names d (incoming p) = Some j" "j \<noteq> i" "dk_names d (previous p) \<noteq> Some j"
  shows "old_in_place p i old d' \<and> dk_names d' (incoming p) = Some j \<and> dk_inodes d' j = dk_inodes d j \<and>
    (\<forall>u. r = Inr u \<longrightarrow> file_at (disk_now d') (previous p) = Some old)"
proof -
  obtain u d1 where u: "sys_remove (previous p) d = (u, d1)" by fastforce
  note rb = remove_beside [OF u assms(2) own_distinct(2)]
  have o1: "old_in_place p i old d1" "dk_names d1 (incoming p) = Some j" "dk_inodes d1 = dk_inodes d"
    "dk_names d1 (previous p) \<noteq> Some i" "dk_names d1 (previous p) \<noteq> Some j"
    using rb assms(3-6) own_distinct(3) by auto
  obtain l d2 where l: "sys_hard_link p (previous p) d1 = (l, d2)" by fastforce
  note lb = link_beside [OF l o1(1) own_distinct(2)]
  show ?thesis
  proof (cases l)
    case (Inr v)
    then have "d' = d2" "r = Inr ()" using assms(1) u l by (simp_all add: keep_old_def Let_def)
    then show ?thesis
      using lb o1 own_distinct(3) Inr by (auto simp: file_at_def disk_now_def old_in_place_def)
  next
    case (Inl e)
    obtain c d3 where c: "sys_copy p (previous p) d2 = (c, d3)" by fastforce
    have o2: "old_in_place p i old d2" "dk_names d2 = dk_names d1" "dk_inodes d2 = dk_inodes d" using lb Inl o1 by auto
    have d': "d' = d3" "\<forall>u. r = Inr u \<longrightarrow> c = Inr ()"
      using assms(1) u l Inl c by (auto simp: keep_old_def Let_def split: sum.splits)
    have "dk_names d2 (previous p) \<noteq> Some i" "dk_names d2 (incoming p) = Some j" "dk_names d2 (previous p) \<noteq> Some j"
      using o1 o2(2) by simp_all
    note cb = copy_beside [OF c o2(1) own_distinct(2) this(1) own_distinct(3) this(2,3)]
    then show ?thesis using d' o2 by auto
  qed
qed

lemma executable_bits: "executable EXECUTABLE"
  by (simp add: executable_def EXECUTABLE_def)

lemma and_step_cases:
  assumes "and_step x go = (r, d')"
  obtains (stops) e d1 where "x = (Inl e, d1)" "r = Inl e" "d' = d1"
  | (goes) u d1 where "x = (Inr u, d1)" "go d1 = (r, d')"
  using assms by (cases x; cases "fst x") (auto simp: and_step_def)

text \<open>The last step: the new binary over the old name.\<close>

lemma placed:
  assumes "put_in_place p d = (r, d')" "old_in_place p i old d" "dk_names d (incoming p) = Some j" "j \<noteq> i"
    and "dk_inodes d j = new" "file_at (disk_now d) (previous p) = Some old"
  shows "(\<forall>s \<in> set (dk_seen d'). file_at s p \<in> {Some old, Some new}) \<and>
    (case r of Inl _ \<Rightarrow> file_at (disk_now d') p = Some old
     | Inr _ \<Rightarrow> file_at (disk_now d') p = Some new \<and> file_at (disk_now d') (previous p) = Some old)"
proof -
  obtain a d1 where a: "next_answer d = (a, d1)" by fastforce
  note s = next_answer_same [OF a]
  have p: "dk_names d p = Some i" "dk_inodes d i = old" "\<forall>s \<in> set (dk_seen d). file_at s p = Some old"
    using assms(2) by (auto simp: old_in_place_def)
  show ?thesis
  proof (cases a)
    case (FailsWith e n)
    then show ?thesis using assms(1) a s p
      by (auto simp: put_in_place_def sys_rename_def same_disk_def file_at_def disk_now_def)
  next
    case Does
    then have "r = Inr ()" "d' = set_names ((dk_names d)(p \<mapsto> j, incoming p := None)) d1"
      using assms(1,3,4) a s p by (auto simp: put_in_place_def sys_rename_def same_disk_def)
    then show ?thesis
      using s p assms(4-6) own_distinct [of p]
      by (auto simp: set_names_def seen_def same_disk_def file_at_def disk_now_def)
  qed
qed

lemma swap_keeps_a_binary:
  assumes "ready_disk p old d" "swap_binary p binary d = (r, d')"
  shows "(\<forall>s \<in> set (dk_seen d'). file_at s p \<in> {Some old, Some \<lparr>if_bytes = binary, if_mode = EXECUTABLE\<rparr>}) \<and>
    (case r of Inl _ \<Rightarrow> file_at (disk_now d') p = Some old
     | Inr q \<Rightarrow> q = previous p \<and> file_at (disk_now d') p = Some \<lparr>if_bytes = binary, if_mode = EXECUTABLE\<rparr> \<and>
         file_at (disk_now d') q = Some old)"
proof -
  let ?new = "\<lparr>if_bytes = binary, if_mode = EXECUTABLE\<rparr>"
  let ?goal = "\<lambda>(r :: swap_error + bin_path) d'. (\<forall>s \<in> set (dk_seen d'). file_at s p \<in> {Some old, Some ?new}) \<and>
    (case r of Inl _ \<Rightarrow> file_at (disk_now d') p = Some old
     | Inr q \<Rightarrow> q = previous p \<and> file_at (disk_now d') p = Some ?new \<and> file_at (disk_now d') q = Some old)"
  obtain i where i: "dk_names d p = Some i" "dk_inodes d i = old"
    using assms(1) by (auto simp: ready_disk_def file_at_def disk_now_def)
  have inj: "inj_on (dk_names d) (own_names p \<inter> dom (dk_names d))" using assms(1) by (simp add: ready_disk_def)
  have probe: "write_probe p \<noteq> p" using assms(1) by (auto simp: ready_disk_def write_probe_def dest: arg_cong [where f = bp_name])
  have old: "old_in_place p i old d" using assms(1) i by (simp add: old_in_place_def ready_disk_def)
  have stopped: "?goal (Inl e) d1" if "old_in_place p i old d1" for e :: swap_error and d1
    using that by (auto simp: old_in_place_def file_at_def disk_now_def)
  note other = other_file [OF inj _ _ _ i(1)]
  have apart: "dk_names d (incoming p) \<noteq> Some i" "dk_names d (previous p) \<noteq> Some i" "dk_names d (write_probe p) \<noteq> Some i"
    using other [of "incoming p"] other [of "previous p"] other [of "write_probe p"] own_distinct [of p] probe
    by (auto simp: own_names_def)
  show ?thesis
  proof (cases "looks_like_binary binary")
    case (Inl e)
    then show ?thesis using assms(2) stopped [OF old] by (auto simp: swap_binary_def)
  next
    case (Inr u)
    have run: "and_step (swap_preflight p d) (\<lambda>d.
          and_step (write_synced (incoming p) binary d) (\<lambda>d.
          and_step (set_executable (incoming p) d) (\<lambda>d.
          and_step (check_executable (incoming p) d) (\<lambda>d.
          and_step (keep_old p d) (\<lambda>d.
          and_step (put_in_place p d) (\<lambda>d. (Inr (previous p), snd (sys_sync d)))))))) = (r, d')"
      using assms(2) Inr by (simp add: swap_binary_def)
    from run show ?thesis
    proof (cases rule: and_step_cases)
      case (stops e d1)
      then show ?thesis using preflight_beside [OF stops(1) old probe apart(3)] stopped by blast
    next
      case (goes u d1)
      note b1 = preflight_beside [OF goes(1) old probe apart(3)]
      have n1: "dk_names d1 (incoming p) = dk_names d (incoming p)" "dk_names d1 (previous p) = dk_names d (previous p)"
        using b1 own_distinct [of p] by metis+
      from goes(2) show ?thesis
      proof (cases rule: and_step_cases)
        case (stops e d2)
        show ?thesis unfolding stops(2,3)
          using stopped written_beside [OF stops(1) conjunct1 [OF b1] own_distinct(1), unfolded n1, OF apart(1)] by blast
      next
        case (goes u d2)
        note b2 = written_beside [OF goes(1) conjunct1 [OF b1] own_distinct(1), unfolded n1, OF apart(1)]
        obtain j where j: "dk_names d2 (incoming p) = Some j" "j \<noteq> i" "if_bytes (dk_inodes d2 j) = binary"
          "\<And>x. x \<noteq> incoming p \<Longrightarrow> dk_names d1 x = Some j \<Longrightarrow> dk_names d1 (incoming p) = Some j"
          using b2 n1(1) by auto
        have prev2: "dk_names d2 (previous p) = dk_names d (previous p)"
          using b2 n1(2) own_distinct(3) [of p] by metis
        have prev_j: "dk_names d (previous p) \<noteq> Some j"
        proof
          assume pj: "dk_names d (previous p) = Some j"
          then have "dk_names d (incoming p) = Some j" using j(4) [of "previous p"] n1 own_distinct(3) [of p] by simp
          then show False using other_file [OF inj _ _ own_distinct(3) , of p j] pj by (simp add: own_names_def)
        qed
        from goes(2) show ?thesis
        proof (cases rule: and_step_cases)
          case (stops e d3)
          obtain c where "sys_chmod (incoming p) EXECUTABLE d2 = (c, d3)"
            using stops(1) by (auto simp: set_executable_def split: prod.splits sum.splits)
          from chmod_beside [OF this conjunct1 [OF b2] j(1,2)] show ?thesis using stops stopped by blast
        next
          case (goes u d3)
          obtain v where "sys_chmod (incoming p) EXECUTABLE d2 = (Inr v, d3)"
            using goes(1) by (auto simp: set_executable_def split: prod.splits sum.splits)
          note b3 = chmod_beside [OF this conjunct1 [OF b2] j(1,2)]
          have new3: "dk_inodes d3 j = ?new" using b3 j(3) by (simp add: inode_file.equality)
          from goes(2) show ?thesis
          proof (cases rule: and_step_cases)
            case (stops e d4)
            obtain c where "sys_mode (incoming p) d3 = (c, d4)"
              using stops(1) by (auto simp: check_executable_def split: prod.splits sum.splits)
            then have "old_in_place p i old d4" using mode_same old_same b3 by blast
            then show ?thesis using stops stopped by blast
          next
            case (goes u d4)
            obtain c where "sys_mode (incoming p) d3 = (c, d4)"
              using goes(1) by (auto simp: check_executable_def split: prod.splits sum.splits)
            then have s4: "same_disk d3 d4" by (rule mode_same)
            have o4: "old_in_place p i old d4" using s4 old_same b3 by blast
            have n4: "dk_names d4 (incoming p) = Some j" "dk_names d4 (previous p) \<noteq> Some i" "dk_names d4 (previous p) \<noteq> Some j"
              "dk_inodes d4 j = ?new"
              using s4 b3 j(1) prev2 prev_j apart(2) new3 by (simp_all add: same_disk_def)
            from goes(2) show ?thesis
            proof (cases rule: and_step_cases)
              case (stops e d5)
              then show ?thesis using kept_beside [OF stops(1) o4 n4(2,1) j(2) n4(3)] stopped by blast
            next
              case (goes u d5)
              note b5 = kept_beside [OF goes(1) o4 n4(2,1) j(2) n4(3)]
              have b5': "old_in_place p i old d5" "dk_names d5 (incoming p) = Some j" "dk_inodes d5 j = ?new"
                "file_at (disk_now d5) (previous p) = Some old" using b5 n4(4) by auto
              from goes(2) show ?thesis
              proof (cases rule: and_step_cases)
                case (stops e d6)
                then show ?thesis using placed [OF stops(1) b5'(1,2) j(2) b5'(3,4)] by simp
              next
                case (goes u d6)
                have "same_disk d6 d'" "r = Inr (previous p)"
                  using goes(2) sync_same [of d6] by (auto simp: prod_eq_iff)
                then show ?thesis using placed [OF goes(1) b5'(1,2) j(2) b5'(3,4)]
                  by (simp add: same_disk_def disk_now_def)
              qed
            qed
          qed
        qed
      qed
    qed
  qed
qed


definition ex_path :: bin_path where
  "ex_path = \<lparr>bp_dir = ''/usr/local/bin'', bp_name = Some ''hlb''\<rparr>"

definition ex_old :: inode_file where
  "ex_old = \<lparr>if_bytes = [1, 2], if_mode = EXECUTABLE\<rparr>"

definition ex_disk :: "syscall_answer list \<Rightarrow> disk" where
  "ex_disk as = \<lparr>dk_names = [ex_path \<mapsto> 0], dk_inodes = \<lambda>_. ex_old, dk_next = 1, dk_answers = as, dk_seen = []\<rparr>"

lemma ex_ready: "ready_disk ex_path ex_old (ex_disk as)"
  by (auto simp: ready_disk_def ex_disk_def file_at_def disk_now_def ex_path_def inj_on_def split: if_splits)


text \<open>
  When the second name is still a link to the binary in service and cannot be removed, the hard link
  is refused and the copy made in its stead truncates the very file it copies: the path names an
  empty file.
\<close>

lemma keep_old_may_truncate:
  assumes "dk_names d p = Some i" "dk_names d (previous p) = Some i" "dk_answers d = [FailsWith e n]"
  shows "\<exists>d'. keep_old p d = (Inr (), d') \<and> file_at (disk_now d') p = Some \<lparr>if_bytes = [], if_mode = if_mode (dk_inodes d i)\<rparr>"
  using assms own_distinct(2) [of p]
  by (simp add: keep_old_def sys_remove_def sys_hard_link_def sys_copy_def sys_create_def sys_write_all_def next_answer_def
      set_names_def seen_def put_mode_def put_bytes_def Let_def file_at_def disk_now_def)


section \<open>The rollback\<close>

lemma rename_no_failure:
  assumes "dk_answers d = []" "dk_names d p = Some i" "dk_names d q \<noteq> Some i"
  shows "sys_rename p q d = (Inr (), set_names ((dk_names d)(q \<mapsto> i, p := None)) d)"
  using assms by (simp add: sys_rename_def next_answer_def)

text \<open>
  C38: A switch that succeeded is undone by the rollback, when nothing fails: the path names the old
  binary again, with what it held and its permissions.
\<close>

theorem rollback_undoes_the_switch:
  assumes "ready_disk p old d" "swap_binary p binary d = (Inr q, d1)" "dk_answers d1 = []" "rollback_binary p d1 = (r, d2)"
  shows "r = Inr () \<and> file_at (disk_now d2) p = Some old"
proof -
  from swap_keeps_a_binary [OF assms(1,2)] obtain i j where
    i: "dk_names d1 (previous p) = Some i" "dk_inodes d1 i = old" and j: "dk_names d1 p = Some j"
    by (auto simp: file_at_def disk_now_def)
  let ?aside = "with_extension p ''failed''"
  have aside: "?aside \<noteq> previous p"
  proof
    have "a @ ''.failed'' \<noteq> b @ ''.previous''" for a b :: string by (auto dest: arg_cong [where f = last])
    moreover assume "?aside = previous p"
    ultimately show False
      by (auto simp: with_extension_def previous_def with_suffix_def dest!: arg_cong [where f = bp_name] split: option.splits)
  qed
  define d3 where "d3 = snd (sys_remove ?aside d1)"
  define d4 where "d4 = snd (sys_rename p ?aside d3)"
  have d3: "dk_names d3 = (dk_names d1)(?aside := None)" "dk_inodes d3 = dk_inodes d1" "dk_answers d3 = []"
    unfolding d3_def using assms(3) by (auto simp: sys_remove_def next_answer_def split: option.splits)
  have d4: "dk_names d4 (previous p) = Some i" "dk_inodes d4 = dk_inodes d1" "dk_answers d4 = []" "dk_names d4 p = None"
    unfolding d4_def using d3 i aside own_distinct(2) [of p] assms(3)
    by (auto simp: sys_rename_def next_answer_def split: option.splits)
  define d5 where "d5 = set_names ((dk_names d4)(p \<mapsto> i, previous p := None)) d4"
  have "sys_rename (previous p) p d4 = (Inr (), d5)"
    unfolding d5_def by (rule rename_no_failure) (simp_all add: d4)
  then have "r = Inr ()" "d2 = d5"
    using assms(4) i unfolding rollback_binary_def d3_def d4_def Let_def by simp_all
  then show ?thesis using d4(2) i(2) own_distinct(2) [of p] by (simp add: d5_def file_at_def disk_now_def)
qed

theorem rollback_undoes_the_switch_witness:
  "\<exists>q d1 d2. swap_binary ex_path [0x7F, 0x45, 0x4C, 0x46] (ex_disk []) = (Inr q, d1) \<and>
     rollback_binary ex_path d1 = (Inr (), d2) \<and> file_at (disk_now d2) ex_path = Some ex_old"
proof -
  have calls: "next_answer (d\<lparr>dk_answers := []\<rparr>) = (Does, d\<lparr>dk_answers := []\<rparr>)" for d by (simp add: next_answer_def)
  obtain r d1 where s: "swap_binary ex_path [0x7F, 0x45, 0x4C, 0x46] (ex_disk []) = (r, d1)" by fastforce
  moreover have "fst (swap_binary ex_path [0x7F, 0x45, 0x4C, 0x46] (ex_disk [])) = Inr (previous ex_path) \<and>
      dk_answers (snd (swap_binary ex_path [0x7F, 0x45, 0x4C, 0x46] (ex_disk []))) = []"
    by (simp add: swap_binary_def looks_like_binary_def MAGICS_def and_step_def swap_preflight_def sys_create_def
        next_answer_def ex_disk_def sys_remove_def write_synced_def sys_write_all_def sys_sync_def set_executable_def
        sys_chmod_def check_executable_def sys_mode_def keep_old_def sys_hard_link_def put_in_place_def sys_rename_def
        executable_bits ex_path_def incoming_def previous_def with_suffix_def write_probe_def put_mode_def put_bytes_def
        set_names_def seen_def Let_def)
  ultimately have ok: "swap_binary ex_path [0x7F, 0x45, 0x4C, 0x46] (ex_disk []) = (Inr (previous ex_path), d1)" "dk_answers d1 = []"
    by simp_all
  obtain r2 d2 where b: "rollback_binary ex_path d1 = (r2, d2)" by fastforce
  from rollback_undoes_the_switch [OF ex_ready ok b] ok b show ?thesis by blast
qed

text \<open>
  A rollback has instants with no binary at the path, and when its last call fails it leaves none:
  the old binary stays under its second name and the newer one under a third.
\<close>

lemma rollback_may_leave_none:
  assumes "dk_names d p = Some j" "dk_names d (previous p) = Some i" "i \<noteq> j" "with_extension p ''failed'' \<noteq> p"
    and "dk_names d (with_extension p ''failed'') = None" "dk_answers d = [Does, Does, FailsWith e n]"
  shows "\<exists>d'. rollback_binary p d = (Inl (SwapIo ''restoring the old binary'' e), d') \<and> file_at (disk_now d') p = None"
  using assms own_distinct(2) [of p]
  by (simp add: rollback_binary_def sys_remove_def sys_rename_def next_answer_def set_names_def seen_def Let_def
      file_at_def disk_now_def)


section \<open>The plan\<close>

lemma find_map_None: "find_map f xs = None \<longleftrightarrow> (\<forall>x \<in> set xs. f x = None)"
  by (induction xs) (auto split: option.splits)

text \<open>
  C39: An update of Homelabus is planned only when every migration can be undone, the target is
  newer, every agent answered and is of the target's major version, and the state has a backup of
  a day at most or no app is installed; the agents are all taken, each once, in name order.
\<close>

theorem self_update_can_be_undone:
  assumes "plan_self_update p = Inr u"
  shows "list_all mg_reversible (su_migrations u) \<and> su_migrations u = pf_migrations p \<and>
    semver_key (pf_from p) < semver_key (su_to u) \<and>
    list_all (\<lambda>a. \<exists>v. an_version a = Some v \<and> av_major v = av_major (su_to u)) (pf_agents p) \<and>
    (pf_no_app_installed p \<or> (\<exists>age. pf_state_backup_age_s p = Some age \<and> age \<le> STATE_BACKUP_MAX_AGE_S)) \<and>
    sorted (su_agents u) \<and> mset (su_agents u) = mset (map an_node (pf_agents p))"
proof -
  let ?j = "jump_between (pf_from p) (pf_to p)"
  have none: "find (\<lambda>m. \<not> mg_reversible m) (pf_migrations p) = None" "?j \<noteq> NoJump" "?j \<noteq> Downgrade" "stale_backup p = None"
    "filter (\<lambda>a. an_version a = None) (pf_agents p) = []" "find_map (cannot_talk (pf_to p)) (pf_agents p) = None"
    and u: "u = \<lparr>su_from = pf_from p, su_to = pf_to p, su_jump = ?j, su_agents = sort (map an_node (pf_agents p)),
      su_migrations = pf_migrations p\<rparr>"
    using assms by (auto simp: plan_self_update_def Let_def split: option.splits if_splits)
  have "semver_key (pf_from p) < semver_key (pf_to p)"
    using none(2,3) by (auto simp: jump_between_def split: if_splits)
  moreover have "\<exists>v. an_version a = Some v \<and> av_major v = av_major (pf_to p)" if "a \<in> set (pf_agents p)" for a
  proof -
    have "an_version a \<noteq> None" using none(5) that unfolding filter_empty_conv by blast
    then obtain v where v: "an_version a = Some v" by blast
    have "cannot_talk (pf_to p) a = None" using none(6) that by (simp add: find_map_None)
    then show ?thesis using v by (auto simp: cannot_talk_def compatible_def split: if_splits)
  qed
  moreover have "pf_no_app_installed p \<or> (\<exists>age. pf_state_backup_age_s p = Some age \<and> age \<le> STATE_BACKUP_MAX_AGE_S)"
    using none(4) by (auto simp: stale_backup_def split: if_splits option.splits)
  ultimately show ?thesis using none(1) by (auto simp: u list_all_iff find_None_iff)
qed

theorem self_update_can_be_undone_witness:
  "\<exists>u. plan_self_update \<lparr>pf_from = app_version_new 0 1 0, pf_to = app_version_new 0 2 0,
      pf_agents = [\<lparr>an_node = ''big-01'', an_version = Some (app_version_new 0 1 0)\<rparr>],
      pf_migrations = [\<lparr>mg_name = ''0002'', mg_reversible = True\<rparr>], pf_state_backup_age_s = Some 3600,
      pf_no_app_installed = False\<rparr> = Inr u \<and> list_all mg_reversible (su_migrations u) \<and> su_agents u = [''big-01'']"
proof -
  let ?p = "\<lparr>pf_from = app_version_new 0 1 0, pf_to = app_version_new 0 2 0,
      pf_agents = [\<lparr>an_node = ''big-01'', an_version = Some (app_version_new 0 1 0)\<rparr>],
      pf_migrations = [\<lparr>mg_name = ''0002'', mg_reversible = True\<rparr>], pf_state_backup_age_s = Some 3600,
      pf_no_app_installed = False\<rparr>"
  have j: "jump_between (app_version_new 0 1 0) (app_version_new 0 2 0) = MinorJump"
    by (simp add: jump_between_def semver_key_def app_version_new_def less_prod_def)
  then obtain u where u: "plan_self_update ?p = Inr u"
    by (simp add: plan_self_update_def Let_def stale_backup_def STATE_BACKUP_MAX_AGE_S_def cannot_talk_def compatible_def
        app_version_new_def)
  from self_update_can_be_undone [OF u]
  have "list_all mg_reversible (su_migrations u)" "mset (su_agents u) = mset [''big-01'']" by simp_all
  moreover from this(2) have "su_agents u = [''big-01'']" by (simp only: mset_single_iff_right mset.simps) simp
  ultimately show ?thesis using u by blast
qed


section \<open>The signature\<close>

lemma show_nat_no_newline: "CHR 0x0A \<notin> set (show_nat n)"
  using show_nat_digits [of n] by (auto simp: list_all_iff is_ascii_digit_def)

lemma show_version_no_newline: "CHR 0x0A \<notin> set (show_version v)"
  using show_nat_no_newline by (simp add: show_version_def show_word_def)

lemma show_version_inject: "show_version v = show_version w \<longleftrightarrow> v = w"
proof
  assume e: "show_version v = show_version w"
  have split: "split_char CHR ''.'' (show_version x) =
      [show_nat (unat (av_major x)), show_nat (unat (av_minor x)), show_nat (unat (av_patch x))]" for x
  proof -
    have "CHR ''.'' \<notin> set (show_nat n)" for n
      using show_nat_digits [of n] by (auto simp: list_all_iff is_ascii_digit_def)
    then have "split_char CHR ''.'' (join_with ''.'' [show_nat (unat (av_major x)), show_nat (unat (av_minor x)), show_nat (unat (av_patch x))]) =
        [show_nat (unat (av_major x)), show_nat (unat (av_minor x)), show_nat (unat (av_patch x))]"
      by (intro split_char_join) auto
    then show ?thesis by (simp add: show_version_def show_word_def)
  qed
  have "unat (av_major v) = unat (av_major w)" "unat (av_minor v) = unat (av_minor w)" "unat (av_patch v) = unat (av_patch w)"
    using arg_cong [OF e, of "split_char CHR ''.''"] unfolding split by simp_all
  then have "av_major v = av_major w" "av_minor v = av_minor w" "av_patch v = av_patch w"
    by (simp_all add: word_unat_eq_iff)
  then show "v = w" by (intro app_version.equality) simp_all
qed simp

lemma signed_payload_inject: "signed_payload v s = signed_payload w t \<longleftrightarrow> v = w \<and> s = t"
proof
  assume "signed_payload v s = signed_payload w t"
  then have e: "show_version v @ CHR 0x0A # ''sha256='' @ s = show_version w @ CHR 0x0A # ''sha256='' @ t"
    by (simp add: signed_payload_def newline_def)
  have "show_version v = show_version w \<and> ''sha256='' @ s = ''sha256='' @ t"
  proof -
    have "split_once CHR 0x0A (show_version v @ CHR 0x0A # ''sha256='' @ s) = Some (show_version v, ''sha256='' @ s)"
      "split_once CHR 0x0A (show_version w @ CHR 0x0A # ''sha256='' @ t) = Some (show_version w, ''sha256='' @ t)"
      using show_version_no_newline by (simp_all add: split_once_Some)
    then show ?thesis unfolding e by simp
  qed
  then show "v = w \<and> s = t" by (simp add: show_version_inject)
qed simp

text \<open>
  C40: If the publisher's key only ever signs the fingerprint of a release under its version, what
  is accepted for a version has the fingerprint of a release of exactly that version: a manifest
  signed for another one, older or newer, is never enough.
\<close>

theorem accepted_release_is_the_one_asked_for:
  assumes "\<And>msg sig. ed_verify key msg sig \<Longrightarrow> \<exists>(v, b) \<in> releases. msg = signed_payload v (sha256_hex b)"
    and "verify_release ed_verify key m expected binary = Inr ()"
  shows "\<exists>b. (expected, b) \<in> releases \<and> sha256_hex binary = sha256_hex b"
proof -
  obtain sig where sig: "ed_verify key (signed_payload (rm_version m) (rm_sha256 m)) sig" "rm_version m = expected"
    "constant_eq (sha256_hex binary) (rm_sha256 m)"
    using assms(2) by (auto simp: verify_release_def Let_def split: if_splits option.splits)
  obtain v b where "(v, b) \<in> releases" "signed_payload (rm_version m) (rm_sha256 m) = signed_payload v (sha256_hex b)"
    using assms(1) [OF sig(1)] by blast
  then show ?thesis using sig(2,3) by (auto simp: signed_payload_inject constant_eq_iff)
qed

definition ex_sign :: "string \<Rightarrow> string \<Rightarrow> u8 list \<Rightarrow> bool" where
  "ex_sign key msg sig \<longleftrightarrow> msg = signed_payload (app_version_new 0 2 0) (sha256_hex [1, 2, 3])"

definition ex_release :: release_manifest where
  "ex_release = \<lparr>rm_version = app_version_new 0 2 0, rm_sha256 = sha256_hex [1, 2, 3], rm_signature = replicate 128 CHR ''0''\<rparr>"

theorem accepted_release_is_the_one_asked_for_witness:
  "verify_release ex_sign ''k'' ex_release (app_version_new 0 2 0) [1, 2, 3] = Inr () \<and>
   (\<exists>b. (app_version_new 0 2 0, b) \<in> {(app_version_new 0 2 0, [1, 2, 3])} \<and> sha256_hex [1, 2, 3] = sha256_hex b)"
proof -
  have h: "from_hex (replicate 128 CHR ''0'') = Some (replicate 64 0)" by code_simp
  have t: "trim (replicate 128 CHR ''0'') \<noteq> []" by code_simp
  have v: "verify_release ex_sign ''k'' ex_release (app_version_new 0 2 0) [1, 2, 3] = Inr ()"
    by (simp only: verify_release_def ex_release_def release_manifest.simps h t option.simps if_False length_replicate
        ex_sign_def Let_def constant_eq_iff simp_thms)
  have "\<exists>b. (app_version_new 0 2 0, b) \<in> {(app_version_new 0 2 0, [1, 2, 3])} \<and> sha256_hex [1, 2, 3] = sha256_hex b"
    by (rule accepted_release_is_the_one_asked_for [where ed_verify = ex_sign and key = "''k''" and m = ex_release])
      (auto simp: ex_sign_def v)
  with v show ?thesis by blast
qed

end
