(* ===== verification/Spec2Isabelle.thy ===== *)
theory Spec2Isabelle
  imports Install_Props Users Sieve Access_Sync_Props Split_Props Confirm_Props Cluster_Props Updater_Props Backup_Props Selfupdate_Props
begin

text \<open>
  Homelabus: from a manifest to a running, updated and restorable service.

  \<^bold>\<open>The program.\<close> Homelabus installs self-hosted apps on a small Docker Swarm. An app is
  described by a manifest and a guide; both are validated, resolved into an execution plan, and
  the plan is carried out by a daemon. Around that core, the program decides who may sign in to
  what, which actions take a passkey, which updates may be applied and when, how nodes are taken
  out of service, where copies go and what can be restored from them, and how the program
  replaces its own binary. The crates under \<open>src/crates\<close> keep these decisions apart from the
  calls that carry them out; the development models the decisions.

  \<^bold>\<open>Conventions\<close> (\<open>Prelude\<close>, \<open>Rust_Str\<close>). A \<open>String\<close> is its UTF-8 bytes, a list of
  characters; symbols outside ASCII are written as their encodings. A \<open>BTreeMap\<close> is an
  association list with strictly increasing keys, a \<open>BTreeSet\<close> a strictly increasing list; the
  locale \<open>ordered_map\<close> is what the loops rely on, interpreted on that model. \<open>Result\<close> is a sum
  with the error on the left, \<open>Option\<close> the library's type. A value Rust computes on a fixed
  width is a word where it can wrap (hashes, checksums, counters, byte counts); instants are
  \<open>i64\<close> in the source and \<open>int\<close> here, wrapped by \<open>wrap_i64\<close> where an addition is not bounded by
  its callers, as a release build does. A panic is a branch of its own: \<open>None\<close> of an option, or
  a case of an error type. A loop with no structural measure is a \<open>partial_function (option)\<close>,
  so that not returning is a value, and is shown to return: the sort of the graph (\<open>kahn\<close>) and
  the watch over a service being switched (\<open>watch_until\<close>).

  \<^bold>\<open>Catalog data\<close> (\<open>crates/hlb-types\<close>). \<open>Capability\<close>, \<open>Guide\<close>, \<open>Rbac\<close>, \<open>Access\<close>, \<open>Manifest\<close>
  and \<open>Binding\<close> hold the types of a manifest and a guide as the code declares them, one record
  or datatype per struct or enum, and their operations. \<open>Checks\<close> is the shape shared by the
  validators: rules run in order until one refuses. \<open>Validate\<close>, \<open>Validate_Access\<close> and
  \<open>Validate_Guide\<close> are \<open>validate_with_guide\<close> and \<open>validate_guide\<close>, rule after rule.
  \<open>Validate_Props\<close> shows what acceptance promises.

  \<^bold>\<open>From a manifest to a plan\<close> (\<open>crates/hlb-resolver\<close>). \<open>Plan\<close> holds the actions, \<open>Resolver\<close>
  the body of \<open>resolve_with_guide\<close> part by part, \<open>Graph\<close> the order in which apps that depend on
  one another are deployed. \<open>Resolver_Order\<close> and \<open>Resolver_Props\<close> show the order inside a plan
  (a secret is generated before the server or the service that uses it, routes come last) and
  when a plan exists; \<open>Install_Props\<close> composes validation and resolution.

  \<^bold>\<open>People and secrets\<close> (\<open>crates/hlb-users\<close>, \<open>hlb-secrets\<close>, \<open>hlb-identity\<close>, \<open>hlb-privd\<close>).
  \<open>Users\<close> has roles, accounts, aliases and generated addresses; \<open>Sieve\<close> the managed block of a
  mail filter; \<open>Access_Sync\<close> the computation of the groups, claims and doors the identity
  provider should hold, shown in \<open>Access_Sync_Props\<close> to implement the policy the records state.
  \<open>Token\<close> has the hand-written SHA-256, base64url, base 32 and constant-time comparison, run on
  published examples in \<open>Sha_Vectors\<close>; \<open>Split\<close> the
  printed shares of the recovery key and their checksum. \<open>Oidc\<close> is the sign-in exchange, and
  \<open>Confirm\<close> the table of passkey confirmations of the daemon: \<open>consume\<close> holds its lock only at
  its start and its end, so \<open>Confirm_Props\<close> makes each half a step of an inductive relation over
  any number of concurrent calls, and its properties are invariants of what is reachable.

  \<^bold>\<open>The running cluster\<close> (\<open>swarm.rs\<close> of \<open>hlb-types\<close>, \<open>crates/hlb-registry\<close>, \<open>hlb-updater\<close>).
  \<open>Cluster\<close> has nodes, quorum, failure domains and maintenance; \<open>Registry\<close> image references and
  the order of tags; \<open>Window\<close> the maintenance windows; \<open>Updater\<close> the candidates, their maturity
  and their authorisation; \<open>Update_Apply\<close> the switch of a service and of its companions, the
  verdict on an image and the proposals for the catalog. \<open>Cluster_Props\<close> and \<open>Updater_Props\<close>
  hold their properties.

  \<^bold>\<open>Copies and restores\<close> (\<open>crates/hlb-backup\<close>). \<open>Instant\<close> is the calendar written by hand,
  \<open>Pitr\<close> the restores of PostgreSQL to an instant, \<open>Backup\<close> retention, schedules, destinations
  and the deletion of copies, \<open>Recovery\<close> standbys, drills, restorability and the promotion to
  another node; \<open>Backup_Props\<close> their properties.

  \<^bold>\<open>The program's own binary\<close> (\<open>crates/hlb-selfupdate\<close>). \<open>Selfupdate\<close> has the versions, the
  plan of an update, the acceptance of a signed release, and the switch on disk as a sequence of
  system calls each of which may fail; \<open>Selfupdate_Props\<close> follows every prefix of that sequence.

  \<^bold>\<open>Parameters.\<close> What is not code of the repository is an argument of what uses it: the time
  zone database, JSON printing and parsing, the cryptography of \<open>Split\<close> (a record \<open>crypto\<close>) and
  of signatures, the identity provider, the randomness drawn, the clock, the registry and the
  orchestrator (their calls take and return a state), the time library, the tools \<open>trivy\<close>,
  \<open>cosign\<close> and \<open>restic\<close>, and the answers of system calls. The laws assumed of them are
  hypotheses of the theorems that need them, each with a concrete instance in the witness.

  \<^bold>\<open>Not modelled.\<close> Serialisation attributes; the wording of refusals, except where it is part
  of what is shown; and the crates that carry decisions out: the SQL of the state database, the
  clients of Docker, of the mail server, of the object store, of the identity provider and of
  the other servers, the HTTP routes, the command line, and the daemon's loop. They are input and
  output around the decisions modelled here.
\<close>

end
